(* ===== verification/GePrelude.thy ===== *)
theory GePrelude
  imports Main "HOL-Library.Word" "HOL-Library.Signed_Division"
begin

text \<open>
  Shared vocabulary of the development: outcomes of C++ functions that return a
  \<^verbatim>\<open>ge::Status\<close>, checked element access of \<^verbatim>\<open>std::vector\<close>, 64-bit
  signed arithmetic, counted \<^verbatim>\<open>for\<close> loops with early return, and byte
  buffers that are read and written in elements of a fixed size.

  A function that returns \<^verbatim>\<open>Status\<close> and fills an output parameter becomes a
  function into \<open>fault + 'a\<close>: \<open>Inr v\<close> is \<^verbatim>\<open>SUCCESS\<close> with the output
  \<open>v\<close>, \<open>Inl (Ret s)\<close> is the early return of the error code \<open>s\<close>,
  \<open>Inl Throw_out_of_range\<close> is the exception of \<^verbatim>\<open>std::vector::at\<close> and
  \<open>Inl Undefined\<close> is undefined behaviour (an out-of-range \<^verbatim>\<open>operator[]\<close> or raw
  pointer access, a division by zero).
\<close>

named_theorems res_simps \<open>rewriting outcomes and loops\<close>
named_theorems layout_simps \<open>rewriting index arithmetic of tensor layouts\<close>

section \<open>Outcomes\<close>

datatype Status =
    FAILED
  | PARAM_INVALID
  | UNSUPPORTED
  | GRAPH_FAILED
  | ACL_ERROR_GE_PARAM_INVALID
  | ACL_ERROR_GE_FORMAT_INVALID
  | ACL_ERROR_GE_SHAPE_INVALID
  | ACL_ERROR_GE_DATATYPE_INVALID
  | ACL_ERROR_GE_MEMORY_ALLOCATION
  | ACL_ERROR_GE_MEMORY_OPERATE_FAILED

datatype fault = Ret Status | Throw_out_of_range | Undefined

type_synonym 'a res = "fault + 'a"

definition rbind :: "'a res \<Rightarrow> ('a \<Rightarrow> 'b res) \<Rightarrow> 'b res" where
  "rbind m k = (case m of Inl e \<Rightarrow> Inl e | Inr x \<Rightarrow> k x)"

lemma rbind_Inr [simp, res_simps]: "rbind (Inr x) k = k x"
  by (simp add: rbind_def)

lemma rbind_Inl [simp, res_simps]: "rbind (Inl e) k = Inl e"
  by (simp add: rbind_def)

lemma rbind_eq_Inr: "rbind m k = Inr y \<longleftrightarrow> (\<exists>x. m = Inr x \<and> k x = Inr y)"
  by (cases m) auto

lemma rbind_InrI: "m = Inr x \<Longrightarrow> k x = y \<Longrightarrow> rbind m k = y"
  by simp

lemma rbind_InrE:
  assumes "rbind m k = Inr y"
  obtains x where "m = Inr x" and "k x = Inr y"
  using assms by (auto simp: rbind_eq_Inr)

lemma rbind_cong [fundef_cong]:
  "m = m' \<Longrightarrow> (\<And>x. m' = Inr x \<Longrightarrow> k x = k' x) \<Longrightarrow> rbind m k = rbind m' k'"
  by (cases m') auto

text \<open>
  \<open>vec_at\<close> is \<^verbatim>\<open>std::vector::at\<close> (throws out of range), \<open>vec_ix\<close> is
  \<^verbatim>\<open>operator[]\<close> (undefined out of range).
\<close>

definition vec_at :: "'a list \<Rightarrow> nat \<Rightarrow> 'a res" where
  "vec_at xs i = (if i < length xs then Inr (xs ! i) else Inl Throw_out_of_range)"

definition vec_ix :: "'a list \<Rightarrow> nat \<Rightarrow> 'a res" where
  "vec_ix xs i = (if i < length xs then Inr (xs ! i) else Inl Undefined)"

lemma vec_at_in [res_simps]: "i < length xs \<Longrightarrow> vec_at xs i = Inr (xs ! i)"
  by (simp add: vec_at_def)

lemma vec_ix_in [res_simps]: "i < length xs \<Longrightarrow> vec_ix xs i = Inr (xs ! i)"
  by (simp add: vec_ix_def)

section \<open>64-bit signed arithmetic\<close>

text \<open>
  Values of type \<^verbatim>\<open>int64_t\<close> are integers; \<open>wrap64\<close> is the two's complement
  reduction and \<open>mul64\<close> the 64-bit product.  The library's \<open>sdiv\<close> and
  \<open>smod\<close> truncate towards zero, as \<^verbatim>\<open>/\<close> and \<^verbatim>\<open>%\<close> do in C++.
\<close>

definition wrap64 :: "int \<Rightarrow> int" where
  "wrap64 x = (x + 2 ^ 63) mod 2 ^ 64 - 2 ^ 63"

definition mul64 :: "int \<Rightarrow> int \<Rightarrow> int" where
  "mul64 a b = wrap64 (a * b)"

definition is_int64 :: "int \<Rightarrow> bool" where
  "is_int64 x \<longleftrightarrow> - (2 ^ 63) \<le> x \<and> x < 2 ^ 63"

lemma wrap64_id: "is_int64 x \<Longrightarrow> wrap64 x = x"
  by (simp add: wrap64_def is_int64_def)

lemma is_int64_wrap64: "is_int64 (wrap64 x)"
proof -
  have "0 \<le> (x + 2 ^ 63) mod (2 ^ 64 :: int)" and "(x + 2 ^ 63) mod (2 ^ 64 :: int) < 2 ^ 64"
    by simp_all
  then show ?thesis by (simp add: wrap64_def is_int64_def)
qed

lemma wrap64_0 [simp]: "wrap64 0 = 0"
  by (simp add: wrap64_def)

lemma mul64_0 [simp]: "mul64 0 a = 0" "mul64 a 0 = 0"
  by (simp_all add: mul64_def)

lemma mul64_id: "is_int64 (a * b) \<Longrightarrow> mul64 a b = a * b"
  by (simp add: mul64_def wrap64_id)

lemma is_int64_bound: "0 \<le> x \<Longrightarrow> x < 2 ^ 63 \<Longrightarrow> is_int64 x"
  by (simp add: is_int64_def)

lemma sdiv_nonneg [layout_simps]: "0 \<le> (a::int) \<Longrightarrow> 0 < b \<Longrightarrow> a sdiv b = a div b"
  by (cases "a = 0") (auto simp: signed_divide_int_def zsgn_def)

lemma smod_nonneg [layout_simps]: "0 \<le> (a::int) \<Longrightarrow> 0 < b \<Longrightarrow> a smod b = a mod b"
  by (cases "a = 0") (simp_all add: signed_modulo_int_def zsgn_def)

lemma int_div_lt: "0 < (d :: int) \<Longrightarrow> v < c * d \<Longrightarrow> v div d < c"
  by (rule mult_right_less_imp_less [of _ d]) (use pos_mod_sign [of d v] div_mult_mod_eq [of v d] in linarith)+

lemma int_pair_div: "0 \<le> (r :: int) \<Longrightarrow> r < d \<Longrightarrow> (a * d + r) div d = a"
  by (cases "d = 0") simp_all

lemma int_pair_mod: "0 \<le> (r :: int) \<Longrightarrow> r < d \<Longrightarrow> (a * d + r) mod d = r"
  by simp

lemma int_div_mult_le: "0 < d \<Longrightarrow> a div d * d \<le> (a::int)"
proof -
  assume "0 < d"
  then have "0 \<le> a mod d" by simp
  moreover have "a div d * d + a mod d = a" by (rule div_mult_mod_eq)
  ultimately show ?thesis by linarith
qed

section \<open>Counted loops\<close>

text \<open>
  \<open>for_list xs body s\<close> runs \<open>body\<close> for the elements of \<open>xs\<close> in order and stops at the
  first fault; \<open>for_upto n\<close> is \<^verbatim>\<open>for (int64_t i = 0; i < n; i++)\<close>.
\<close>

fun for_list :: "'i list \<Rightarrow> ('i \<Rightarrow> 's \<Rightarrow> 's res) \<Rightarrow> 's \<Rightarrow> 's res" where
  "for_list [] body s = Inr s"
| "for_list (x # xs) body s = rbind (body x s) (for_list xs body)"

definition for_upto :: "int \<Rightarrow> (int \<Rightarrow> 's \<Rightarrow> 's res) \<Rightarrow> 's \<Rightarrow> 's res" where
  "for_upto n body = for_list [0..n - 1] body"

lemma for_list_append:
  "for_list (xs @ ys) body s = rbind (for_list xs body s) (for_list ys body)"
proof (induction xs arbitrary: s)
  case (Cons x xs)
  then show ?case by (cases "body x s") simp_all
qed simp

lemma for_list_map: "for_list (map g xs) body = for_list xs (\<lambda>x. body (g x))"
proof (rule ext)
  fix s show "for_list (map g xs) body s = for_list xs (\<lambda>x. body (g x)) s"
    by (induction xs arbitrary: s) (simp_all add: rbind_def split: sum.split)
qed

lemma for_list_concat:
  "for_list (concat xss) body = for_list xss (\<lambda>xs. for_list xs body)"
proof (rule ext)
  fix s show "for_list (concat xss) body s = for_list xss (\<lambda>xs. for_list xs body) s"
    by (induction xss arbitrary: s) (simp_all add: for_list_append rbind_def split: sum.split)
qed

lemma for_list_cong:
  "(\<And>x s. x \<in> set xs \<Longrightarrow> b x s = b' x s) \<Longrightarrow> for_list xs b s = for_list xs b' s"
proof (induction xs arbitrary: s)
  case (Cons x xs)
  then show ?case by (cases "b' x s") simp_all
qed simp

text \<open>
  A loop whose body succeeds on every state that satisfies an invariant succeeds, and
  is the fold of the body's results.
\<close>

lemma for_list_fold:
  assumes "\<And>x s. x \<in> set xs \<Longrightarrow> I s \<Longrightarrow> body x s = Inr (f x s) \<and> I (f x s)" and "I s"
  shows "for_list xs body s = Inr (fold f xs s) \<and> I (fold f xs s)"
  using assms
proof (induction xs arbitrary: s)
  case (Cons x xs)
  have "body x s = Inr (f x s)" and "I (f x s)"
    using Cons.prems by auto
  moreover have "for_list xs body (f x s) = Inr (fold f xs (f x s)) \<and> I (fold f xs (f x s))"
    using Cons.prems \<open>I (f x s)\<close> by (intro Cons.IH) auto
  ultimately show ?case by simp
qed simp

text \<open>An invariant that every successful iteration keeps holds when the loop succeeds.\<close>

lemma for_list_inv:
  assumes "for_list xs body s = Inr s'" and "I s"
    and "\<And>x t t'. x \<in> set xs \<Longrightarrow> I t \<Longrightarrow> body x t = Inr t' \<Longrightarrow> I t'"
  shows "I s'"
  using assms
proof (induction xs arbitrary: s)
  case (Cons x xs)
  from Cons.prems(1) obtain t where "body x s = Inr t" and "for_list xs body t = Inr s'"
    by (auto simp: rbind_eq_Inr)
  with Cons show ?case by (metis list.set_intros)
qed simp

section \<open>Byte buffers\<close>

type_synonym byte = "8 word"

definition get :: "byte list \<Rightarrow> nat \<Rightarrow> nat \<Rightarrow> byte list" where
  "get buf off n = take n (drop off buf)"

definition put :: "byte list \<Rightarrow> nat \<Rightarrow> byte list \<Rightarrow> byte list" where
  "put buf off bs = take off buf @ bs @ drop (off + length bs) buf"

text \<open>\<open>elem sz buf k\<close> is the \<open>k\<close>-th element of \<open>sz\<close> bytes.\<close>

definition elem :: "nat \<Rightarrow> byte list \<Rightarrow> nat \<Rightarrow> byte list" where
  "elem sz buf k = get buf (k * sz) sz"

lemma length_put: "off + length bs \<le> length buf \<Longrightarrow> length (put buf off bs) = length buf"
  by (simp add: put_def)

lemma length_get: "off + n \<le> length buf \<Longrightarrow> length (get buf off n) = n"
  by (simp add: get_def)

lemma nth_put:
  "off + length bs \<le> length buf \<Longrightarrow> p < length buf \<Longrightarrow>
   put buf off bs ! p = (if off \<le> p \<and> p < off + length bs then bs ! (p - off) else buf ! p)"
  by (auto simp: put_def nth_append min_def)

lemma nth_get: "off + n \<le> length buf \<Longrightarrow> p < n \<Longrightarrow> get buf off n ! p = buf ! (off + p)"
  by (simp add: get_def)

lemma elem_in_bounds: "k < N \<Longrightarrow> length buf = N * sz \<Longrightarrow> k * sz + sz \<le> length buf"
proof -
  assume "k < N" and "length buf = N * sz"
  then have "Suc k * sz \<le> N * sz" by (intro mult_le_mono1) simp
  then show ?thesis using \<open>length buf = N * sz\<close> by simp
qed

lemma length_elem: "k < N \<Longrightarrow> length buf = N * sz \<Longrightarrow> length (elem sz buf k) = sz"
  unfolding elem_def by (rule length_get) (rule elem_in_bounds)

lemma elem_put_same:
  assumes "k < N" and "length buf = N * sz" and "length v = sz"
  shows "elem sz (put buf (k * sz) v) k = v"
proof -
  have "k * sz + length v \<le> length buf"
    using elem_in_bounds [OF assms(1,2)] assms(3) by simp
  then show ?thesis using assms(3) by (simp add: elem_def get_def put_def)
qed

lemma elem_put_other:
  assumes "k < N" and "m < N" and "k \<noteq> m" and "length buf = N * sz" and "length v = sz"
  shows "elem sz (put buf (k * sz) v) m = elem sz buf m"
proof (rule nth_equalityI)
  have k: "k * sz + length v \<le> length buf"
    using elem_in_bounds [OF assms(1,4)] assms(5) by simp
  have m: "m * sz + sz \<le> length buf"
    by (rule elem_in_bounds [OF assms(2,4)])
  show len: "length (elem sz (put buf (k * sz) v) m) = length (elem sz buf m)"
    using k m by (simp add: elem_def length_get length_put)
  fix p assume "p < length (elem sz (put buf (k * sz) v) m)"
  then have p: "p < sz"
    using k m by (simp add: elem_def length_get length_put)
  have "\<not> (k * sz \<le> m * sz + p \<and> m * sz + p < k * sz + sz)"
  proof
    assume *: "k * sz \<le> m * sz + p \<and> m * sz + p < k * sz + sz"
    from p have "k = (m * sz + p) div sz"
      using * by (metis div_nat_eqI mult.commute mult_Suc add.commute)
    moreover from p have "(m * sz + p) div sz = m" by simp
    ultimately show False using assms(3) by simp
  qed
  then show "elem sz (put buf (k * sz) v) m ! p = elem sz buf m ! p"
    using k m p assms(5) by (auto simp: elem_def nth_get nth_put length_put)
qed

lemma buf_eqI:
  assumes "length a = N * sz" and "length b = N * sz"
    and "\<And>k. k < N \<Longrightarrow> elem sz a k = elem sz b k"
  shows "a = b"
proof (rule nth_equalityI)
  show "length a = length b" using assms by simp
  fix p assume p: "p < length a"
  with assms(1) have sz: "0 < sz" by (cases sz) auto
  let ?k = "p div sz"
  have k: "?k < N" using p assms(1) sz by (simp add: div_less_iff_less_mult)
  have "elem sz a ?k ! (p mod sz) = elem sz b ?k ! (p mod sz)"
    using assms(3) [OF k] by simp
  then show "a ! p = b ! p"
    using elem_in_bounds [OF k assms(1)] elem_in_bounds [OF k assms(2)] sz
    by (simp add: elem_def nth_get)
qed

lemma elem_replicate: "k < N \<Longrightarrow> elem sz (replicate (N * sz) x) k = replicate sz x"
proof -
  assume "k < N"
  then have "k * sz + sz \<le> N * sz"
    by (metis Suc_leI add.commute mult_Suc mult_le_mono1)
  then have "min (N * sz - k * sz) sz = sz" by linarith
  then show ?thesis by (simp add: elem_def get_def)
qed

lemma length_concat_map:
  "(\<And>x. x \<in> set xs \<Longrightarrow> length (f x) = sz) \<Longrightarrow> length (concat (map f xs)) = length xs * sz"
  by (induction xs) auto

lemma elem_concat_map:
  "(\<And>x. x \<in> set xs \<Longrightarrow> length (f x) = sz) \<Longrightarrow> k < length xs \<Longrightarrow>
   elem sz (concat (map f xs)) k = f (xs ! k)"
proof (induction xs arbitrary: k)
  case (Cons x xs)
  show ?case
  proof (cases k)
    case 0
    with Cons.prems show ?thesis by (simp add: elem_def get_def)
  next
    case (Suc j)
    with Cons show ?thesis by (simp add: elem_def get_def)
  qed
qed simp

end
