(* ===== verification/Layout.thy ===== *)
theory Layout
  imports GePrelude
begin

text \<open>
  Row-major tensor layouts and the reference semantics of a format transfer.  A tensor of
  dimensions \<open>D\<close> is a byte buffer; the element with index tuple \<open>i\<close> sits at the linear
  position \<open>lin D i\<close>.  A transfer to dimensions \<open>D\<close> from dimensions \<open>S\<close> is given by a
  function \<open>pick\<close> that names, for every destination tuple, the source tuple to copy or
  \<open>None\<close> for zero padding; \<open>relayout\<close> is the resulting buffer.  The locales state
  what makes such a function a layout map and when two of them undo each other; the
  transfer theories interpret them for the layouts of the code.
\<close>

section \<open>Index tuples\<close>

fun indices :: "int list \<Rightarrow> int list list" where
  "indices [] = [[]]"
| "indices (d # ds) = concat (map (\<lambda>i. map ((#) i) (indices ds)) [0..d - 1])"

fun lin :: "int list \<Rightarrow> int list \<Rightarrow> int" where
  "lin (d # ds) (i # is) = i * prod_list ds + lin ds is"
| "lin _ _ = 0"

definition in_range :: "int list \<Rightarrow> int list \<Rightarrow> bool" where
  "in_range D i \<longleftrightarrow> list_all2 (\<lambda>d k. 0 \<le> k \<and> k < d) D i"

lemma in_range_Nil [simp]: "in_range [] i \<longleftrightarrow> i = []"
  by (simp add: in_range_def)

lemma in_range_Nil2 [simp]: "in_range D [] \<longleftrightarrow> D = []"
  by (simp add: in_range_def)

lemma in_range_Cons [simp]:
  "in_range (d # D) (k # i) \<longleftrightarrow> 0 \<le> k \<and> k < d \<and> in_range D i"
  by (simp add: in_range_def)

lemma in_range_ConsE:
  assumes "in_range (d # D) i"
  obtains k i' where "i = k # i'" and "0 \<le> k" and "k < d" and "in_range D i'"
  using assms by (auto simp: in_range_def list_all2_Cons1)

lemma set_indices: "set (indices D) = {i. in_range D i}"
proof (induction D)
  case (Cons d D)
  show ?case
  proof (rule set_eqI)
    fix i show "i \<in> set (indices (d # D)) \<longleftrightarrow> i \<in> {i. in_range (d # D) i}"
      using Cons by (cases i) auto
  qed
qed simp

lemma in_range_nth_indices: "k < length (indices D) \<Longrightarrow> in_range D (indices D ! k)"
  using nth_mem [of k "indices D"] by (simp add: set_indices)

lemma in_range_dims_pos: "in_range D i \<Longrightarrow> \<forall>d \<in> set D. 0 < d"
  unfolding in_range_def by (induction rule: list_all2_induct) auto

lemma prod_list_nonneg: "\<forall>d \<in> set D. 0 \<le> d \<Longrightarrow> 0 \<le> prod_list (D :: int list)"
  by (induction D) auto

lemma prod_list_pos: "\<forall>d \<in> set D. 0 < d \<Longrightarrow> 0 < prod_list (D :: int list)"
  by (induction D) auto

lemma prod_list_posD:
  "0 < prod_list (D :: int list) \<Longrightarrow> \<forall>d \<in> set D. 0 \<le> d \<Longrightarrow> \<forall>d \<in> set D. 0 < d"
  by (induction D) (auto simp: zero_less_mult_iff dest: prod_list_nonneg)

lemma foldl_mul64_pos:
  "0 < a \<Longrightarrow> \<forall>x \<in> set xs. 0 < x \<Longrightarrow> a * prod_list xs < 2 ^ 63 \<Longrightarrow> foldl mul64 a xs = a * prod_list xs"
proof (induction xs arbitrary: a)
  case (Cons x xs)
  have pos: "0 < a * x" "0 < prod_list xs" using Cons.prems(1,2) by (auto intro: prod_list_pos)
  then have "a * x * 1 \<le> a * x * prod_list xs" by (intro mult_left_mono) auto
  then have "is_int64 (a * x)" using pos Cons.prems(3) by (intro is_int64_bound) (auto simp: ac_simps)
  then show ?case using Cons.IH [of "a * x"] Cons.prems pos by (simp add: mul64_id ac_simps)
qed simp

lemma dims_nonneg: "\<forall>d \<in> set D. 0 < d \<Longrightarrow> \<forall>d \<in> set D. (0 :: int) \<le> d"
  by auto

lemma length_indices: "\<forall>d \<in> set D. 0 \<le> d \<Longrightarrow> int (length (indices D)) = prod_list D"
proof (induction D)
  case (Cons d D)
  have "length (indices (d # D)) = nat d * length (indices D)"
    by (simp add: length_concat comp_def sum_list_triv)
  with Cons show ?case by simp
qed simp

lemma lin_bounds: "in_range D i \<Longrightarrow> 0 \<le> lin D i \<and> lin D i < prod_list D"
proof (induction D arbitrary: i)
  case (Cons d D)
  from Cons.prems obtain k i' where i: "i = k # i'" and k: "0 \<le> k" "k < d" and i': "in_range D i'"
    by (rule in_range_ConsE)
  from Cons.IH [OF i'] have IH: "0 \<le> lin D i'" "lin D i' < prod_list D" by auto
  have P: "0 < prod_list D" by (rule prod_list_pos) (rule in_range_dims_pos [OF i'])
  have "lin (d # D) i < k * prod_list D + prod_list D"
    using i IH by simp
  also have "\<dots> = (k + 1) * prod_list D" by (simp add: algebra_simps)
  also have "\<dots> \<le> d * prod_list D" using k P by (intro mult_right_mono) auto
  finally show ?case using i k IH P by simp
qed simp

lemma lin_inj: "in_range D i \<Longrightarrow> in_range D j \<Longrightarrow> lin D i = lin D j \<Longrightarrow> i = j"
proof (induction D arbitrary: i j)
  case (Cons d D)
  from Cons.prems(1) obtain k i' where i: "i = k # i'" and i': "in_range D i'"
    by (rule in_range_ConsE)
  from Cons.prems(2) obtain m j' where j: "j = m # j'" and j': "in_range D j'"
    by (rule in_range_ConsE)
  let ?P = "prod_list D"
  have eq: "k * ?P + lin D i' = m * ?P + lin D j'" using Cons.prems(3) i j by simp
  have bi: "0 \<le> lin D i'" "lin D i' < ?P" using lin_bounds [OF i'] by auto
  have bj: "0 \<le> lin D j'" "lin D j' < ?P" using lin_bounds [OF j'] by auto
  have "k = (k * ?P + lin D i') div ?P" and "lin D i' = (k * ?P + lin D i') mod ?P"
    using bi by simp_all
  moreover have "m = (m * ?P + lin D j') div ?P" and "lin D j' = (m * ?P + lin D j') mod ?P"
    using bj by simp_all
  ultimately have "k = m" and "lin D i' = lin D j'" using eq by metis+
  with Cons.IH [OF i' j'] i j show ?case by simp
qed simp

lemma upto_blocks:
  "0 \<le> L \<Longrightarrow> concat (map (\<lambda>i. map (\<lambda>k. i * L + k) [0..L - 1]) [0..int n - 1]) = [0..int n * L - 1]"
proof (induction n)
  case (Suc n)
  have split: "[0..int (Suc n) - 1] = [0..int n - 1] @ [int n]"
    by (simp add: upto_rec2)
  have shift: "map (\<lambda>k. int n * L + k) [0..L - 1] = [int n * L..int (Suc n) * L - 1]"
    using Suc.prems by (intro nth_equalityI) (auto simp: algebra_simps)
  have join: "[0..int n * L - 1] @ [int n * L..int (Suc n) * L - 1] = [0..int (Suc n) * L - 1]"
  proof (cases "L = 0")
    case False
    with Suc.prems show ?thesis
      by (intro upto_split1 [symmetric]) (auto simp: algebra_simps)
  qed simp
  show ?case
    using Suc by (simp add: split shift join del: upto.simps of_nat_Suc)
qed simp

lemma map_lin_indices:
  "\<forall>d \<in> set D. 0 \<le> d \<Longrightarrow> map (lin D) (indices D) = [0..prod_list D - 1]"
proof (induction D)
  case (Cons d D)
  let ?L = "prod_list D"
  have L: "0 \<le> ?L" using Cons.prems by (intro prod_list_nonneg) simp
  have IH: "map (lin D) (indices D) = [0..?L - 1]" using Cons by simp
  have "map (lin (d # D)) (indices (d # D)) =
        concat (map (\<lambda>i. map (\<lambda>k. i * ?L + k) (map (lin D) (indices D))) [0..d - 1])"
    by (simp add: map_concat comp_def)
  also have "\<dots> = concat (map (\<lambda>i. map (\<lambda>k. i * ?L + k) [0..?L - 1]) [0..int (nat d) - 1])"
    using Cons.prems by (simp add: IH)
  also have "\<dots> = [0..int (nat d) * ?L - 1]" by (rule upto_blocks [OF L])
  finally show ?case using Cons.prems by simp
qed simp

lemma lin_nth_indices:
  assumes "\<forall>d \<in> set D. 0 \<le> d" and "k < length (indices D)"
  shows "lin D (indices D ! k) = int k"
proof -
  have "lin D (indices D ! k) = map (lin D) (indices D) ! k" using assms(2) by simp
  also have "\<dots> = [0..prod_list D - 1] ! k" by (simp add: map_lin_indices [OF assms(1)])
  also have "\<dots> = int k"
    using assms length_indices [OF assms(1)] by (subst nth_upto) auto
  finally show ?thesis .
qed

lemma nth_indices_lin:
  assumes "in_range D i"
  shows "nat (lin D i) < length (indices D)" and "indices D ! nat (lin D i) = i"
proof -
  have pos: "\<forall>d \<in> set D. 0 \<le> d" using in_range_dims_pos [OF assms] by auto
  show lt: "nat (lin D i) < length (indices D)"
    using lin_bounds [OF assms] length_indices [OF pos] by linarith
  have "in_range D (indices D ! nat (lin D i))"
    using lt by (rule in_range_nth_indices)
  moreover have "lin D (indices D ! nat (lin D i)) = lin D i"
    using lin_nth_indices [OF pos lt] lin_bounds [OF assms] by simp
  ultimately show "indices D ! nat (lin D i) = i"
    using assms lin_inj by blast
qed

lemma in_range2:
  "in_range [a, b] i \<longleftrightarrow> (\<exists>p q. i = [p, q] \<and> 0 \<le> p \<and> p < a \<and> 0 \<le> q \<and> q < b)"
  by (auto elim!: in_range_ConsE)

lemma in_range3:
  "in_range [a, b, c] i \<longleftrightarrow>
   (\<exists>p q r. i = [p, q, r] \<and> 0 \<le> p \<and> p < a \<and> 0 \<le> q \<and> q < b \<and> 0 \<le> r \<and> r < c)"
  by (auto elim!: in_range_ConsE)

lemma in_range4:
  "in_range [a, b, c, d] i \<longleftrightarrow>
   (\<exists>p q r s. i = [p, q, r, s] \<and> 0 \<le> p \<and> p < a \<and> 0 \<le> q \<and> q < b \<and> 0 \<le> r \<and> r < c \<and> 0 \<le> s \<and> s < d)"
  by (auto elim!: in_range_ConsE)

lemma in_range5:
  "in_range [a, b, c, d, e] i \<longleftrightarrow>
   (\<exists>p q r s u. i = [p, q, r, s, u] \<and> 0 \<le> p \<and> p < a \<and> 0 \<le> q \<and> q < b \<and> 0 \<le> r \<and> r < c \<and>
      0 \<le> s \<and> s < d \<and> 0 \<le> u \<and> u < e)"
  by (auto elim!: in_range_ConsE)

lemma in_range6:
  "in_range [a, b, c, d, e, f] i \<longleftrightarrow>
   (\<exists>p q r s u v. i = [p, q, r, s, u, v] \<and> 0 \<le> p \<and> p < a \<and> 0 \<le> q \<and> q < b \<and> 0 \<le> r \<and> r < c \<and>
      0 \<le> s \<and> s < d \<and> 0 \<le> u \<and> u < e \<and> 0 \<le> v \<and> v < f)"
  by (auto elim!: in_range_ConsE)

section \<open>Nested loops enumerate index tuples\<close>

lemma for_indices_Cons:
  "for_list (indices (d # ds)) body = for_upto d (\<lambda>i. for_list (indices ds) (\<lambda>is. body (i # is)))"
  by (simp add: for_upto_def for_list_concat for_list_map comp_def)

lemma for_indices_Nil: "for_list (indices []) body = body []"
  by (rule ext) (simp add: rbind_def split: sum.split)

lemmas for_indices = for_indices_Cons for_indices_Nil

lemma for1: "for_upto a B = for_list (indices [a]) (\<lambda>t. B (t ! 0))"
  unfolding for_indices by simp

lemma for2:
  "for_upto a (\<lambda>i. for_upto b (B i)) = for_list (indices [a, b]) (\<lambda>t. B (t ! 0) (t ! 1))"
  unfolding for_indices by simp

lemma for3:
  "for_upto a (\<lambda>i. for_upto b (\<lambda>j. for_upto c (B i j))) =
   for_list (indices [a, b, c]) (\<lambda>t. B (t ! 0) (t ! 1) (t ! 2))"
  unfolding for_indices by simp

lemma for4:
  "for_upto a (\<lambda>i. for_upto b (\<lambda>j. for_upto c (\<lambda>k. for_upto d (B i j k)))) =
   for_list (indices [a, b, c, d]) (\<lambda>t. B (t ! 0) (t ! 1) (t ! 2) (t ! 3))"
  unfolding for_indices by simp

lemma for5:
  "for_upto a (\<lambda>i. for_upto b (\<lambda>j. for_upto c (\<lambda>k. for_upto d (\<lambda>l. for_upto e (B i j k l))))) =
   for_list (indices [a, b, c, d, e]) (\<lambda>t. B (t ! 0) (t ! 1) (t ! 2) (t ! 3) (t ! 4))"
  unfolding for_indices by simp

lemma for6:
  "for_upto a (\<lambda>i. for_upto b (\<lambda>j. for_upto c (\<lambda>k. for_upto d (\<lambda>l. for_upto e (\<lambda>m.
     for_upto f (B i j k l m)))))) =
   for_list (indices [a, b, c, d, e, f])
     (\<lambda>t. B (t ! 0) (t ! 1) (t ! 2) (t ! 3) (t ! 4) (t ! 5))"
  unfolding for_indices by simp

declare indices.simps [simp del]

lemma in_range_indices: "id ` set (indices D) = {i. in_range D i}"
  by (auto simp: set_indices)

section \<open>Writing every element of a buffer\<close>

lemma length_fold_put:
  assumes "length d = N * sz" and "\<And>t. t \<in> set ts \<Longrightarrow> p t < N \<and> length (v t) = sz"
  shows "length (fold (\<lambda>t d. put d (p t * sz) (v t)) ts d) = N * sz"
  using assms(2)
proof (induction ts rule: rev_induct)
  case (snoc t ts)
  let ?F = "fold (\<lambda>t d. put d (p t * sz) (v t)) ts d"
  have F: "length ?F = N * sz" using snoc by simp
  have "p t < N" and "length (v t) = sz" using snoc.prems by auto
  then show ?case using elem_in_bounds [OF _ F] F by (simp add: length_put)
qed (simp add: assms(1))

lemma elem_fold_put:
  assumes len: "length d = N * sz"
    and pos: "\<And>t. t \<in> set ts \<Longrightarrow> p t < N \<and> length (v t) = sz"
    and agree: "\<And>t t'. t \<in> set ts \<Longrightarrow> t' \<in> set ts \<Longrightarrow> p t = p t' \<Longrightarrow> v t = v t'"
    and u: "u \<in> set ts"
  shows "elem sz (fold (\<lambda>t d. put d (p t * sz) (v t)) ts d) (p u) = v u"
  using pos agree u
proof (induction ts rule: rev_induct)
  case (snoc t ts)
  let ?F = "fold (\<lambda>t d. put d (p t * sz) (v t)) ts d"
  have F: "length ?F = N * sz" using snoc.prems(1) by (intro length_fold_put [OF len]) simp
  have t: "p t < N" "length (v t) = sz" using snoc.prems(1) by simp_all
  have u: "p u < N" using snoc.prems(1,3) by blast
  have "elem sz (put ?F (p t * sz) (v t)) (p u) = v u"
  proof (cases "p t = p u")
    case True
    then have "v t = v u" using snoc.prems(2) [of t u] snoc.prems(3) by simp
    then show ?thesis using elem_put_same [OF t(1) F t(2)] True by simp
  next
    case False
    then have mem: "u \<in> set ts" using snoc.prems(3) by auto
    have "elem sz ?F (p u) = v u"
    proof (rule snoc.IH [OF _ _ mem])
      show "p a < N \<and> length (v a) = sz" if "a \<in> set ts" for a
        by (rule snoc.prems(1)) (simp add: that)
      show "v a = v b" if "a \<in> set ts" "b \<in> set ts" "p a = p b" for a b
        by (rule snoc.prems(2) [OF _ _ that(3)]) (simp_all add: that(1,2))
    qed
    then show ?thesis using elem_put_other [OF t(1) u False F t(2)] by simp
  qed
  then show ?case by simp
next
  case Nil
  from Nil.prems(3) show ?case by simp
qed

text \<open>
  The workhorse: a loop that visits every destination tuple (in any order, possibly more
  than once) and stores at position \<open>lin D (tup t)\<close> a value that depends on the tuple
  only fills the buffer with these values in row-major order.
\<close>

lemma elem_fold_put_other:
  assumes len: "length d = N * sz"
    and pos: "\<And>t. t \<in> set ts \<Longrightarrow> p t < N \<and> length (v t) = sz"
    and away: "\<And>t. t \<in> set ts \<Longrightarrow> p t \<noteq> k" and k: "k < N"
  shows "elem sz (fold (\<lambda>t d. put d (p t * sz) (v t)) ts d) k = elem sz d k"
  using pos away
proof (induction ts rule: rev_induct)
  case (snoc t ts)
  let ?F = "fold (\<lambda>t d. put d (p t * sz) (v t)) ts d"
  have F: "length ?F = N * sz" using snoc.prems(1) by (intro length_fold_put [OF len]) simp
  have t: "p t < N" "length (v t) = sz" "p t \<noteq> k" using snoc.prems by simp_all
  have "elem sz ?F k = elem sz d k" using snoc.prems by (intro snoc.IH) simp_all
  then show ?case using elem_put_other [OF t(1) k t(3) F t(2)] by simp
qed simp

lemma for_scatter_over:
  assumes dims: "\<forall>d \<in> set D. 0 \<le> d"
    and rng: "\<And>t. t \<in> set ts \<Longrightarrow> in_range D (tup t)"
    and len: "length buf = nat (prod_list D) * sz"
    and rest: "\<And>i. in_range D i \<Longrightarrow> i \<notin> tup ` set ts \<Longrightarrow> elem sz buf (nat (lin D i)) = f i"
    and val: "\<And>i. in_range D i \<Longrightarrow> length (f i) = sz"
    and body: "\<And>t d. t \<in> set ts \<Longrightarrow> length d = nat (prod_list D) * sz \<Longrightarrow>
      body t d = Inr (put d (nat (lin D (tup t)) * sz) (f (tup t)))"
  shows "for_list ts body buf = Inr (concat (map f (indices D)))"
proof -
  let ?N = "nat (prod_list D)" and ?p = "\<lambda>t. nat (lin D (tup t))"
  let ?step = "\<lambda>t d. put d (?p t * sz) (f (tup t))"
  have N: "length (indices D) = ?N" using length_indices [OF dims] by simp
  have pN: "?p t < ?N \<and> length (f (tup t)) = sz" if "t \<in> set ts" for t
    using nth_indices_lin(1) [OF rng [OF that]] val [OF rng [OF that]] N by simp
  have run: "for_list ts body buf = Inr (fold ?step ts buf) \<and> length (fold ?step ts buf) = ?N * sz"
  proof (rule for_list_fold)
    fix t d assume t: "t \<in> set ts" and d: "length (d :: byte list) = ?N * sz"
    have "?p t * sz + length (f (tup t)) \<le> length d"
      using elem_in_bounds [OF _ d, of "?p t"] pN [OF t] by simp
    then show "body t d = Inr (?step t d) \<and> length (?step t d) = ?N * sz"
      using body [OF t d] d by (simp add: length_put)
  qed (rule len)
  have inj: "f (tup t) = f (tup t')" if "t \<in> set ts" "t' \<in> set ts" "?p t = ?p t'" for t t'
    using that lin_inj [OF rng [OF that(1)] rng [OF that(2)]]
      lin_bounds [OF rng [OF that(1)]] lin_bounds [OF rng [OF that(2)]] by fastforce
  have "fold ?step ts buf = concat (map f (indices D))"
  proof (rule buf_eqI [where N = ?N and sz = sz])
    show "length (concat (map f (indices D))) = ?N * sz"
      using N val by (subst length_concat_map [where sz = sz]) (auto simp: set_indices)
    fix k assume k: "k < ?N"
    let ?i = "indices D ! k"
    have i: "in_range D ?i" using k N by (simp add: in_range_nth_indices)
    have lk: "nat (lin D ?i) = k" using lin_nth_indices [OF dims] k N by simp
    have "elem sz (fold ?step ts buf) k = f ?i"
    proof (cases "?i \<in> tup ` set ts")
      case True
      then obtain t where t: "t \<in> set ts" "tup t = ?i" by (metis imageE)
      have "elem sz (fold ?step ts buf) (?p t) = f (tup t)"
        by (rule elem_fold_put [OF len pN inj t(1)])
      then show ?thesis using lk t(2) by simp
    next
      case False
      have "k \<noteq> ?p t" if "t \<in> set ts" for t
        using False that lk lin_inj [OF rng [OF that] i]
          lin_bounds [OF rng [OF that]] lin_bounds [OF i] by fastforce
      then have "elem sz (fold ?step ts buf) k = elem sz buf k"
        by (intro elem_fold_put_other [OF len pN _ k]) auto
      also have "\<dots> = f ?i" using rest [OF i False] lk by simp
      finally show ?thesis .
    qed
    also have "f ?i = elem sz (concat (map f (indices D))) k"
      using k N by (intro elem_concat_map [symmetric] val) (simp_all add: set_indices)
    finally show "elem sz (fold ?step ts buf) k = elem sz (concat (map f (indices D))) k" .
  qed (simp add: run)
  with run show ?thesis by simp
qed

lemma for_scatter:
  assumes dims: "\<forall>d \<in> set D. 0 \<le> d"
    and cover: "tup ` set ts = {i. in_range D i}"
    and len: "length buf = nat (prod_list D) * sz"
    and val: "\<And>i. in_range D i \<Longrightarrow> length (f i) = sz"
    and body: "\<And>t d. t \<in> set ts \<Longrightarrow> length d = nat (prod_list D) * sz \<Longrightarrow>
      body t d = Inr (put d (nat (lin D (tup t)) * sz) (f (tup t)))"
  shows "for_list ts body buf = Inr (concat (map f (indices D)))"
proof (rule for_scatter_over [where tup = tup and f = f, OF dims _ len _ val body])
  show "in_range D (tup t)" if "t \<in> set ts" for t using cover that by auto
  show "elem sz buf (nat (lin D i)) = f i" if "in_range D i" "i \<notin> tup ` set ts" for i
    using cover that by blast
qed

section \<open>Reference semantics of a transfer\<close>

definition picked :: "nat \<Rightarrow> int list \<Rightarrow> (int list \<Rightarrow> int list option) \<Rightarrow> byte list \<Rightarrow> int list \<Rightarrow> byte list" where
  "picked sz S pick bs i =
     (case pick i of None \<Rightarrow> replicate sz 0 | Some j \<Rightarrow> elem sz bs (nat (lin S j)))"

definition relayout :: "nat \<Rightarrow> int list \<Rightarrow> int list \<Rightarrow> (int list \<Rightarrow> int list option) \<Rightarrow> byte list \<Rightarrow> byte list" where
  "relayout sz D S pick bs = concat (map (picked sz S pick bs) (indices D))"

definition tensor_at :: "nat \<Rightarrow> int list \<Rightarrow> byte list \<Rightarrow> int list \<Rightarrow> byte list" where
  "tensor_at sz D buf i = elem sz buf (nat (lin D i))"

lemma tensor_eqI:
  assumes dims: "\<forall>d \<in> set D. 0 \<le> d"
    and "length a = nat (prod_list D) * sz" and "length b = nat (prod_list D) * sz"
    and eq: "\<And>i. in_range D i \<Longrightarrow> tensor_at sz D a i = tensor_at sz D b i"
  shows "a = b"
proof (rule buf_eqI [OF assms(2,3)])
  fix k assume "k < nat (prod_list D)"
  then have k: "k < length (indices D)" using length_indices [OF dims] by linarith
  then have "in_range D (indices D ! k)" by (rule in_range_nth_indices)
  from eq [OF this] show "elem sz a k = elem sz b k"
    by (simp add: tensor_at_def lin_nth_indices [OF dims k])
qed

locale layout_map =
  fixes D S :: "int list" and pick :: "int list \<Rightarrow> int list option"
  assumes pick_range: "in_range D i \<Longrightarrow> pick i = Some j \<Longrightarrow> in_range S j"
begin

lemma length_picked:
  "in_range D i \<Longrightarrow> length bs = nat (prod_list S) * sz \<Longrightarrow> length (picked sz S pick bs i) = sz"
proof (cases "pick i")
  case (Some j)
  assume i: "in_range D i" and bs: "length bs = nat (prod_list S) * sz"
  have j: "in_range S j" by (rule pick_range [OF i Some])
  have "nat (lin S j) < nat (prod_list S)" using lin_bounds [OF j] by linarith
  from length_elem [OF this bs] Some show ?thesis by (simp add: picked_def)
qed (simp add: picked_def)

lemma length_relayout:
  assumes "\<forall>d \<in> set D. 0 \<le> d" and "length bs = nat (prod_list S) * sz"
  shows "length (relayout sz D S pick bs) = nat (prod_list D) * sz"
proof -
  have "length (relayout sz D S pick bs) = length (indices D) * sz"
    unfolding relayout_def
    by (rule length_concat_map) (use assms in \<open>auto simp: set_indices length_picked\<close>)
  then show ?thesis using length_indices [OF assms(1)] by (metis nat_int)
qed

lemma relayout_at:
  assumes i: "in_range D i" and bs: "length bs = nat (prod_list S) * sz"
  shows "tensor_at sz D (relayout sz D S pick bs) i = picked sz S pick bs i"
  unfolding tensor_at_def relayout_def
  by (subst elem_concat_map)
     (use nth_indices_lin [OF i] bs in \<open>auto simp: set_indices length_picked\<close>)

end

text \<open>
  A transfer back undoes a transfer forth when it is defined on the whole source and
  follows the forward map: the padding of the forward transfer is never read.
\<close>

locale layout_inverse =
  fwd: layout_map D S p + bwd: layout_map S D q
  for D S :: "int list" and p q :: "int list \<Rightarrow> int list option" +
  assumes undo: "in_range S j \<Longrightarrow> \<exists>i. q j = Some i \<and> p i = Some j"
begin

lemma roundtrip:
  assumes D: "\<forall>d \<in> set D. 0 \<le> d" and S: "\<forall>d \<in> set S. 0 \<le> d"
    and bs: "length bs = nat (prod_list S) * sz"
  shows "relayout sz S D q (relayout sz D S p bs) = bs"
proof (rule tensor_eqI [OF S])
  let ?f = "relayout sz D S p bs"
  have lf: "length ?f = nat (prod_list D) * sz" by (rule fwd.length_relayout [OF D bs])
  show "length (relayout sz S D q ?f) = nat (prod_list S) * sz"
    by (rule bwd.length_relayout [OF S lf])
  fix j assume j: "in_range S j"
  then obtain i where i: "q j = Some i" "p i = Some j" using undo by blast
  have ri: "in_range D i" by (rule bwd.pick_range [OF j i(1)])
  have "tensor_at sz S (relayout sz S D q ?f) j = picked sz D q ?f j"
    by (rule bwd.relayout_at [OF j lf])
  also have "\<dots> = tensor_at sz D ?f i" by (simp add: picked_def i(1) tensor_at_def)
  also have "\<dots> = picked sz S p bs i" by (rule fwd.relayout_at [OF ri bs])
  also have "\<dots> = tensor_at sz S bs j" by (simp add: picked_def i(2) tensor_at_def)
  finally show "tensor_at sz S (relayout sz S D q ?f) j = tensor_at sz S bs j" .
qed (rule bs)

end

end
