(* ===== verification/FormatsUtils.thy ===== *)
theory FormatsUtils
  imports Layout
begin

text \<open>
  The common part of the format library: the enumerations of
  \<^verbatim>\<open>inc/framework/executor_c/types.h\<close> and
  \<^verbatim>\<open>base/formats/utils/formats_definitions.h\<close>, the structures of
  \<^verbatim>\<open>base/formats/register_format_transfer.h\<close>, the helpers of
  \<^verbatim>\<open>base/formats/utils/formats_trans_utils.{h,cc}\<close>, and the environment of
  the library.

  The environment is the code the library calls but the repository does not contain: the
  inline helpers of the toolchain header \<^verbatim>\<open>graph/types.h\<close>
  (\<^verbatim>\<open>GetSizeByDataType\<close>, \<^verbatim>\<open>GetPrimaryFormat\<close>, \<^verbatim>\<open>GetSubFormat\<close>,
  \<^verbatim>\<open>GetC0Value\<close>), \<^verbatim>\<open>PtrAdd\<close>, the bounds-checking C library
  \<^verbatim>\<open>securec\<close> and the allocator behind \<^verbatim>\<open>new (std::nothrow)\<close>.
  It is a record that every definition takes; \<open>securec_ok\<close> states its documented behaviour.
\<close>

section \<open>Enumerations\<close>

datatype DataType =
    DT_FLOAT | DT_FLOAT16 | DT_INT8 | DT_INT32 | DT_UINT8 | DT_INT16 | DT_UINT16 | DT_UINT32
  | DT_INT64 | DT_UINT64 | DT_DOUBLE | DT_BOOL | DT_STRING | DT_DUAL_SUB_INT8 | DT_DUAL_SUB_UINT8
  | DT_COMPLEX64 | DT_COMPLEX128 | DT_QINT8 | DT_QINT16 | DT_QINT32 | DT_QUINT8 | DT_QUINT16
  | DT_RESOURCE | DT_STRING_REF | DT_DUAL | DT_VARIANT | DT_BF16 | DT_UNDEFINED | DT_INT4
  | DT_UINT1 | DT_INT2 | DT_UINT2 | DT_MAX

text \<open>
  A \<^verbatim>\<open>Format\<close> is a 32-bit code whose low byte is the primary format; the enumerators are
  the primary formats.
\<close>

type_synonym Format = int

definition FORMAT_NCHW :: Format where "FORMAT_NCHW = 0"
definition FORMAT_NHWC :: Format where "FORMAT_NHWC = 1"
definition FORMAT_ND :: Format where "FORMAT_ND = 2"
definition FORMAT_NC1HWC0 :: Format where "FORMAT_NC1HWC0 = 3"
definition FORMAT_FRACTAL_Z :: Format where "FORMAT_FRACTAL_Z = 4"
definition FORMAT_FRACTAL_Z_C04 :: Format where "FORMAT_FRACTAL_Z_C04 = 13"
definition FORMAT_CHWN :: Format where "FORMAT_CHWN = 14"
definition FORMAT_HWCN :: Format where "FORMAT_HWCN = 16"
definition FORMAT_C1HWNCoC0 :: Format where "FORMAT_C1HWNCoC0 = 25"
definition FORMAT_FRACTAL_ZZ :: Format where "FORMAT_FRACTAL_ZZ = 28"
definition FORMAT_FRACTAL_NZ :: Format where "FORMAT_FRACTAL_NZ = 29"
definition FORMAT_DHWCN :: Format where "FORMAT_DHWCN = 31"
definition FORMAT_FRACTAL_Z_3D :: Format where "FORMAT_FRACTAL_Z_3D = 33"
definition FORMAT_DHWNC :: Format where "FORMAT_DHWNC = 36"
definition FORMAT_FRACTAL_Z_3D_TRANSPOSE :: Format where "FORMAT_FRACTAL_Z_3D_TRANSPOSE = 37"

lemmas format_defs =
  FORMAT_NCHW_def FORMAT_NHWC_def FORMAT_ND_def FORMAT_NC1HWC0_def FORMAT_FRACTAL_Z_def
  FORMAT_FRACTAL_Z_C04_def FORMAT_CHWN_def FORMAT_HWCN_def FORMAT_C1HWNCoC0_def
  FORMAT_FRACTAL_ZZ_def FORMAT_FRACTAL_NZ_def FORMAT_DHWCN_def FORMAT_FRACTAL_Z_3D_def
  FORMAT_DHWNC_def FORMAT_FRACTAL_Z_3D_TRANSPOSE_def

definition kCubeSize :: int where "kCubeSize = 16"
definition kNiSize :: int where "kNiSize = 16"
definition kShapeItemNumMAX :: int where "kShapeItemNumMAX = 1099511627776"

abbreviation (input) "kNchwN \<equiv> 0 :: nat"
abbreviation (input) "kNchwC \<equiv> 1 :: nat"
abbreviation (input) "kNchwH \<equiv> 2 :: nat"
abbreviation (input) "kNchwW \<equiv> 3 :: nat"
abbreviation (input) "kNchwDimsNum \<equiv> 4 :: int"

abbreviation (input) "kNhwcN \<equiv> 0 :: nat"
abbreviation (input) "kNhwcH \<equiv> 1 :: nat"
abbreviation (input) "kNhwcW \<equiv> 2 :: nat"
abbreviation (input) "kNhwcC \<equiv> 3 :: nat"
abbreviation (input) "kNhwcDimsNum \<equiv> 4 :: int"

abbreviation (input) "kHwcnH \<equiv> 0 :: nat"
abbreviation (input) "kHwcnW \<equiv> 1 :: nat"
abbreviation (input) "kHwcnC \<equiv> 2 :: nat"
abbreviation (input) "kHwcnN \<equiv> 3 :: nat"
abbreviation (input) "kHwcnDimsNum \<equiv> 4 :: int"

abbreviation (input) "kChwnC \<equiv> 0 :: nat"
abbreviation (input) "kChwnH \<equiv> 1 :: nat"
abbreviation (input) "kChwnW \<equiv> 2 :: nat"
abbreviation (input) "kChwnN \<equiv> 3 :: nat"

abbreviation (input) "kNc1hwc0N \<equiv> 0 :: nat"
abbreviation (input) "kNc1hwc0C1 \<equiv> 1 :: nat"
abbreviation (input) "kNc1hwc0H \<equiv> 2 :: nat"
abbreviation (input) "kNc1hwc0W \<equiv> 3 :: nat"
abbreviation (input) "kNc1hwc0C0 \<equiv> 4 :: nat"
abbreviation (input) "kNc1hwc0DimsNum \<equiv> 5 :: int"

abbreviation (input) "kC1hwncoc0C1 \<equiv> 0 :: nat"
abbreviation (input) "kC1hwncoc0H \<equiv> 1 :: nat"
abbreviation (input) "kC1hwncoc0W \<equiv> 2 :: nat"
abbreviation (input) "kC1hwncoc0N \<equiv> 3 :: nat"
abbreviation (input) "kC1hwncoc0Co \<equiv> 4 :: nat"
abbreviation (input) "kC1hwncoc0C0 \<equiv> 5 :: nat"
abbreviation (input) "kC1hwncoc0DimsNum \<equiv> 6 :: int"

abbreviation (input) "kFracZHWC1 \<equiv> 0 :: nat"
abbreviation (input) "kFracZN0 \<equiv> 1 :: nat"
abbreviation (input) "kFracZNi \<equiv> 2 :: nat"
abbreviation (input) "kFracZC0 \<equiv> 3 :: nat"
abbreviation (input) "kFracZDimsNum \<equiv> 4 :: int"

section \<open>Environment, arguments and results\<close>

record ge_env =
  GetSizeByDataType :: "DataType \<Rightarrow> int"
  GetPrimaryFormat :: "Format \<Rightarrow> Format"
  GetSubFormat :: "Format \<Rightarrow> int"
  GetC0Value :: "Format \<Rightarrow> int"
  PtrAdd :: "int \<Rightarrow> int \<Rightarrow> int option"
    \<comment> \<open>length of the buffer and index; the offset, or None for nullptr\<close>
  SECUREC_MEM_MAX_LEN :: int
  new_uint8 :: "int \<Rightarrow> byte list option"
    \<comment> \<open>an uninitialised array of that many bytes, or None for nullptr\<close>
  memcpy_s :: "byte list \<Rightarrow> int option \<Rightarrow> int \<Rightarrow> byte list option \<Rightarrow> int \<Rightarrow> int \<Rightarrow> int \<times> byte list"
    \<comment> \<open>destination block and offset, destMax, source block and offset, count; errno and block\<close>
  memset_s :: "byte list \<Rightarrow> int option \<Rightarrow> int \<Rightarrow> byte \<Rightarrow> int \<Rightarrow> int \<times> byte list"

definition EOK :: int where "EOK = 0"

record TransArgs =
  arg_data :: "byte list option"
  arg_src_format :: Format
  arg_dst_format :: Format
  arg_src_primary_format :: Format
  arg_dst_primary_format :: Format
  arg_src_sub_format :: Format
  arg_dst_sub_format :: Format
  arg_src_c0_format :: int
  arg_dst_c0_format :: int
  arg_src_shape :: "int list"
  arg_dst_shape :: "int list"
  arg_src_data_type :: DataType

record TransResult =
  res_data :: "byte list option"
  res_length :: int

text \<open>Documented behaviour of \<^verbatim>\<open>securec\<close> and \<^verbatim>\<open>PtrAdd\<close>.\<close>

definition securec_ok :: "ge_env \<Rightarrow> bool" where
  "securec_ok E \<longleftrightarrow>
     SECUREC_MEM_MAX_LEN E = 2147483647 \<and>
     (\<forall>m i. 0 \<le> i \<and> i < m \<longrightarrow> PtrAdd E m i = Some i) \<and>
     (\<forall>dst off dmax bs soff cnt.
        0 \<le> off \<and> 0 < dmax \<and> dmax \<le> SECUREC_MEM_MAX_LEN E \<and> off + dmax \<le> int (length dst) \<and>
        0 \<le> cnt \<and> cnt \<le> dmax \<and> 0 \<le> soff \<and> soff + cnt \<le> int (length bs) \<longrightarrow>
        memcpy_s E dst (Some off) dmax (Some bs) soff cnt =
          (EOK, put dst (nat off) (get bs (nat soff) (nat cnt)))) \<and>
     (\<forall>dst off dmax v cnt.
        0 \<le> off \<and> 0 < dmax \<and> dmax \<le> SECUREC_MEM_MAX_LEN E \<and> off + dmax \<le> int (length dst) \<and>
        0 \<le> cnt \<and> cnt \<le> dmax \<longrightarrow>
        memset_s E dst (Some off) dmax v cnt = (EOK, put dst (nat off) (replicate (nat cnt) v))) \<and>
     (\<forall>dst p dmax d soff cnt.
        dmax \<le> 0 \<or> SECUREC_MEM_MAX_LEN E < dmax \<or> dmax < cnt \<longrightarrow>
        fst (memcpy_s E dst p dmax d soff cnt) \<noteq> EOK) \<and>
     (\<forall>dst p dmax v cnt.
        dmax \<le> 0 \<or> SECUREC_MEM_MAX_LEN E < dmax \<or> dmax < cnt \<longrightarrow>
        fst (memset_s E dst p dmax v cnt) \<noteq> EOK)"

definition alloc_ok :: "ge_env \<Rightarrow> int \<Rightarrow> bool" where
  "alloc_ok E n \<longleftrightarrow> (\<exists>buf. new_uint8 E n = Some buf \<and> int (length buf) = n)"

text \<open>
  The size of an element, as far as the library relies on it: every type is smaller than
  4 MiB, so that \<^verbatim>\<open>kShapeItemNumMAX\<close> elements stay below \<open>2 ^ 63\<close> bytes.
\<close>

definition size_ok :: "ge_env \<Rightarrow> DataType \<Rightarrow> bool" where
  "size_ok E dt \<longleftrightarrow> 0 < GetSizeByDataType E dt \<and> GetSizeByDataType E dt \<le> 2 ^ 22"

section \<open>Helpers of formats\_trans\_utils\<close>

definition GetCubeSizeByDataType :: "ge_env \<Rightarrow> DataType \<Rightarrow> int" where
  "GetCubeSizeByDataType E data_type =
     (let size = GetSizeByDataType E data_type in
      if size \<le> 0 then - 1 else if size = 1 then kCubeSize * 2 else kCubeSize)"

definition GetItemNumByShape :: "int list \<Rightarrow> int" where
  "GetItemNumByShape shape = foldl mul64 1 shape"

fun IsShapeValid_loop :: "int list \<Rightarrow> int \<Rightarrow> bool" where
  "IsShapeValid_loop [] num = True"
| "IsShapeValid_loop (dim # shape) num =
     (if dim < 0 then False
      else if dim \<noteq> 0 \<and> kShapeItemNumMAX sdiv dim < num then False
      else IsShapeValid_loop shape (mul64 num dim))"

definition IsShapeValid :: "int list \<Rightarrow> bool" where
  "IsShapeValid shape = (if shape = [] then False else IsShapeValid_loop shape 1)"

definition CheckShapeValid :: "int list \<Rightarrow> int \<Rightarrow> bool" where
  "CheckShapeValid shape expect_dims =
     (if expect_dims \<le> 0 \<or> int (length shape) \<noteq> expect_dims then False else IsShapeValid shape)"

definition IsShapeEqual :: "int list \<Rightarrow> int list \<Rightarrow> bool" where
  "IsShapeEqual src dst =
     (if length src \<noteq> length dst then False
      else list_all (\<lambda>i. src ! i = dst ! i) [0..<length src])"

definition IsTransShapeSrcCorrect :: "TransArgs \<Rightarrow> int list \<Rightarrow> bool" where
  "IsTransShapeSrcCorrect args expect_shape = (\<not> arg_src_shape args \<noteq> expect_shape)"

definition IsTransShapeDstCorrect :: "TransArgs \<Rightarrow> int list \<Rightarrow> bool" where
  "IsTransShapeDstCorrect args expect_shape =
     (\<not> (arg_dst_shape args \<noteq> [] \<and> arg_dst_shape args \<noteq> expect_shape))"

definition Ceil :: "int \<Rightarrow> int \<Rightarrow> int" where
  "Ceil n1 n2 = (if n1 = 0 then 0 else if n2 \<noteq> 0 then (n1 - 1) sdiv n2 + 1 else 0)"

text \<open>The loop of \<open>Measure\<close>, Euclid's algorithm on truncating remainders.\<close>

function Measure_loop :: "int \<Rightarrow> int \<Rightarrow> int \<Rightarrow> int" where
  "Measure_loop x y z =
     (if y \<noteq> 0 \<and> x smod y \<noteq> 0 then Measure_loop y (x smod y) (x smod y) else z)"
  by pat_completeness auto
termination
proof (relation "measure (\<lambda>(x, y, z). nat \<bar>y\<bar>)")
  fix x y z :: int
  assume "y \<noteq> 0 \<and> x smod y \<noteq> 0"
  moreover from this have "\<bar>x smod y\<bar> < \<bar>y\<bar>"
    by (simp add: signed_modulo_int_def abs_mult)
  ultimately show "((y, x smod y, x smod y), x, y, z) \<in> measure (\<lambda>(x, y, z). nat \<bar>y\<bar>)"
    by simp
qed simp

declare Measure_loop.simps [simp del]

definition Measure :: "int \<Rightarrow> int \<Rightarrow> int" where
  "Measure x y = (if y = 0 then - 1 else Measure_loop x y y)"

definition Lcm_ge :: "int \<Rightarrow> int \<Rightarrow> int" where
  "Lcm_ge a b = (if b = 0 then - 1 else mul64 a b sdiv Measure a b)"

section \<open>Shapes that pass the check\<close>

lemma shape_loop_bound:
  assumes "IsShapeValid_loop shape num" and "0 \<le> num" and "num \<le> kShapeItemNumMAX"
  shows "(\<forall>d \<in> set shape. 0 \<le> d) \<and> foldl mul64 num shape = num * prod_list shape \<and>
         num * prod_list shape \<le> kShapeItemNumMAX"
  using assms
proof (induction shape arbitrary: num)
  case (Cons dim shape)
  from Cons.prems(1) have dim: "0 \<le> dim" and rest: "IsShapeValid_loop shape (mul64 num dim)"
    and ov: "dim \<noteq> 0 \<Longrightarrow> num \<le> kShapeItemNumMAX sdiv dim"
    by (auto split: if_splits)
  have le: "num * dim \<le> kShapeItemNumMAX"
  proof (cases "dim = 0")
    case False
    with dim have "kShapeItemNumMAX sdiv dim = kShapeItemNumMAX div dim"
      by (intro sdiv_nonneg) (auto simp: kShapeItemNumMAX_def)
    with ov [OF False] have "num * dim \<le> kShapeItemNumMAX div dim * dim"
      using dim by (simp add: mult_right_mono)
    also have "\<dots> \<le> kShapeItemNumMAX"
      using dim False by (intro int_div_mult_le) simp
    finally show ?thesis .
  qed (simp add: kShapeItemNumMAX_def)
  have "is_int64 (num * dim)"
    using Cons.prems(2) dim le by (intro is_int64_bound) (auto simp: kShapeItemNumMAX_def)
  then have mul: "mul64 num dim = num * dim" by (rule mul64_id)
  have "(\<forall>d \<in> set shape. 0 \<le> d) \<and> foldl mul64 (num * dim) shape = num * dim * prod_list shape \<and>
        num * dim * prod_list shape \<le> kShapeItemNumMAX"
    using Cons.IH [of "num * dim"] rest le Cons.prems(2) dim by (simp add: mul)
  then show ?case using dim by (simp add: mul mult.assoc)
qed simp

lemma shape_valid:
  assumes "IsShapeValid shape"
  shows shape_valid_nonneg: "\<forall>d \<in> set shape. 0 \<le> d"
    and shape_valid_num: "GetItemNumByShape shape = prod_list shape"
    and shape_valid_bounds: "0 \<le> prod_list shape" "prod_list shape \<le> kShapeItemNumMAX"
    and shape_valid_nonempty: "shape \<noteq> []"
proof -
  from assms have "IsShapeValid_loop shape 1" and ne: "shape \<noteq> []"
    by (auto simp: IsShapeValid_def split: if_splits)
  from shape_loop_bound [OF this(1)]
  have "(\<forall>d \<in> set shape. 0 \<le> d) \<and> foldl mul64 1 shape = prod_list shape \<and>
        prod_list shape \<le> kShapeItemNumMAX"
    by (simp add: kShapeItemNumMAX_def)
  then show "\<forall>d \<in> set shape. 0 \<le> d" and "GetItemNumByShape shape = prod_list shape"
    and "prod_list shape \<le> kShapeItemNumMAX" and "shape \<noteq> []" and "0 \<le> prod_list shape"
    using ne by (auto simp: GetItemNumByShape_def prod_list_nonneg)
qed

text \<open>The converse: a shape of non-negative dimensions none of whose prefixes exceeds the bound.\<close>

lemma shape_loop_complete:
  assumes "\<forall>d \<in> set shape. 0 \<le> d" and "0 \<le> num"
    and "\<And>k. k \<le> length shape \<Longrightarrow> num * prod_list (take k shape) \<le> kShapeItemNumMAX"
  shows "IsShapeValid_loop shape num"
  using assms
proof (induction shape arbitrary: num)
  case (Cons dim shape)
  have dim: "0 \<le> dim" and num: "num * dim \<le> kShapeItemNumMAX"
    using Cons.prems(1) Cons.prems(3) [of 1] by auto
  have ov: "num \<le> kShapeItemNumMAX sdiv dim" if "dim \<noteq> 0"
  proof -
    have "num = (num * dim) div dim" using that by simp
    also have "\<dots> \<le> kShapeItemNumMAX div dim" using num dim by (intro zdiv_mono1) (use that in auto)
    finally show ?thesis using that dim by (simp add: sdiv_nonneg kShapeItemNumMAX_def)
  qed
  have "is_int64 (num * dim)"
    using Cons.prems(2) dim num by (intro is_int64_bound) (auto simp: kShapeItemNumMAX_def)
  then have mul: "mul64 num dim = num * dim" by (rule mul64_id)
  have "IsShapeValid_loop shape (num * dim)"
  proof (rule Cons.IH)
    fix k assume "k \<le> length shape"
    then show "num * dim * prod_list (take k shape) \<le> kShapeItemNumMAX"
      using Cons.prems(3) [of "Suc k"] by (simp add: mult.assoc)
  qed (use Cons.prems dim in auto)
  with dim ov show ?case by (auto simp: mul)
qed simp

lemma shape_valid_iff:
  "IsShapeValid shape \<longleftrightarrow>
     shape \<noteq> [] \<and> (\<forall>d \<in> set shape. 0 \<le> d) \<and>
     (\<forall>k \<le> length shape. prod_list (take k shape) \<le> kShapeItemNumMAX)"
proof
  assume v: "IsShapeValid shape"
  have prefix: "IsShapeValid_loop xs num" if "IsShapeValid_loop (xs @ ys) num" for xs ys num
    using that by (induction xs arbitrary: num) (auto split: if_splits)
  have "prod_list (take k shape) \<le> kShapeItemNumMAX" for k
    using shape_loop_bound [OF prefix [of "take k shape" "drop k shape" 1]] v
    by (auto simp: IsShapeValid_def kShapeItemNumMAX_def split: if_splits)
  with v show "shape \<noteq> [] \<and> (\<forall>d \<in> set shape. 0 \<le> d) \<and>
     (\<forall>k \<le> length shape. prod_list (take k shape) \<le> kShapeItemNumMAX)"
    by (auto dest: shape_valid_nonneg shape_valid_nonempty)
next
  assume "shape \<noteq> [] \<and> (\<forall>d \<in> set shape. 0 \<le> d) \<and>
     (\<forall>k \<le> length shape. prod_list (take k shape) \<le> kShapeItemNumMAX)"
  then show "IsShapeValid shape"
    using shape_loop_complete [of shape 1] by (auto simp: IsShapeValid_def)
qed

lemma check_shape_valid:
  "CheckShapeValid shape n \<longleftrightarrow> 0 < n \<and> int (length shape) = n \<and> IsShapeValid shape"
  by (auto simp: CheckShapeValid_def)

lemma total_size_int64:
  assumes "IsShapeValid shape" and "size_ok E dt"
  shows "is_int64 (prod_list shape * GetSizeByDataType E dt)"
proof -
  have "prod_list shape * GetSizeByDataType E dt \<le> kShapeItemNumMAX * 2 ^ 22"
    using shape_valid_bounds [OF assms(1)] assms(2) by (intro mult_mono) (auto simp: size_ok_def)
  then show ?thesis
    using shape_valid_bounds [OF assms(1)] assms(2)
    by (intro is_int64_bound) (auto simp: size_ok_def kShapeItemNumMAX_def)
qed

lemma total_size_valid:
  assumes "IsShapeValid shape" and "size_ok E dt"
  shows "mul64 (GetItemNumByShape shape) (GetSizeByDataType E dt) =
         prod_list shape * GetSizeByDataType E dt"
  using total_size_int64 [OF assms] by (simp add: shape_valid_num [OF assms(1)] mul64_id)

section \<open>Rounding up, greatest common divisor, least common multiple\<close>

lemma Ceil_pos: "0 < n \<Longrightarrow> 0 < m \<Longrightarrow> Ceil n m = (n - 1) div m + 1"
  by (simp add: Ceil_def sdiv_nonneg)

lemma Ceil_gt_0: "0 < n \<Longrightarrow> 0 < m \<Longrightarrow> 0 < Ceil n m"
  by (simp add: Ceil_pos pos_imp_zdiv_nonneg_iff add_nonneg_pos)

lemma Ceil_nonneg: "0 \<le> n \<Longrightarrow> 0 < m \<Longrightarrow> 0 \<le> Ceil n m"
  by (cases "n = 0") (simp_all add: Ceil_def sdiv_nonneg pos_imp_zdiv_nonneg_iff)

lemma Ceil_eq_div: "0 \<le> n \<Longrightarrow> 0 < m \<Longrightarrow> Ceil n m = (n + m - 1) div m"
proof (cases "n = 0")
  case False
  assume "0 \<le> n" "0 < m"
  with False have "Ceil n m = (n - 1) div m + 1" by (simp add: Ceil_pos)
  also have "\<dots> = (n - 1 + m) div m" using \<open>0 < m\<close> by (metis div_add_self2 less_irrefl)
  finally show ?thesis by (simp add: algebra_simps)
qed (simp add: Ceil_def)

lemma Ceil_covers:
  assumes "0 \<le> k" and "k < n" and "0 < m"
  shows "k div m < Ceil n m"
proof -
  have "k div m \<le> (n - 1) div m" using assms by (intro zdiv_mono1) auto
  then show ?thesis using assms by (simp add: Ceil_pos)
qed

lemma Ceil_tight: "0 \<le> n \<Longrightarrow> 0 < m \<Longrightarrow> n \<le> Ceil n m * m \<and> Ceil n m * m < n + m"
proof (cases "n = 0")
  case False
  assume "0 \<le> n" "0 < m"
  with False have c: "Ceil n m = (n - 1) div m + 1" by (simp add: Ceil_pos)
  have "(n - 1) div m * m + (n - 1) mod m = n - 1" by simp
  moreover have "0 \<le> (n - 1) mod m" "(n - 1) mod m < m" using \<open>0 < m\<close> by simp_all
  ultimately show ?thesis unfolding c distrib_right by linarith
qed (simp add: Ceil_def)

lemma Measure_loop_gcd: "0 \<le> x \<Longrightarrow> 0 < y \<Longrightarrow> z = y \<Longrightarrow> Measure_loop x y z = gcd x y"
proof (induction x y z rule: Measure_loop.induct)
  case (1 x y z)
  have m: "x smod y = x mod y" using "1.prems" by (simp add: smod_nonneg)
  have g: "gcd y (x mod y) = gcd x y" by (metis gcd.commute gcd_red_int)
  show ?case
  proof (cases "x mod y = 0")
    case True
    then have "gcd x y = y" using "1.prems" g by simp
    with True m "1.prems" show ?thesis by (subst Measure_loop.simps) simp
  next
    case False
    have "0 < x mod y" using False "1.prems"
      by (metis pos_mod_sign order_le_less)
    then have "Measure_loop y (x smod y) (x smod y) = gcd y (x mod y)"
      using "1.IH" "1.prems" m by simp
    with False m g "1.prems" show ?thesis by (subst Measure_loop.simps) simp
  qed
qed

lemma Measure_gcd: "0 \<le> x \<Longrightarrow> 0 < y \<Longrightarrow> Measure x y = gcd x y"
  by (simp add: Measure_def Measure_loop_gcd)

lemma Lcm_ge_lcm:
  assumes "0 < a" and "0 < b" and "a * b < 2 ^ 63"
  shows "Lcm_ge a b = lcm a b"
proof -
  have "mul64 a b = a * b" using assms by (intro mul64_id is_int64_bound) auto
  then have "Lcm_ge a b = (a * b) sdiv gcd a b" using assms by (simp add: Lcm_ge_def Measure_gcd)
  also have "\<dots> = (a * b) div gcd a b" using assms by (intro sdiv_nonneg) auto
  also have "\<dots> = lcm a b" using assms by (simp add: lcm_int_def lcm_nat_def nat_mult_distrib
      div_int_pos_iff zdiv_int gcd_int_def)
  finally show ?thesis .
qed

end
