(* ===== verification/TransferBase.thy ===== *)
theory TransferBase
  imports FormatsUtils
begin

text \<open>
  What all format transfers share: the capped size of the destination slot, the guarded
  \<^verbatim>\<open>memcpy_s\<close> and \<^verbatim>\<open>memset_s\<close> of one element, the byte-wise copy that the
  FRACTAL\_Z transfers use instead, and the lemma that a nest of loops over such element
  copies computes \<open>relayout\<close>.  A reference environment closes the theory; the
  witnesses of the development evaluate the transfers in it.
\<close>

section \<open>Element copies\<close>

definition protected_size :: "ge_env \<Rightarrow> int \<Rightarrow> int \<Rightarrow> int" where
  "protected_size E total_size dst_offset =
     (if total_size - dst_offset < SECUREC_MEM_MAX_LEN E then total_size - dst_offset
      else SECUREC_MEM_MAX_LEN E)"

definition memcpy_checked ::
  "ge_env \<Rightarrow> Status \<Rightarrow> byte list \<Rightarrow> int option \<Rightarrow> int \<Rightarrow> byte list option \<Rightarrow> int \<Rightarrow> int \<Rightarrow> byte list res" where
  "memcpy_checked E err dst p dmax data src_offset count =
     (case memcpy_s E dst p dmax data src_offset count of
        (ret, dst') \<Rightarrow> if ret \<noteq> EOK then Inl (Ret err) else Inr dst')"

definition memset_checked ::
  "ge_env \<Rightarrow> Status \<Rightarrow> byte list \<Rightarrow> int option \<Rightarrow> int \<Rightarrow> int \<Rightarrow> byte list res" where
  "memset_checked E err dst p dmax count =
     (case memset_s E dst p dmax 0 count of
        (ret, dst') \<Rightarrow> if ret \<noteq> EOK then Inl (Ret err) else Inr dst')"

text \<open>
  The copy of one element as most transfers write it: \<^verbatim>\<open>GE_CHECK_GE(protected_size, 0)\<close>,
  then \<^verbatim>\<open>memcpy_s\<close> to \<^verbatim>\<open>PtrAdd(dst.get(), total_size, dst_offset)\<close>.
\<close>

definition copy_elem ::
  "ge_env \<Rightarrow> byte list \<Rightarrow> int \<Rightarrow> int \<Rightarrow> byte list option \<Rightarrow> int \<Rightarrow> int \<Rightarrow> byte list res" where
  "copy_elem E dst total_size dst_offset data src_offset esz =
     (let p = protected_size E total_size dst_offset in
      if p < 0 then Inl (Ret PARAM_INVALID)
      else memcpy_checked E ACL_ERROR_GE_MEMORY_OPERATE_FAILED dst
             (PtrAdd E total_size dst_offset) p data src_offset esz)"

definition zero_elem :: "ge_env \<Rightarrow> byte list \<Rightarrow> int \<Rightarrow> int \<Rightarrow> int \<Rightarrow> byte list res" where
  "zero_elem E dst total_size dst_offset esz =
     (let p = protected_size E total_size dst_offset in
      if p < 0 then Inl (Ret PARAM_INVALID)
      else memset_checked E ACL_ERROR_GE_MEMORY_OPERATE_FAILED dst
             (PtrAdd E total_size dst_offset) p esz)"

text \<open>The same with plain pointer arithmetic, \<^verbatim>\<open>dst.get() + dst_offset\<close>.\<close>

definition copy_elem_raw ::
  "ge_env \<Rightarrow> byte list \<Rightarrow> int \<Rightarrow> int \<Rightarrow> byte list option \<Rightarrow> int \<Rightarrow> int \<Rightarrow> byte list res" where
  "copy_elem_raw E dst total_size dst_offset data src_offset esz =
     (let p = protected_size E total_size dst_offset in
      if p < 0 then Inl (Ret PARAM_INVALID)
      else memcpy_checked E ACL_ERROR_GE_MEMORY_OPERATE_FAILED dst (Some dst_offset) p data src_offset esz)"

definition zero_elem_raw :: "ge_env \<Rightarrow> byte list \<Rightarrow> int \<Rightarrow> int \<Rightarrow> int \<Rightarrow> byte list res" where
  "zero_elem_raw E dst total_size dst_offset esz =
     (let p = protected_size E total_size dst_offset in
      if p < 0 then Inl (Ret PARAM_INVALID)
      else memset_checked E ACL_ERROR_GE_MEMORY_OPERATE_FAILED dst (Some dst_offset) p esz)"

text \<open>The same without the guard; the caller chooses the status.\<close>

definition copy_elem_as ::
  "Status \<Rightarrow> ge_env \<Rightarrow> byte list \<Rightarrow> int \<Rightarrow> int \<Rightarrow> byte list option \<Rightarrow> int \<Rightarrow> int \<Rightarrow> byte list res" where
  "copy_elem_as err E dst total_size dst_offset data src_offset esz =
     memcpy_checked E err dst (Some dst_offset) (protected_size E total_size dst_offset) data src_offset esz"

definition zero_elem_as :: "Status \<Rightarrow> ge_env \<Rightarrow> byte list \<Rightarrow> int \<Rightarrow> int \<Rightarrow> int \<Rightarrow> byte list res" where
  "zero_elem_as err E dst total_size dst_offset esz =
     memset_checked E err dst (Some dst_offset) (protected_size E total_size dst_offset) esz"

text \<open>
  The byte-wise copy: \<^verbatim>\<open>for (index < size) { *dst_data = *src_data; ++dst_data; ++src_data; }\<close>.
  Reading or writing outside a block is undefined.
\<close>

definition copy_byte :: "byte list option \<Rightarrow> int \<Rightarrow> int \<Rightarrow> int \<Rightarrow> byte list \<Rightarrow> byte list res" where
  "copy_byte data src_offset dst_offset index dst =
     (case data of
        None \<Rightarrow> Inl Undefined
      | Some bs \<Rightarrow>
          if 0 \<le> dst_offset + index \<and> dst_offset + index < int (length dst) \<and>
             0 \<le> src_offset + index \<and> src_offset + index < int (length bs)
          then Inr (dst[nat (dst_offset + index) := bs ! nat (src_offset + index)])
          else Inl Undefined)"

definition copy_bytes :: "byte list \<Rightarrow> int \<Rightarrow> byte list option \<Rightarrow> int \<Rightarrow> int \<Rightarrow> byte list res" where
  "copy_bytes dst dst_offset data src_offset esz =
     for_upto esz (copy_byte data src_offset dst_offset) dst"

text \<open>
  The FRACTAL\_Z transfers guard it: \<^verbatim>\<open>GE_CHECK_GE(protected_size, 0)\<close>, then
  \<^verbatim>\<open>if (protected_size < size) return ACL_ERROR_GE_PARAM_INVALID\<close>.
\<close>

definition copy_elem_bytes ::
  "ge_env \<Rightarrow> byte list \<Rightarrow> int \<Rightarrow> int \<Rightarrow> byte list option \<Rightarrow> int \<Rightarrow> int \<Rightarrow> byte list res" where
  "copy_elem_bytes E dst total_size dst_offset data src_offset esz =
     (let p = protected_size E total_size dst_offset in
      if p < 0 then Inl (Ret PARAM_INVALID)
      else if p < esz then Inl (Ret ACL_ERROR_GE_PARAM_INVALID)
      else copy_bytes dst dst_offset data src_offset esz)"

section \<open>When they succeed\<close>

text \<open>
  \<open>slot E P esz d K\<close>: element \<open>K\<close> of a destination of \<open>P\<close> elements of \<open>esz\<close> bytes.
\<close>

definition slot :: "int \<Rightarrow> int \<Rightarrow> byte list \<Rightarrow> int \<Rightarrow> bool" where
  "slot P esz d K \<longleftrightarrow>
     0 < esz \<and> esz \<le> 2 ^ 22 \<and> length d = nat P * nat esz \<and> 0 \<le> K \<and> K < P"

lemma slot_bounds:
  assumes "slot P esz d K"
  shows "0 \<le> K * esz" and "K * esz + esz \<le> P * esz" and "int (length d) = P * esz"
    and "K * esz < P * esz"
proof -
  from assms have s: "0 < esz" "0 \<le> K" "K < P" "length d = nat P * nat esz"
    by (auto simp: slot_def)
  show "0 \<le> K * esz" using s by simp
  have "(K + 1) * esz \<le> P * esz" using s by (intro mult_right_mono) auto
  then show "K * esz + esz \<le> P * esz" by (simp add: distrib_right)
  then show "K * esz < P * esz" using s by linarith
  show "int (length d) = P * esz" using s by simp
qed

lemma slot_elem_bounds:
  assumes "0 \<le> J" and "J < Q" and "0 < esz" and "length bs = nat Q * nat esz"
  shows "0 \<le> J * esz" and "J * esz + esz \<le> int (length bs)"
proof -
  show "0 \<le> J * esz" using assms by simp
  have "(J + 1) * esz \<le> Q * esz" using assms by (intro mult_right_mono) auto
  moreover have "int (length bs) = Q * esz" using assms by simp
  ultimately show "J * esz + esz \<le> int (length bs)" by (simp add: distrib_right)
qed

lemma protected_size_slot:
  assumes "securec_ok E" and "slot P esz d K"
  shows "esz \<le> protected_size E (P * esz) (K * esz)"
    and "0 < protected_size E (P * esz) (K * esz)"
    and "protected_size E (P * esz) (K * esz) \<le> SECUREC_MEM_MAX_LEN E"
    and "K * esz + protected_size E (P * esz) (K * esz) \<le> int (length d)"
  using assms(1) slot_bounds [OF assms(2)] assms(2)
  by (auto simp: protected_size_def securec_ok_def slot_def)

lemma securec_memcpy:
  assumes "securec_ok E" and "0 \<le> off" and "0 < dmax" and "dmax \<le> SECUREC_MEM_MAX_LEN E"
    and "off + dmax \<le> int (length dst)" and "0 \<le> cnt" and "cnt \<le> dmax" and "0 \<le> soff"
    and "soff + cnt \<le> int (length bs)"
  shows "memcpy_s E dst (Some off) dmax (Some bs) soff cnt =
         (EOK, put dst (nat off) (get bs (nat soff) (nat cnt)))"
  using assms unfolding securec_ok_def by simp

lemma securec_memset:
  assumes "securec_ok E" and "0 \<le> off" and "0 < dmax" and "dmax \<le> SECUREC_MEM_MAX_LEN E"
    and "off + dmax \<le> int (length dst)" and "0 \<le> cnt" and "cnt \<le> dmax"
  shows "memset_s E dst (Some off) dmax v cnt = (EOK, put dst (nat off) (replicate (nat cnt) v))"
  using assms unfolding securec_ok_def by simp

lemma memcpy_elem:
  assumes E: "securec_ok E" and d: "slot P esz d K"
    and J: "0 \<le> J" "J < Q" and bs: "length bs = nat Q * nat esz"
  shows "memcpy_checked E err d (Some (K * esz)) (protected_size E (P * esz) (K * esz))
           (Some bs) (J * esz) esz =
         Inr (put d (nat K * nat esz) (elem (nat esz) bs (nat J)))"
proof -
  have s: "0 < esz" "0 \<le> K" using d by (auto simp: slot_def)
  have "memcpy_s E d (Some (K * esz)) (protected_size E (P * esz) (K * esz)) (Some bs) (J * esz) esz
      = (EOK, put d (nat (K * esz)) (get bs (nat (J * esz)) (nat esz)))"
    using protected_size_slot [OF E d] slot_bounds [OF d] slot_elem_bounds [OF J s(1) bs] s
    by (intro securec_memcpy [OF E]) auto
  then show ?thesis
    using s J by (simp add: memcpy_checked_def elem_def nat_mult_distrib EOK_def)
qed

lemma memset_elem:
  assumes E: "securec_ok E" and d: "slot P esz d K"
  shows "memset_checked E err d (Some (K * esz)) (protected_size E (P * esz) (K * esz)) esz =
         Inr (put d (nat K * nat esz) (replicate (nat esz) 0))"
proof -
  have s: "0 < esz" "0 \<le> K" using d by (auto simp: slot_def)
  have "memset_s E d (Some (K * esz)) (protected_size E (P * esz) (K * esz)) 0 esz
      = (EOK, put d (nat (K * esz)) (replicate (nat esz) 0))"
    using protected_size_slot [OF E d] slot_bounds [OF d] s
    by (intro securec_memset [OF E]) auto
  then show ?thesis
    using s by (simp add: memset_checked_def nat_mult_distrib EOK_def)
qed

lemma memset_all:
  assumes "securec_ok E" and "0 < m" and "m \<le> SECUREC_MEM_MAX_LEN E" and "int (length dst) = m"
  shows "memset_checked E err dst (Some 0) m m = Inr (replicate (nat m) 0)"
  using securec_memset [OF assms(1), of 0 m dst m 0] assms
  by (simp add: memset_checked_def EOK_def put_def)

lemma PtrAdd_slot: "securec_ok E \<Longrightarrow> slot P esz d K \<Longrightarrow> PtrAdd E (P * esz) (K * esz) = Some (K * esz)"
  using slot_bounds by (auto simp: securec_ok_def)

lemma copy_elem_slot:
  assumes "securec_ok E" and "slot P esz d K" and "0 \<le> J" and "J < Q"
    and "length bs = nat Q * nat esz"
  shows "copy_elem E d (P * esz) (K * esz) (Some bs) (J * esz) esz =
         Inr (put d (nat K * nat esz) (elem (nat esz) bs (nat J)))"
  using protected_size_slot(2) [OF assms(1,2)] memcpy_elem [OF assms] PtrAdd_slot [OF assms(1,2)]
  by (simp add: copy_elem_def)

lemma zero_elem_slot:
  assumes "securec_ok E" and "slot P esz d K"
  shows "zero_elem E d (P * esz) (K * esz) esz =
         Inr (put d (nat K * nat esz) (replicate (nat esz) 0))"
  using protected_size_slot(2) [OF assms] memset_elem [OF assms] PtrAdd_slot [OF assms]
  by (simp add: zero_elem_def)

lemma copy_elem_raw_slot:
  assumes "securec_ok E" and "slot P esz d K" and "0 \<le> J" and "J < Q"
    and "length bs = nat Q * nat esz"
  shows "copy_elem_raw E d (P * esz) (K * esz) (Some bs) (J * esz) esz =
         Inr (put d (nat K * nat esz) (elem (nat esz) bs (nat J)))"
  using protected_size_slot(2) [OF assms(1,2)] memcpy_elem [OF assms] by (simp add: copy_elem_raw_def)

lemma zero_elem_raw_slot:
  assumes "securec_ok E" and "slot P esz d K"
  shows "zero_elem_raw E d (P * esz) (K * esz) esz =
         Inr (put d (nat K * nat esz) (replicate (nat esz) 0))"
  using protected_size_slot(2) [OF assms] memset_elem [OF assms] by (simp add: zero_elem_raw_def)

lemma copy_bytes_prefix:
  assumes off: "0 \<le> off" "off + int n \<le> int (length d)"
    and soff: "0 \<le> soff" "soff + int n \<le> int (length bs)"
  shows "for_list [0..int n - 1] (copy_byte (Some bs) soff off) d =
         Inr (put d (nat off) (get bs (nat soff) n))"
  using off(2) soff(2)
proof (induction n)
  case 0
  then show ?case by (simp add: put_def get_def)
next
  case (Suc n)
  let ?d = "put d (nat off) (get bs (nat soff) n)"
  have split: "[0..int (Suc n) - 1] = [0..int n - 1] @ [int n]" by (simp add: upto_rec2)
  have len: "length ?d = length d"
    using Suc.prems off soff by (simp add: length_put length_get)
  have o: "nat (off + int n) = nat off + n" and so: "nat (soff + int n) = nat soff + n"
    using off(1) soff(1) by auto
  have last: "get bs (nat soff) (Suc n) = get bs (nat soff) n @ [bs ! (nat soff + n)]"
    using Suc.prems soff(1) by (simp add: get_def take_Suc_conv_app_nth)
  have "nat off + n < length d" using Suc.prems off(1) by linarith
  then have "?d[nat off + n := bs ! (nat soff + n)] = put d (nat off) (get bs (nat soff) (Suc n))"
    using Suc.prems soff(1)
    by (intro nth_equalityI)
       (auto simp: len length_put length_get nth_list_update nth_put last nth_append less_Suc_eq)
  then have step: "copy_byte (Some bs) soff off (int n) ?d =
      Inr (put d (nat off) (get bs (nat soff) (Suc n)))"
    using Suc.prems off(1) soff(1) by (simp add: copy_byte_def len o so)
  have IH: "for_list [0..int n - 1] (copy_byte (Some bs) soff off) d = Inr ?d"
    using Suc.prems by (intro Suc.IH) auto
  show ?case
    unfolding split for_list_append IH by (simp add: step)
qed

lemma copy_bytes_elem:
  assumes d: "slot P esz d K" and J: "0 \<le> J" "J < Q" and bs: "length bs = nat Q * nat esz"
  shows "copy_bytes d (K * esz) (Some bs) (J * esz) esz =
         Inr (put d (nat K * nat esz) (elem (nat esz) bs (nat J)))"
proof -
  have s: "0 < esz" "0 \<le> K" using d by (auto simp: slot_def)
  have "for_list [0..int (nat esz) - 1] (copy_byte (Some bs) (J * esz) (K * esz)) d =
        Inr (put d (nat (K * esz)) (get bs (nat (J * esz)) (nat esz)))"
    using slot_bounds [OF d] slot_elem_bounds [OF J s(1) bs] s
    by (intro copy_bytes_prefix) auto
  then show ?thesis
    using s J by (simp add: copy_bytes_def for_upto_def elem_def nat_mult_distrib)
qed

section \<open>A nest of loops over element copies\<close>

text \<open>
  \<open>trans_ready\<close>: the environment and the arguments of a transfer from shape \<open>S\<close> to shape
  \<open>D\<close> whose source block is \<open>bs\<close>; \<open>trans_output\<close>: the result it then must deliver.
\<close>

definition trans_ready :: "ge_env \<Rightarrow> TransArgs \<Rightarrow> int list \<Rightarrow> int list \<Rightarrow> byte list \<Rightarrow> bool" where
  "trans_ready E args D S bs \<longleftrightarrow>
     (let esz = GetSizeByDataType E (arg_src_data_type args) in
      securec_ok E \<and> size_ok E (arg_src_data_type args) \<and> alloc_ok E (prod_list D * esz) \<and>
      arg_data args = Some bs \<and> length bs = nat (prod_list S) * nat esz)"

definition trans_output ::
  "ge_env \<Rightarrow> TransArgs \<Rightarrow> int list \<Rightarrow> int list \<Rightarrow> (int list \<Rightarrow> int list option) \<Rightarrow> byte list \<Rightarrow>
   TransResult \<Rightarrow> TransResult" where
  "trans_output E args D S pick bs result =
     (let esz = GetSizeByDataType E (arg_src_data_type args) in
      result\<lparr>res_data := Some (relayout (nat esz) D S pick bs), res_length := prod_list D * esz\<rparr>)"

text \<open>The primary formats of a request, in the full format codes and in the fields of the arguments.\<close>

definition formats_are :: "ge_env \<Rightarrow> TransArgs \<Rightarrow> Format \<Rightarrow> Format \<Rightarrow> bool" where
  "formats_are E args sf df \<longleftrightarrow>
     arg_src_primary_format args = sf \<and> arg_dst_primary_format args = df \<and>
     GetPrimaryFormat E (arg_src_format args) = sf \<and> GetPrimaryFormat E (arg_dst_format args) = df"

lemma trans_readyD:
  assumes "trans_ready E args D S bs"
  shows "securec_ok E" and "0 < GetSizeByDataType E (arg_src_data_type args)"
    and "GetSizeByDataType E (arg_src_data_type args) \<le> 2 ^ 22"
    and "size_ok E (arg_src_data_type args)"
    and "arg_data args = Some bs"
    and "length bs = nat (prod_list S) * nat (GetSizeByDataType E (arg_src_data_type args))"
  using assms by (auto simp: trans_ready_def Let_def size_ok_def)

text \<open>
  \<open>body\<close> is the innermost loop body, \<open>tup\<close> the destination tuple that an iteration
  writes.  The hypotheses \<open>copy\<close> and \<open>zero\<close> are discharged with the element lemmas above.
\<close>

context layout_map
begin

lemma relayout_loop:
  assumes dims: "\<forall>d \<in> set D. 0 \<le> d"
    and cover: "tup ` set ts = {i. in_range D i}"
    and esz: "0 < esz" "esz \<le> 2 ^ 22"
    and buf: "int (length buf) = prod_list D * esz"
    and bs: "length bs = nat (prod_list S) * nat esz"
    and copy: "\<And>t d j. t \<in> set ts \<Longrightarrow> slot (prod_list D) esz d (lin D (tup t)) \<Longrightarrow>
      pick (tup t) = Some j \<Longrightarrow> 0 \<le> lin S j \<Longrightarrow> lin S j < prod_list S \<Longrightarrow>
      body t d = Inr (put d (nat (lin D (tup t)) * nat esz) (elem (nat esz) bs (nat (lin S j))))"
    and zero: "\<And>t d. t \<in> set ts \<Longrightarrow> slot (prod_list D) esz d (lin D (tup t)) \<Longrightarrow>
      pick (tup t) = None \<Longrightarrow>
      body t d = Inr (put d (nat (lin D (tup t)) * nat esz) (replicate (nat esz) 0))"
  shows "for_list ts body buf = Inr (relayout (nat esz) D S pick bs)"
  unfolding relayout_def
proof (rule for_scatter [OF dims cover])
  show "length buf = nat (prod_list D) * nat esz"
    using buf esz prod_list_nonneg [OF dims]
    by (metis nat_int nat_mult_distrib)
  show "length (picked (nat esz) S pick bs i) = nat esz" if "in_range D i" for i
    by (rule length_picked [OF that bs])
  fix t d assume t: "t \<in> set ts" and d: "length (d :: byte list) = nat (prod_list D) * nat esz"
  have i: "in_range D (tup t)" using cover t by auto
  have s: "slot (prod_list D) esz d (lin D (tup t))"
    using esz d lin_bounds [OF i] by (simp add: slot_def)
  show "body t d = Inr (put d (nat (lin D (tup t)) * nat esz) (picked (nat esz) S pick bs (tup t)))"
  proof (cases "pick (tup t)")
    case None
    with zero [OF t s] show ?thesis by (simp add: picked_def)
  next
    case (Some j)
    with copy [OF t s Some] lin_bounds [OF pick_range [OF i Some]]
    show ?thesis by (simp add: picked_def)
  qed
qed

lemma relayout_over_zero:
  assumes dims: "\<forall>d \<in> set D. 0 \<le> d"
    and rng: "\<And>t. t \<in> set ts \<Longrightarrow> in_range D (tup t)"
    and hit: "\<And>t. t \<in> set ts \<Longrightarrow> pick (tup t) = Some (src t)"
    and onto: "\<And>i j. in_range D i \<Longrightarrow> pick i = Some j \<Longrightarrow> i \<in> tup ` set ts"
    and esz: "0 < esz" "esz \<le> 2 ^ 22"
    and bs: "length bs = nat (prod_list S) * nat esz"
    and copy: "\<And>t d. t \<in> set ts \<Longrightarrow> slot (prod_list D) esz d (lin D (tup t)) \<Longrightarrow>
      0 \<le> lin S (src t) \<Longrightarrow> lin S (src t) < prod_list S \<Longrightarrow>
      body t d = Inr (put d (nat (lin D (tup t)) * nat esz) (elem (nat esz) bs (nat (lin S (src t)))))"
  shows "for_list ts body (replicate (nat (prod_list D) * nat esz) 0) = Inr (relayout (nat esz) D S pick bs)"
  unfolding relayout_def
proof (rule for_scatter_over [where tup = tup and f = "picked (nat esz) S pick bs", OF dims rng])
  show "elem (nat esz) (replicate (nat (prod_list D) * nat esz) 0) (nat (lin D i)) = picked (nat esz) S pick bs i"
    if i: "in_range D i" and off: "i \<notin> tup ` set ts" for i
  proof -
    have "pick i = None" using onto [OF i] off by (cases "pick i") auto
    moreover have "nat (lin D i) < nat (prod_list D)" using lin_bounds [OF i] by linarith
    ultimately show ?thesis by (simp add: picked_def elem_replicate)
  qed
  show "length (picked (nat esz) S pick bs i) = nat esz" if "in_range D i" for i
    by (rule length_picked [OF that bs])
  fix t d assume t: "t \<in> set ts" and d: "length (d :: byte list) = nat (prod_list D) * nat esz"
  have s: "slot (prod_list D) esz d (lin D (tup t))"
    using esz d lin_bounds [OF rng [OF t]] by (simp add: slot_def)
  show "body t d = Inr (put d (nat (lin D (tup t)) * nat esz) (picked (nat esz) S pick bs (tup t)))"
    using copy [OF t s] lin_bounds [OF pick_range [OF rng [OF t] hit [OF t]]] hit [OF t]
    by (simp add: picked_def)
qed simp_all

lemma new_relayout:
  assumes ready: "trans_ready E args D S bs"
    and dims: "\<forall>d \<in> set D. 0 \<le> d"
    and cover: "tup ` set ts = {i. in_range D i}"
    and esz: "esz = GetSizeByDataType E (arg_src_data_type args)"
    and total: "total_size = prod_list D * esz"
    and copy: "\<And>t d j. t \<in> set ts \<Longrightarrow> slot (prod_list D) esz d (lin D (tup t)) \<Longrightarrow>
      pick (tup t) = Some j \<Longrightarrow> 0 \<le> lin S j \<Longrightarrow> lin S j < prod_list S \<Longrightarrow>
      body t d = Inr (put d (nat (lin D (tup t)) * nat esz) (elem (nat esz) bs (nat (lin S j))))"
    and zero: "\<And>t d. t \<in> set ts \<Longrightarrow> slot (prod_list D) esz d (lin D (tup t)) \<Longrightarrow>
      pick (tup t) = None \<Longrightarrow>
      body t d = Inr (put d (nat (lin D (tup t)) * nat esz) (replicate (nat esz) 0))"
  shows "(case new_uint8 E total_size of
            None \<Rightarrow> err
          | Some dst \<Rightarrow> rbind (for_list ts body dst)
              (\<lambda>dst. Inr (result\<lparr>res_data := Some dst, res_length := total_size\<rparr>))) =
         Inr (trans_output E args D S pick bs result)"
proof -
  obtain buf where buf: "new_uint8 E total_size = Some buf" "int (length buf) = prod_list D * esz"
    using ready esz total by (auto simp: trans_ready_def Let_def alloc_ok_def)
  have "for_list ts body buf = Inr (relayout (nat esz) D S pick bs)"
    using trans_readyD [OF ready] esz
    by (intro relayout_loop [OF dims cover _ _ buf(2) _ copy zero]) auto
  then show ?thesis using buf esz total by (simp add: trans_output_def Let_def)
qed

lemma trans_output_elements:
  assumes F: "F = Inr (trans_output E args D S pick bs result)"
    and ready: "trans_ready E args D S bs" and dims: "\<forall>d \<in> set D. 0 \<le> d"
    and esz: "esz = GetSizeByDataType E (arg_src_data_type args)"
  shows "\<exists>out. F = Inr (result\<lparr>res_data := Some out, res_length := prod_list D * esz\<rparr>) \<and>
         int (length out) = prod_list D * esz \<and>
         (\<forall>i. in_range D i \<longrightarrow> tensor_at (nat esz) D out i =
            (case pick i of Some j \<Rightarrow> tensor_at (nat esz) S bs j | None \<Rightarrow> replicate (nat esz) 0))"
proof -
  note r = trans_readyD [OF ready, folded esz]
  let ?out = "relayout (nat esz) D S pick bs"
  have "int (length ?out) = prod_list D * esz"
    using length_relayout [OF dims r(6)] prod_list_nonneg [OF dims] r(2) by simp
  moreover have "tensor_at (nat esz) D ?out i =
      (case pick i of Some j \<Rightarrow> tensor_at (nat esz) S bs j | None \<Rightarrow> replicate (nat esz) 0)"
    if "in_range D i" for i
    using relayout_at [OF that r(6)] by (simp add: picked_def tensor_at_def split: option.split)
  ultimately show ?thesis
    by (intro exI [of _ ?out]) (simp add: F trans_output_def Let_def esz)
qed

end

section \<open>Ways to copy an element\<close>

text \<open>
  The transfers differ in how they address the destination and in which guards they keep.
  What they rely on is one contract: on element \<open>K\<close> of the destination the copy
  writes element \<open>J\<close> of the source, the reset writes zero bytes.
\<close>

locale elem_copier =
  fixes cp :: "ge_env \<Rightarrow> byte list \<Rightarrow> int \<Rightarrow> int \<Rightarrow> byte list option \<Rightarrow> int \<Rightarrow> int \<Rightarrow> byte list res"
    and ze :: "ge_env \<Rightarrow> byte list \<Rightarrow> int \<Rightarrow> int \<Rightarrow> int \<Rightarrow> byte list res"
  assumes cp_slot: "securec_ok E \<Longrightarrow> slot P esz d K \<Longrightarrow> 0 \<le> J \<Longrightarrow> J < Q \<Longrightarrow>
      length bs = nat Q * nat esz \<Longrightarrow>
      cp E d (P * esz) (K * esz) (Some bs) (J * esz) esz =
      Inr (put d (nat K * nat esz) (elem (nat esz) bs (nat J)))"
    and ze_slot: "securec_ok E \<Longrightarrow> slot P esz d K \<Longrightarrow>
      ze E d (P * esz) (K * esz) esz = Inr (put d (nat K * nat esz) (replicate (nat esz) 0))"
begin

lemma new_relayout_elem:
  assumes map: "layout_map D S pick"
    and ready: "trans_ready E args D S bs"
    and dims: "\<forall>d \<in> set D. 0 \<le> d"
    and cover: "tup ` set ts = {i. in_range D i}"
    and esz: "esz = GetSizeByDataType E (arg_src_data_type args)"
    and total: "total_size = prod_list D * esz"
    and copy: "\<And>t d j. in_range D (tup t) \<Longrightarrow> t \<in> set ts \<Longrightarrow> pick (tup t) = Some j \<Longrightarrow>
      body t d = cp E d total_size (lin D (tup t) * esz) (arg_data args) (lin S j * esz) esz"
    and zero: "\<And>t d. in_range D (tup t) \<Longrightarrow> t \<in> set ts \<Longrightarrow> pick (tup t) = None \<Longrightarrow>
      body t d = ze E d total_size (lin D (tup t) * esz) esz"
  shows "(case new_uint8 E total_size of
            None \<Rightarrow> err
          | Some dst \<Rightarrow> rbind (for_list ts body dst)
              (\<lambda>dst. Inr (result\<lparr>res_data := Some dst, res_length := total_size\<rparr>))) =
         Inr (trans_output E args D S pick bs result)"
proof (rule layout_map.new_relayout [OF map ready dims cover esz total])
  note r = trans_readyD [OF ready]
  fix t d assume t: "t \<in> set ts" and s: "slot (prod_list D) esz d (lin D (tup t))"
  have i: "in_range D (tup t)" using cover t by auto
  show "body t d = Inr (put d (nat (lin D (tup t)) * nat esz) (elem (nat esz) bs (nat (lin S j))))"
    if "pick (tup t) = Some j" "0 \<le> lin S j" "lin S j < prod_list S" for j
    using copy [OF i t that(1)] cp_slot [OF r(1) s that(2,3)] r total esz by simp
  show "body t d = Inr (put d (nat (lin D (tup t)) * nat esz) (replicate (nat esz) 0))"
    if "pick (tup t) = None"
    using zero [OF i t that] ze_slot [OF r(1) s] total by simp
qed

end

interpretation guarded: elem_copier copy_elem zero_elem
  by unfold_locales (rule copy_elem_slot zero_elem_slot; assumption)+

interpretation guarded_raw: elem_copier copy_elem_raw zero_elem_raw
  by unfold_locales (rule copy_elem_raw_slot zero_elem_raw_slot; assumption)+

interpretation unguarded: elem_copier "copy_elem_as err" "zero_elem_as err" for err
  by unfold_locales (simp_all add: copy_elem_as_def zero_elem_as_def memcpy_elem memset_elem)

interpretation bytewise: elem_copier copy_elem_bytes zero_elem_raw
proof unfold_locales
  fix E P esz d K J Q and bs :: "byte list"
  assume a: "securec_ok E" "slot P esz d K" "0 \<le> J" "J < Q" "length bs = nat Q * nat esz"
  show "copy_elem_bytes E d (P * esz) (K * esz) (Some bs) (J * esz) esz =
        Inr (put d (nat K * nat esz) (elem (nat esz) bs (nat J)))"
    using protected_size_slot(1,2) [OF a(1,2)] copy_bytes_elem [OF a(2-5)]
    by (simp add: copy_elem_bytes_def)
qed (rule zero_elem_raw_slot)

section \<open>The way back\<close>

text \<open>The arguments that take the result of a transfer back to the format it came from.\<close>

definition reverse_args :: "TransArgs \<Rightarrow> TransResult \<Rightarrow> TransArgs" where
  "reverse_args args result =
     \<lparr>arg_data = res_data result,
      arg_src_format = arg_dst_format args, arg_dst_format = arg_src_format args,
      arg_src_primary_format = arg_dst_primary_format args,
      arg_dst_primary_format = arg_src_primary_format args,
      arg_src_sub_format = arg_dst_sub_format args, arg_dst_sub_format = arg_src_sub_format args,
      arg_src_c0_format = arg_dst_c0_format args, arg_dst_c0_format = arg_src_c0_format args,
      arg_src_shape = arg_dst_shape args, arg_dst_shape = arg_src_shape args,
      arg_src_data_type = arg_src_data_type args\<rparr>"

lemma reverse_args_sel [simp]:
  "arg_data (reverse_args args r) = res_data r"
  "arg_src_format (reverse_args args r) = arg_dst_format args"
  "arg_dst_format (reverse_args args r) = arg_src_format args"
  "arg_src_primary_format (reverse_args args r) = arg_dst_primary_format args"
  "arg_dst_primary_format (reverse_args args r) = arg_src_primary_format args"
  "arg_src_sub_format (reverse_args args r) = arg_dst_sub_format args"
  "arg_dst_sub_format (reverse_args args r) = arg_src_sub_format args"
  "arg_src_c0_format (reverse_args args r) = arg_dst_c0_format args"
  "arg_dst_c0_format (reverse_args args r) = arg_src_c0_format args"
  "arg_src_shape (reverse_args args r) = arg_dst_shape args"
  "arg_dst_shape (reverse_args args r) = arg_src_shape args"
  "arg_src_data_type (reverse_args args r) = arg_src_data_type args"
  by (simp_all add: reverse_args_def)

context layout_inverse
begin

lemma reverse_ready:
  assumes "trans_ready E args D S bs"
    and "alloc_ok E (prod_list S * GetSizeByDataType E (arg_src_data_type args))"
    and "\<forall>d \<in> set D. 0 \<le> d"
  shows "trans_ready E (reverse_args args (trans_output E args D S p bs result)) S D
           (relayout (nat (GetSizeByDataType E (arg_src_data_type args))) D S p bs)"
  using assms by (simp add: trans_ready_def trans_output_def Let_def fwd.length_relayout)

lemma reverse_output:
  assumes "trans_ready E args D S bs"
    and "\<forall>d \<in> set D. 0 \<le> d" and "\<forall>d \<in> set S. 0 \<le> d"
  shows "trans_output E (reverse_args args result) S D q
           (relayout (nat (GetSizeByDataType E (arg_src_data_type args))) D S p bs) r =
         r\<lparr>res_data := Some bs, res_length := prod_list S * GetSizeByDataType E (arg_src_data_type args)\<rparr>"
  using assms by (simp add: trans_ready_def trans_output_def Let_def roundtrip)

lemma transfer_roundtrip:
  assumes forth: "F E args result = Inr (trans_output E args D S p bs result)"
    and ready: "trans_ready E args D S bs"
    and alloc: "alloc_ok E (prod_list S * GetSizeByDataType E (arg_src_data_type args))"
    and D: "\<forall>d \<in> set D. 0 \<le> d" and S: "\<forall>d \<in> set S. 0 \<le> d"
    and return: "\<And>mid bs'. trans_ready E (reverse_args args mid) S D bs' \<Longrightarrow>
      B E (reverse_args args mid) result' = Inr (trans_output E (reverse_args args mid) S D q bs' result')"
  shows "\<exists>mid. F E args result = Inr mid \<and>
         B E (reverse_args args mid) result' =
         Inr (result'\<lparr>res_data := Some bs,
                       res_length := prod_list S * GetSizeByDataType E (arg_src_data_type args)\<rparr>)"
  using forth return [OF reverse_ready [OF ready alloc D]] reverse_output [OF ready D S] by simp

end

section \<open>A reference environment\<close>

definition ref_memcpy_s ::
  "byte list \<Rightarrow> int option \<Rightarrow> int \<Rightarrow> byte list option \<Rightarrow> int \<Rightarrow> int \<Rightarrow> int \<times> byte list" where
  "ref_memcpy_s dst p dmax src soff cnt =
     (case (p, src) of
        (Some off, Some bs) \<Rightarrow>
          if 0 < dmax \<and> dmax \<le> 2147483647 \<and> 0 \<le> cnt \<and> cnt \<le> dmax \<and> 0 \<le> off \<and>
             off + cnt \<le> int (length dst) \<and> 0 \<le> soff \<and> soff + cnt \<le> int (length bs)
          then (EOK, put dst (nat off) (get bs (nat soff) (nat cnt))) else (34, dst)
      | _ \<Rightarrow> (22, dst))"

definition ref_memset_s :: "byte list \<Rightarrow> int option \<Rightarrow> int \<Rightarrow> byte \<Rightarrow> int \<Rightarrow> int \<times> byte list" where
  "ref_memset_s dst p dmax v cnt =
     (case p of
        Some off \<Rightarrow>
          if 0 < dmax \<and> dmax \<le> 2147483647 \<and> 0 \<le> cnt \<and> cnt \<le> dmax \<and> 0 \<le> off \<and>
             off + cnt \<le> int (length dst)
          then (EOK, put dst (nat off) (replicate (nat cnt) v)) else (34, dst)
      | None \<Rightarrow> (22, dst))"

definition ref_env :: "int \<Rightarrow> int \<Rightarrow> ge_env" where
  "ref_env sz c0 =
     \<lparr>GetSizeByDataType = (\<lambda>_. sz),
      GetPrimaryFormat = (\<lambda>f. f mod 256),
      GetSubFormat = (\<lambda>f. (f div 256) mod 65536),
      GetC0Value = (\<lambda>_. c0),
      PtrAdd = (\<lambda>m i. if 0 \<le> i \<and> i < m then Some i else None),
      SECUREC_MEM_MAX_LEN = 2147483647,
      new_uint8 = (\<lambda>n. if 0 \<le> n then Some (replicate (nat n) 255) else None),
      memcpy_s = ref_memcpy_s,
      memset_s = ref_memset_s\<rparr>"

lemma ref_env_sel [simp]:
  "GetSizeByDataType (ref_env sz c0) dt = sz"
  "GetPrimaryFormat (ref_env sz c0) f = f mod 256"
  "GetSubFormat (ref_env sz c0) f = (f div 256) mod 65536"
  "GetC0Value (ref_env sz c0) f = c0"
  "SECUREC_MEM_MAX_LEN (ref_env sz c0) = 2147483647"
  by (simp_all add: ref_env_def)

lemma securec_ok_ref_env: "securec_ok (ref_env sz c0)"
  by (auto simp: securec_ok_def ref_env_def ref_memcpy_s_def ref_memset_s_def EOK_def split: option.split)

lemma alloc_ok_ref_env: "0 \<le> n \<Longrightarrow> alloc_ok (ref_env sz c0) n"
  by (simp add: alloc_ok_def ref_env_def)

lemma size_ok_ref_env: "0 < sz \<Longrightarrow> sz \<le> 2 ^ 22 \<Longrightarrow> size_ok (ref_env sz c0) dt"
  by (simp add: size_ok_def)

lemma trans_ready_ref_env:
  "0 < sz \<Longrightarrow> sz \<le> 2 ^ 22 \<Longrightarrow> 0 \<le> prod_list D \<Longrightarrow> arg_data args = Some bs \<Longrightarrow>
   length bs = nat (prod_list S) * nat sz \<Longrightarrow> trans_ready (ref_env sz c0) args D S bs"
  by (simp add: trans_ready_def Let_def securec_ok_ref_env alloc_ok_ref_env size_ok_ref_env)

text \<open>Arguments whose formats are primary formats without sub-format or C0 code.\<close>

definition plain_args :: "Format \<Rightarrow> Format \<Rightarrow> int list \<Rightarrow> int list \<Rightarrow> byte list \<Rightarrow> TransArgs" where
  "plain_args sf df ss ds bs =
     \<lparr>arg_data = Some bs, arg_src_format = sf, arg_dst_format = df,
      arg_src_primary_format = sf, arg_dst_primary_format = df,
      arg_src_sub_format = 0, arg_dst_sub_format = 0, arg_src_c0_format = 0, arg_dst_c0_format = 0,
      arg_src_shape = ss, arg_dst_shape = ds, arg_src_data_type = DT_FLOAT16\<rparr>"

lemma plain_args_sel [simp]:
  "arg_data (plain_args sf df ss ds bs) = Some bs"
  "arg_src_format (plain_args sf df ss ds bs) = sf"
  "arg_dst_format (plain_args sf df ss ds bs) = df"
  "arg_src_primary_format (plain_args sf df ss ds bs) = sf"
  "arg_dst_primary_format (plain_args sf df ss ds bs) = df"
  "arg_src_sub_format (plain_args sf df ss ds bs) = 0"
  "arg_dst_sub_format (plain_args sf df ss ds bs) = 0"
  "arg_src_shape (plain_args sf df ss ds bs) = ss"
  "arg_dst_shape (plain_args sf df ss ds bs) = ds"
  "arg_src_data_type (plain_args sf df ss ds bs) = DT_FLOAT16"
  by (simp_all add: plain_args_def)

definition no_result :: TransResult where
  "no_result = \<lparr>res_data = None, res_length = 0\<rparr>"

end
