(* ===== verification/TransferNc1hwc0.thy ===== *)
theory TransferNc1hwc0
  imports TransferBase
begin

text \<open>
  The five-dimensional cube layout NC1HWC0: \<^verbatim>\<open>format_transfer_nchw_nc1hwc0.cc\<close>,
  \<^verbatim>\<open>format_transfer_nc1hwc0_nchw.cc\<close>, \<^verbatim>\<open>format_transfer_nhwc_nc1hwc0.cc\<close> and
  \<^verbatim>\<open>format_transfer_nc1hwc0_nhwc.cc\<close>.  The channel axis of \<open>c\<close> elements is cut into
  \<open>Ceil c c0\<close> blocks of \<open>c0\<close> and padded with zeros.
\<close>

section \<open>NCHW to NC1HWC0\<close>

definition TransShapeNchwToNc1hwc0 :: "ge_env \<Rightarrow> int list \<Rightarrow> DataType \<Rightarrow> int \<Rightarrow> int list res" where
  "TransShapeNchwToNc1hwc0 E src_shape data_type cube_size =
     (let c0 = (if cube_size \<le> 0 then GetCubeSizeByDataType E data_type else cube_size) in
      if c0 \<le> 0 then Inl (Ret ACL_ERROR_GE_DATATYPE_INVALID)
      else if \<not> CheckShapeValid src_shape kNchwDimsNum then Inl (Ret ACL_ERROR_GE_SHAPE_INVALID)
      else
        rbind (vec_at src_shape kNchwN) (\<lambda>n.
        rbind (vec_at src_shape kNchwC) (\<lambda>c.
        rbind (vec_at src_shape kNchwH) (\<lambda>h.
        rbind (vec_at src_shape kNchwW) (\<lambda>w.
          let dst_shape = [n, Ceil c c0, h, w, c0] in
          if \<not> CheckShapeValid dst_shape kNc1hwc0DimsNum then Inl (Ret ACL_ERROR_GE_SHAPE_INVALID)
          else Inr dst_shape)))))"

definition CheckArgsForNchwToNc1hwc0 :: "ge_env \<Rightarrow> TransArgs \<Rightarrow> unit res" where
  "CheckArgsForNchwToNc1hwc0 E args =
     (if arg_src_primary_format args \<noteq> FORMAT_NCHW \<or> arg_dst_primary_format args \<noteq> FORMAT_NC1HWC0
      then Inl (Ret ACL_ERROR_GE_FORMAT_INVALID)
      else
        let c0 = GetC0Value E (arg_dst_format args) in
        rbind (TransShapeNchwToNc1hwc0 E (arg_src_shape args) (arg_src_data_type args) c0)
          (\<lambda>expect_5d_shape.
             if expect_5d_shape \<noteq> arg_dst_shape args then Inl (Ret ACL_ERROR_GE_SHAPE_INVALID)
             else Inr ()))"

definition GetDstDataAfterTransOfNchw2Nc1hwc0 ::
  "ge_env \<Rightarrow> TransArgs \<Rightarrow> TransResult \<Rightarrow> int \<Rightarrow> int \<Rightarrow> TransResult res" where
  "GetDstDataAfterTransOfNchw2Nc1hwc0 E args result esz total_size =
     (case new_uint8 E total_size of
        None \<Rightarrow> Inl (Ret ACL_ERROR_GE_MEMORY_ALLOCATION)
      | Some dst \<Rightarrow>
        rbind (vec_at (arg_src_shape args) kNchwN) (\<lambda>n.
        rbind (vec_at (arg_src_shape args) kNchwC) (\<lambda>c.
        rbind (vec_at (arg_src_shape args) kNchwH) (\<lambda>h.
        rbind (vec_at (arg_src_shape args) kNchwW) (\<lambda>w.
          let c0 = GetC0Value E (arg_dst_format args) in
          if c0 \<le> 0 then Inl (Ret ACL_ERROR_GE_DATATYPE_INVALID)
          else
            let c1 = (c - 1) sdiv c0 + 1; hw = h * w; hwc0 = hw * c0; c1hwc0 = c1 * hwc0 in
            rbind
              (for_upto n (\<lambda>n_idx. let n_head_addr = n_idx * c1hwc0 in
                 for_upto c1 (\<lambda>c1_idx. let c1_head_addr = n_head_addr + c1_idx * hwc0 in
                   for_upto h (\<lambda>h_idx. let wc0 = w * c0; h_head_addr = c1_head_addr + h_idx * wc0 in
                     for_upto w (\<lambda>w_idx. let w_head_addr = h_head_addr + w_idx * c0 in
                       for_upto c0 (\<lambda>c0_idx dst.
                         let dst_index = c0_idx + w_head_addr;
                             dst_offset = dst_index * esz;
                             cIdx = c0_idx + c1_idx * c0 in
                         if cIdx < c then
                           let chw = c * hw;
                               srcIdx = n_idx * chw + cIdx * hw + h_idx * w + w_idx;
                               src_offset = srcIdx * esz in
                           copy_elem E dst total_size dst_offset (arg_data args) src_offset esz
                         else zero_elem E dst total_size dst_offset esz))))) dst)
              (\<lambda>dst. Inr (result\<lparr>res_data := Some dst, res_length := total_size\<rparr>)))))))"

definition NchwNc1hwc0_TransFormat :: "ge_env \<Rightarrow> TransArgs \<Rightarrow> TransResult \<Rightarrow> TransResult res" where
  "NchwNc1hwc0_TransFormat E args result =
     rbind (CheckArgsForNchwToNc1hwc0 E args) (\<lambda>_.
       let esz = GetSizeByDataType E (arg_src_data_type args);
           total_size = mul64 (GetItemNumByShape (arg_dst_shape args)) esz in
       if total_size \<le> 0 then
         let src_size = GetItemNumByShape (arg_src_shape args) in
         if total_size = 0 \<and> src_size = 0 then Inr (result\<lparr>res_length := total_size\<rparr>)
         else Inl (Ret ACL_ERROR_GE_SHAPE_INVALID)
       else GetDstDataAfterTransOfNchw2Nc1hwc0 E args result esz total_size)"

definition NchwNc1hwc0_TransShape ::
  "ge_env \<Rightarrow> Format \<Rightarrow> int list \<Rightarrow> DataType \<Rightarrow> Format \<Rightarrow> int list res" where
  "NchwNc1hwc0_TransShape E src_format src_shape data_type dst_format =
     (let src_primary_format = GetPrimaryFormat E src_format;
          c0 = GetC0Value E dst_format in
      if src_primary_format = FORMAT_NCHW then TransShapeNchwToNc1hwc0 E src_shape data_type c0
      else Inl (Ret ACL_ERROR_GE_FORMAT_INVALID))"

section \<open>NC1HWC0 to NCHW\<close>

definition CheckDataTypeSupportedForNc1hwc0ToNchw :: "ge_env \<Rightarrow> DataType \<Rightarrow> bool" where
  "CheckDataTypeSupportedForNc1hwc0ToNchw E data_type = (0 < GetSizeByDataType E data_type)"

definition CheckArgsForNc1hwc0ToNchw :: "ge_env \<Rightarrow> TransArgs \<Rightarrow> unit res" where
  "CheckArgsForNc1hwc0ToNchw E args =
     (let src = arg_src_shape args; dst = arg_dst_shape args in
      if arg_src_primary_format args \<noteq> FORMAT_NC1HWC0 \<or> arg_dst_primary_format args \<noteq> FORMAT_NCHW
      then Inl (Ret ACL_ERROR_GE_FORMAT_INVALID)
      else if \<not> CheckDataTypeSupportedForNc1hwc0ToNchw E (arg_src_data_type args)
      then Inl (Ret ACL_ERROR_GE_DATATYPE_INVALID)
      else if \<not> CheckShapeValid src kNc1hwc0DimsNum then Inl (Ret ACL_ERROR_GE_SHAPE_INVALID)
      else if \<not> CheckShapeValid dst kNchwDimsNum then Inl (Ret ACL_ERROR_GE_SHAPE_INVALID)
      else
        let c0 = GetC0Value E (arg_src_format args) in
        if c0 \<le> 0 then Inl (Ret ACL_ERROR_GE_DATATYPE_INVALID)
        else
          rbind (vec_at src kNc1hwc0H) (\<lambda>sh. rbind (vec_at dst kNchwH) (\<lambda>dh.
          rbind (vec_at src kNc1hwc0W) (\<lambda>sw. rbind (vec_at dst kNchwW) (\<lambda>dw.
          rbind (vec_at src kNc1hwc0N) (\<lambda>sn. rbind (vec_at dst kNchwN) (\<lambda>dn.
          rbind (vec_at src kNc1hwc0C0) (\<lambda>sc0.
          rbind (vec_at src kNc1hwc0C1) (\<lambda>sc1. rbind (vec_at dst kNchwC) (\<lambda>dc.
            if sh \<noteq> dh \<or> sw \<noteq> dw \<or> sn \<noteq> dn \<or> sc0 \<noteq> c0 \<or> sc1 \<noteq> Ceil dc c0
            then Inl (Ret ACL_ERROR_GE_SHAPE_INVALID) else Inr ()))))))))))"

definition GetDstDataAfterTransForNc1hwc0ToNchw ::
  "ge_env \<Rightarrow> TransArgs \<Rightarrow> TransResult \<Rightarrow> int \<Rightarrow> int \<Rightarrow> TransResult res" where
  "GetDstDataAfterTransForNc1hwc0ToNchw E args result esz total_size =
     (case new_uint8 E total_size of
        None \<Rightarrow> Inl (Ret ACL_ERROR_GE_MEMORY_ALLOCATION)
      | Some dst \<Rightarrow>
        rbind (vec_at (arg_src_shape args) kNc1hwc0H) (\<lambda>h.
        rbind (vec_at (arg_src_shape args) kNc1hwc0W) (\<lambda>w.
        rbind (vec_at (arg_src_shape args) kNc1hwc0N) (\<lambda>n.
        rbind (vec_at (arg_src_shape args) kNc1hwc0C1) (\<lambda>c1.
        rbind (vec_at (arg_src_shape args) kNc1hwc0C0) (\<lambda>c0.
        rbind (vec_at (arg_dst_shape args) kNchwC) (\<lambda>c.
          let hw = h * w; chw = c * hw; wc0 = w * c0; hwc0 = h * wc0; c1hwc0 = c1 * hwc0 in
          rbind
            (for_upto n (\<lambda>n_idx. let n_head_addr = n_idx * chw in
               for_upto c (\<lambda>c_idx. let c_head_addr = n_head_addr + c_idx * hw in
                 for_upto h (\<lambda>h_idx. let h_head_addr = c_head_addr + h_idx * w in
                   for_upto w (\<lambda>w_idx dst.
                     if c0 = 0 then Inl Undefined
                     else
                       let dst_idx = h_head_addr + w_idx;
                           c1_idx = c_idx sdiv c0;
                           c0_idx = c_idx smod c0;
                           src_idx = n_idx * c1hwc0 + c1_idx * hwc0 + h_idx * wc0 + w_idx * c0 + c0_idx;
                           src_offset = src_idx * esz;
                           dst_offset = dst_idx * esz in
                       copy_elem E dst total_size dst_offset (arg_data args) src_offset esz)))) dst)
            (\<lambda>dst. Inr (result\<lparr>res_data := Some dst, res_length := total_size\<rparr>)))))))))"

definition Nc1hwc0Nchw_TransFormat :: "ge_env \<Rightarrow> TransArgs \<Rightarrow> TransResult \<Rightarrow> TransResult res" where
  "Nc1hwc0Nchw_TransFormat E args result =
     rbind (CheckArgsForNc1hwc0ToNchw E args) (\<lambda>_.
       let esz = GetSizeByDataType E (arg_src_data_type args);
           total_size = mul64 (GetItemNumByShape (arg_dst_shape args)) esz in
       if total_size \<le> 0 then
         let src_size = GetItemNumByShape (arg_src_shape args) in
         if total_size = 0 \<and> src_size = 0 then Inr (result\<lparr>res_length := total_size\<rparr>)
         else Inl (Ret ACL_ERROR_GE_PARAM_INVALID)
       else GetDstDataAfterTransForNc1hwc0ToNchw E args result esz total_size)"

definition Nc1hwc0Nchw_TransShape ::
  "ge_env \<Rightarrow> Format \<Rightarrow> int list \<Rightarrow> DataType \<Rightarrow> Format \<Rightarrow> int list res" where
  "Nc1hwc0Nchw_TransShape E src_format src_shape data_type dst_format =
     Inl (Ret ACL_ERROR_GE_FORMAT_INVALID)"

section \<open>NHWC to NC1HWC0\<close>

definition CheckDataTypeSupportedNhwcToNc1hwc0 :: "ge_env \<Rightarrow> DataType \<Rightarrow> bool" where
  "CheckDataTypeSupportedNhwcToNc1hwc0 E data_type = (0 < GetSizeByDataType E data_type)"

definition TransShapeNhwcToNc1hwc0 :: "ge_env \<Rightarrow> int list \<Rightarrow> DataType \<Rightarrow> int \<Rightarrow> int list res" where
  "TransShapeNhwcToNc1hwc0 E src_shape data_type cube_size =
     (let c0 = (if cube_size \<le> 0 then GetCubeSizeByDataType E data_type else cube_size) in
      if c0 \<le> 0 then Inl (Ret ACL_ERROR_GE_DATATYPE_INVALID)
      else
        rbind (vec_at src_shape kNhwcN) (\<lambda>n.
        rbind (vec_at src_shape kNhwcC) (\<lambda>c.
        rbind (vec_at src_shape kNhwcH) (\<lambda>h.
        rbind (vec_at src_shape kNhwcW) (\<lambda>w.
          let dst_shape = [n, Ceil c c0, h, w, c0] in
          if \<not> CheckShapeValid dst_shape kNc1hwc0DimsNum then Inl (Ret ACL_ERROR_GE_SHAPE_INVALID)
          else Inr dst_shape)))))"

definition CheckArgsForNhwcToNc1hwc0 :: "ge_env \<Rightarrow> TransArgs \<Rightarrow> unit res" where
  "CheckArgsForNhwcToNc1hwc0 E args =
     (if arg_src_primary_format args \<noteq> FORMAT_NHWC \<or> arg_dst_primary_format args \<noteq> FORMAT_NC1HWC0
      then Inl (Ret ACL_ERROR_GE_FORMAT_INVALID)
      else if \<not> CheckDataTypeSupportedNhwcToNc1hwc0 E (arg_src_data_type args)
      then Inl (Ret ACL_ERROR_GE_DATATYPE_INVALID)
      else if \<not> CheckShapeValid (arg_src_shape args) kNhwcDimsNum
      then Inl (Ret ACL_ERROR_GE_SHAPE_INVALID)
      else if \<not> CheckShapeValid (arg_dst_shape args) kNc1hwc0DimsNum
      then Inl (Ret ACL_ERROR_GE_SHAPE_INVALID)
      else
        let c0 = GetC0Value E (arg_dst_format args) in
        rbind (TransShapeNhwcToNc1hwc0 E (arg_src_shape args) (arg_src_data_type args) c0)
          (\<lambda>expect_dst_shape.
             if arg_dst_shape args \<noteq> expect_dst_shape then Inl (Ret ACL_ERROR_GE_SHAPE_INVALID)
             else Inr ()))"

definition GetDstDataAfterTransNhwcToNc1hwc0 ::
  "ge_env \<Rightarrow> TransArgs \<Rightarrow> TransResult \<Rightarrow> int \<Rightarrow> int \<Rightarrow> TransResult res" where
  "GetDstDataAfterTransNhwcToNc1hwc0 E args result esz total_size =
     (case new_uint8 E total_size of
        None \<Rightarrow> Inl (Ret ACL_ERROR_GE_MEMORY_ALLOCATION)
      | Some dst \<Rightarrow>
        rbind (vec_at (arg_src_shape args) kNhwcN) (\<lambda>n.
        rbind (vec_at (arg_src_shape args) kNhwcH) (\<lambda>h.
        rbind (vec_at (arg_src_shape args) kNhwcW) (\<lambda>w.
        rbind (vec_at (arg_src_shape args) kNhwcC) (\<lambda>c.
        rbind (vec_at (arg_dst_shape args) kNc1hwc0C1) (\<lambda>c1.
        rbind (vec_at (arg_dst_shape args) kNc1hwc0C0) (\<lambda>c0.
          let wc = w * c; hwc = h * wc; wc0 = w * c0; hwc0 = h * wc0; c1hwc0 = c1 * hwc0 in
          rbind
            (for_upto n (\<lambda>n_idx. let n_head_addr = n_idx * c1hwc0 in
               for_upto c1 (\<lambda>c1_idx. let c1_head_addr = n_head_addr + c1_idx * hwc0 in
                 for_upto h (\<lambda>h_idx. let h_head_addr = c1_head_addr + h_idx * wc0 in
                   for_upto w (\<lambda>w_idx. let w_head_addr = h_head_addr + w_idx * c0 in
                     for_upto c0 (\<lambda>c0_idx dst.
                       let dst_idx = c0_idx + w_head_addr;
                           dst_offset = dst_idx * esz;
                           c_idx = c0_idx + c1_idx * c0;
                           src_idx = n_idx * hwc + h_idx * wc + w_idx * c + c_idx in
                       if c_idx < c then
                         let src_offset = src_idx * esz in
                         copy_elem E dst total_size dst_offset (arg_data args) src_offset esz
                       else zero_elem E dst total_size dst_offset esz))))) dst)
            (\<lambda>dst. Inr (result\<lparr>res_data := Some dst, res_length := total_size\<rparr>)))))))))"

definition NhwcNc1hwc0_TransFormat :: "ge_env \<Rightarrow> TransArgs \<Rightarrow> TransResult \<Rightarrow> TransResult res" where
  "NhwcNc1hwc0_TransFormat E args result =
     rbind (CheckArgsForNhwcToNc1hwc0 E args) (\<lambda>_.
       let esz = GetSizeByDataType E (arg_src_data_type args);
           total_size = mul64 (GetItemNumByShape (arg_dst_shape args)) esz in
       if total_size \<le> 0 then
         let src_size = GetItemNumByShape (arg_src_shape args) in
         if total_size = 0 \<and> src_size = 0 then Inr (result\<lparr>res_length := total_size\<rparr>)
         else Inl (Ret ACL_ERROR_GE_DATATYPE_INVALID)
       else GetDstDataAfterTransNhwcToNc1hwc0 E args result esz total_size)"

definition NhwcNc1hwc0_TransShape ::
  "ge_env \<Rightarrow> Format \<Rightarrow> int list \<Rightarrow> DataType \<Rightarrow> Format \<Rightarrow> int list res" where
  "NhwcNc1hwc0_TransShape E src_format src_shape data_type dst_format =
     (let src_primary_format = GetPrimaryFormat E src_format;
          c0 = GetC0Value E dst_format in
      if src_primary_format = FORMAT_NHWC \<and> CheckDataTypeSupportedNhwcToNc1hwc0 E data_type then
        if \<not> CheckShapeValid src_shape kNhwcDimsNum then Inl (Ret ACL_ERROR_GE_SHAPE_INVALID)
        else TransShapeNhwcToNc1hwc0 E src_shape data_type c0
      else if src_primary_format \<noteq> FORMAT_NHWC then Inl (Ret ACL_ERROR_GE_FORMAT_INVALID)
      else Inl (Ret ACL_ERROR_GE_DATATYPE_INVALID))"

section \<open>NC1HWC0 to NHWC\<close>

definition CheckDataTypeForNc1hwc0ToNhwc :: "ge_env \<Rightarrow> DataType \<Rightarrow> bool" where
  "CheckDataTypeForNc1hwc0ToNhwc E data_type = (0 < GetSizeByDataType E data_type)"

definition CheckArgsForNc1hwc0ToNhwc :: "ge_env \<Rightarrow> TransArgs \<Rightarrow> unit res" where
  "CheckArgsForNc1hwc0ToNhwc E args =
     (let src = arg_src_shape args; dst = arg_dst_shape args in
      if arg_src_primary_format args \<noteq> FORMAT_NC1HWC0 \<or> arg_dst_primary_format args \<noteq> FORMAT_NHWC
      then Inl (Ret ACL_ERROR_GE_FORMAT_INVALID)
      else if \<not> CheckDataTypeForNc1hwc0ToNhwc E (arg_src_data_type args)
      then Inl (Ret ACL_ERROR_GE_DATATYPE_INVALID)
      else if \<not> CheckShapeValid src kNc1hwc0DimsNum then Inl (Ret ACL_ERROR_GE_SHAPE_INVALID)
      else if \<not> CheckShapeValid dst kNhwcDimsNum then Inl (Ret ACL_ERROR_GE_SHAPE_INVALID)
      else
        let c0 = GetC0Value E (arg_src_format args) in
        if c0 \<le> 0 then Inl (Ret ACL_ERROR_GE_DATATYPE_INVALID)
        else
          rbind (vec_at src kNc1hwc0H) (\<lambda>sh. rbind (vec_at dst kNhwcH) (\<lambda>dh.
          rbind (vec_at src kNc1hwc0W) (\<lambda>sw. rbind (vec_at dst kNhwcW) (\<lambda>dw.
          rbind (vec_at src kNc1hwc0N) (\<lambda>sn. rbind (vec_at dst kNhwcN) (\<lambda>dn.
          rbind (vec_at src kNc1hwc0C0) (\<lambda>sc0.
          rbind (vec_at src kNc1hwc0C1) (\<lambda>sc1. rbind (vec_at dst kNhwcC) (\<lambda>dc.
            if sh \<noteq> dh \<or> sw \<noteq> dw \<or> sn \<noteq> dn \<or> sc0 \<noteq> c0 \<or> sc1 \<noteq> Ceil dc c0
            then Inl (Ret ACL_ERROR_GE_SHAPE_INVALID) else Inr ()))))))))))"

definition GetDstDataForNc1hwc0ToNhwc ::
  "ge_env \<Rightarrow> TransArgs \<Rightarrow> TransResult \<Rightarrow> int \<Rightarrow> int \<Rightarrow> TransResult res" where
  "GetDstDataForNc1hwc0ToNhwc E args result esz total_size =
     (case new_uint8 E total_size of
        None \<Rightarrow> Inl (Ret ACL_ERROR_GE_MEMORY_ALLOCATION)
      | Some dst \<Rightarrow>
        rbind (vec_at (arg_src_shape args) kNc1hwc0H) (\<lambda>h.
        rbind (vec_at (arg_src_shape args) kNc1hwc0W) (\<lambda>w.
        rbind (vec_at (arg_src_shape args) kNc1hwc0N) (\<lambda>n.
        rbind (vec_at (arg_src_shape args) kNc1hwc0C1) (\<lambda>c1.
        rbind (vec_at (arg_src_shape args) kNc1hwc0C0) (\<lambda>c0.
        rbind (vec_at (arg_dst_shape args) kNhwcC) (\<lambda>c.
          let wc = w * c; hwc = h * wc; wc0 = w * c0; hwc0 = h * wc0; c1hwc0 = c1 * hwc0 in
          rbind
            (for_upto n (\<lambda>n_idx. let n_head_addr = n_idx * hwc in
               for_upto h (\<lambda>h_idx. let h_head_addr = n_head_addr + h_idx * wc in
                 for_upto w (\<lambda>w_idx. let w_head_addr = h_head_addr + w_idx * c in
                   for_upto c (\<lambda>c_idx dst.
                     if c0 = 0 then Inl Undefined
                     else
                       let dst_idx = w_head_addr + c_idx;
                           c1_idx = c_idx sdiv c0;
                           c0_idx = c_idx smod c0;
                           src_idx = n_idx * c1hwc0 + c1_idx * hwc0 + h_idx * wc0 + w_idx * c0 + c0_idx;
                           src_offset = src_idx * esz;
                           dst_offset = dst_idx * esz in
                       copy_elem E dst total_size dst_offset (arg_data args) src_offset esz)))) dst)
            (\<lambda>dst. Inr (result\<lparr>res_data := Some dst, res_length := total_size\<rparr>)))))))))"

definition Nc1hwc0Nhwc_TransFormat :: "ge_env \<Rightarrow> TransArgs \<Rightarrow> TransResult \<Rightarrow> TransResult res" where
  "Nc1hwc0Nhwc_TransFormat E args result =
     rbind (CheckArgsForNc1hwc0ToNhwc E args) (\<lambda>_.
       let esz = GetSizeByDataType E (arg_src_data_type args);
           total_size = mul64 (GetItemNumByShape (arg_dst_shape args)) esz in
       if total_size \<le> 0 then
         let src_size = GetItemNumByShape (arg_src_shape args) in
         if total_size = 0 \<and> src_size = 0 then Inr (result\<lparr>res_length := total_size\<rparr>)
         else Inl (Ret ACL_ERROR_GE_SHAPE_INVALID)
       else GetDstDataForNc1hwc0ToNhwc E args result esz total_size)"

definition Nc1hwc0Nhwc_TransShape ::
  "ge_env \<Rightarrow> Format \<Rightarrow> int list \<Rightarrow> DataType \<Rightarrow> Format \<Rightarrow> int list res" where
  "Nc1hwc0Nhwc_TransShape E src_format src_shape data_type dst_format =
     Inl (Ret ACL_ERROR_GE_FORMAT_INVALID)"

section \<open>The layout maps\<close>

fun nchw_of_nc1hwc0 :: "int \<Rightarrow> int \<Rightarrow> int list \<Rightarrow> int list option" where
  "nchw_of_nc1hwc0 c c0 [n, c1, h, w, k] =
     (if k + c1 * c0 < c then Some [n, k + c1 * c0, h, w] else None)"
| "nchw_of_nc1hwc0 c c0 _ = None"

fun nc1hwc0_of_nchw :: "int \<Rightarrow> int list \<Rightarrow> int list option" where
  "nc1hwc0_of_nchw c0 [n, c, h, w] = Some [n, c div c0, h, w, c mod c0]"
| "nc1hwc0_of_nchw c0 _ = None"

interpretation nchw_cube: layout_inverse
  "[n, Ceil c (max 1 c0), h, w, max 1 c0]" "[n, c, h, w]"
  "nchw_of_nc1hwc0 c (max 1 c0)" "nc1hwc0_of_nchw (max 1 c0)"
  for n c h w c0 :: int
proof unfold_locales
  fix i j assume "in_range [n, Ceil c (max 1 c0), h, w, max 1 c0] i" "nchw_of_nc1hwc0 c (max 1 c0) i = Some j"
  then show "in_range [n, c, h, w] j" by (auto simp: in_range5 split: if_splits)
next
  fix i j assume "in_range [n, c, h, w] i" "nc1hwc0_of_nchw (max 1 c0) i = Some j"
  then show "in_range [n, Ceil c (max 1 c0), h, w, max 1 c0] j"
    by (auto simp: in_range4 Ceil_covers pos_imp_zdiv_nonneg_iff)
next
  fix j assume "in_range [n, c, h, w] j"
  then show "\<exists>i. nc1hwc0_of_nchw (max 1 c0) j = Some i \<and> nchw_of_nc1hwc0 c (max 1 c0) i = Some j"
    by (auto simp: in_range4 mod_div_mult_eq)
qed


fun nhwc_of_nc1hwc0 :: "int \<Rightarrow> int \<Rightarrow> int list \<Rightarrow> int list option" where
  "nhwc_of_nc1hwc0 c c0 [n, c1, h, w, k] =
     (if k + c1 * c0 < c then Some [n, h, w, k + c1 * c0] else None)"
| "nhwc_of_nc1hwc0 c c0 _ = None"

fun nc1hwc0_of_nhwc :: "int \<Rightarrow> int list \<Rightarrow> int list option" where
  "nc1hwc0_of_nhwc c0 [n, h, w, c] = Some [n, c div c0, h, w, c mod c0]"
| "nc1hwc0_of_nhwc c0 _ = None"

interpretation nhwc_cube: layout_inverse
  "[n, Ceil c (max 1 c0), h, w, max 1 c0]" "[n, h, w, c]"
  "nhwc_of_nc1hwc0 c (max 1 c0)" "nc1hwc0_of_nhwc (max 1 c0)"
  for n c h w c0 :: int
proof unfold_locales
  fix i j assume "in_range [n, Ceil c (max 1 c0), h, w, max 1 c0] i" "nhwc_of_nc1hwc0 c (max 1 c0) i = Some j"
  then show "in_range [n, h, w, c] j" by (auto simp: in_range5 split: if_splits)
next
  fix i j assume "in_range [n, h, w, c] i" "nc1hwc0_of_nhwc (max 1 c0) i = Some j"
  then show "in_range [n, Ceil c (max 1 c0), h, w, max 1 c0] j"
    by (auto simp: in_range4 Ceil_covers pos_imp_zdiv_nonneg_iff)
next
  fix j assume "in_range [n, h, w, c] j"
  then show "\<exists>i. nc1hwc0_of_nhwc (max 1 c0) j = Some i \<and> nhwc_of_nc1hwc0 c (max 1 c0) i = Some j"
    by (auto simp: in_range4 mod_div_mult_eq)
qed

section \<open>The transfers compute the layout maps\<close>

lemma Nchw2Nc1hwc0_data:
  assumes ready: "trans_ready E args [n, Ceil c c0, h, w, c0] [n, c, h, w] bs"
    and shape: "arg_src_shape args = [n, c, h, w]"
    and c0: "GetC0Value E (arg_dst_format args) = c0" "0 < c0"
    and dims: "0 \<le> n" "0 < c" "0 \<le> h" "0 \<le> w"
    and esz: "esz = GetSizeByDataType E (arg_src_data_type args)"
    and total: "total_size = prod_list [n, Ceil c c0, h, w, c0] * esz"
  shows "GetDstDataAfterTransOfNchw2Nc1hwc0 E args result esz total_size =
         Inr (trans_output E args [n, Ceil c c0, h, w, c0] [n, c, h, w] (nchw_of_nc1hwc0 c c0) bs result)"
proof -
  have c1: "(c - 1) sdiv c0 + 1 = Ceil c c0" using c0 dims by (simp add: Ceil_def)
  have m: "max 1 c0 = c0" and pos: "\<not> c0 \<le> 0" using c0 by simp_all
  note R = guarded.new_relayout_elem
    [OF nchw_cube.fwd.layout_map_axioms [where n = n and c = c and ?c0.0 = c0 and h = h and w = w, unfolded m]
       ready _ in_range_indices esz total]
  show ?thesis
    unfolding GetDstDataAfterTransOfNchw2Nc1hwc0_def
    by (simp add: shape c0 c1 pos Let_def for5 vec_at_in cong: option.case_cong if_cong; rule R)
       (auto simp: dims c0 less_imp_le Ceil_nonneg in_range5 algebra_simps)
qed

lemma Nc1hwc0ToNchw_data:
  assumes ready: "trans_ready E args [n, c, h, w] [n, Ceil c c0, h, w, c0] bs"
    and shape: "arg_src_shape args = [n, Ceil c c0, h, w, c0]" "arg_dst_shape args = [n, c, h, w]"
    and c0: "0 < c0"
    and dims: "0 \<le> n" "0 \<le> c" "0 \<le> h" "0 \<le> w"
    and esz: "esz = GetSizeByDataType E (arg_src_data_type args)"
    and total: "total_size = prod_list [n, c, h, w] * esz"
  shows "GetDstDataAfterTransForNc1hwc0ToNchw E args result esz total_size =
         Inr (trans_output E args [n, c, h, w] [n, Ceil c c0, h, w, c0] (nc1hwc0_of_nchw c0) bs result)"
proof -
  have m: "max 1 c0 = c0" and nz: "c0 \<noteq> 0" using c0 by simp_all
  note R = guarded.new_relayout_elem
    [OF nchw_cube.bwd.layout_map_axioms [where n = n and c = c and ?c0.0 = c0 and h = h and w = w, unfolded m]
       ready _ in_range_indices esz total]
  show ?thesis
    unfolding GetDstDataAfterTransForNc1hwc0ToNchw_def
    by (simp add: shape nz Let_def for4 vec_at_in cong: option.case_cong; rule R)
       (auto simp: dims c0 in_range4 sdiv_nonneg smod_nonneg algebra_simps)
qed

lemma NhwcToNc1hwc0_data:
  assumes ready: "trans_ready E args [n, Ceil c c0, h, w, c0] [n, h, w, c] bs"
    and shape: "arg_src_shape args = [n, h, w, c]" "arg_dst_shape args = [n, Ceil c c0, h, w, c0]"
    and c0: "0 < c0"
    and dims: "0 \<le> n" "0 \<le> c" "0 \<le> h" "0 \<le> w"
    and esz: "esz = GetSizeByDataType E (arg_src_data_type args)"
    and total: "total_size = prod_list [n, Ceil c c0, h, w, c0] * esz"
  shows "GetDstDataAfterTransNhwcToNc1hwc0 E args result esz total_size =
         Inr (trans_output E args [n, Ceil c c0, h, w, c0] [n, h, w, c] (nhwc_of_nc1hwc0 c c0) bs result)"
proof -
  have m: "max 1 c0 = c0" using c0 by simp
  note R = guarded.new_relayout_elem
    [OF nhwc_cube.fwd.layout_map_axioms [where n = n and c = c and ?c0.0 = c0 and h = h and w = w, unfolded m]
       ready _ in_range_indices esz total]
  show ?thesis
    unfolding GetDstDataAfterTransNhwcToNc1hwc0_def
    by (simp add: shape Let_def for5 vec_at_in cong: option.case_cong if_cong; rule R)
       (auto simp: dims c0 less_imp_le Ceil_nonneg in_range5 algebra_simps)
qed

lemma Nc1hwc0ToNhwc_data:
  assumes ready: "trans_ready E args [n, h, w, c] [n, Ceil c c0, h, w, c0] bs"
    and shape: "arg_src_shape args = [n, Ceil c c0, h, w, c0]" "arg_dst_shape args = [n, h, w, c]"
    and c0: "0 < c0"
    and dims: "0 \<le> n" "0 \<le> c" "0 \<le> h" "0 \<le> w"
    and esz: "esz = GetSizeByDataType E (arg_src_data_type args)"
    and total: "total_size = prod_list [n, h, w, c] * esz"
  shows "GetDstDataForNc1hwc0ToNhwc E args result esz total_size =
         Inr (trans_output E args [n, h, w, c] [n, Ceil c c0, h, w, c0] (nc1hwc0_of_nhwc c0) bs result)"
proof -
  have m: "max 1 c0 = c0" and nz: "c0 \<noteq> 0" using c0 by simp_all
  note R = guarded.new_relayout_elem
    [OF nhwc_cube.bwd.layout_map_axioms [where n = n and c = c and ?c0.0 = c0 and h = h and w = w, unfolded m]
       ready _ in_range_indices esz total]
  show ?thesis
    unfolding GetDstDataForNc1hwc0ToNhwc_def
    by (simp add: shape nz Let_def for4 vec_at_in cong: option.case_cong; rule R)
       (auto simp: dims c0 in_range4 sdiv_nonneg smod_nonneg algebra_simps)
qed

section \<open>The transfers as a whole\<close>

lemma NchwNc1hwc0_ok:
  assumes fmt: "arg_src_primary_format args = FORMAT_NCHW" "arg_dst_primary_format args = FORMAT_NC1HWC0"
    and shape: "arg_src_shape args = [n, c, h, w]" "arg_dst_shape args = [n, Ceil c c0, h, w, c0]"
    and c0: "GetC0Value E (arg_dst_format args) = c0" "0 < c0"
    and valid: "IsShapeValid [n, c, h, w]" "IsShapeValid [n, Ceil c c0, h, w, c0]"
    and pos: "0 < prod_list [n, Ceil c c0, h, w, c0]"
    and ready: "trans_ready E args [n, Ceil c c0, h, w, c0] [n, c, h, w] bs"
  shows "NchwNc1hwc0_TransFormat E args result =
         Inr (trans_output E args [n, Ceil c c0, h, w, c0] [n, c, h, w] (nchw_of_nc1hwc0 c c0) bs result)"
proof -
  note r = trans_readyD [OF ready]
  have d: "0 \<le> n" "0 \<le> c" "0 \<le> h" "0 \<le> w" using shape_valid_nonneg [OF valid(1)] by auto
  have "c \<noteq> 0" using pos by (auto simp: Ceil_def)
  then have c: "0 < c" using d by simp
  have "0 < prod_list [n, Ceil c c0, h, w, c0] * GetSizeByDataType E (arg_src_data_type args)"
    using pos r(2) by (rule mult_pos_pos)
  then show ?thesis
    using Nchw2Nc1hwc0_data [OF ready shape(1) c0 d(1) c d(3,4) refl refl] total_size_valid [OF valid(2) r(4)]
      c0 valid
    by (simp add: NchwNc1hwc0_TransFormat_def CheckArgsForNchwToNc1hwc0_def TransShapeNchwToNc1hwc0_def
        fmt shape check_shape_valid vec_at_in Let_def)
qed

lemma Nc1hwc0Nchw_ok:
  assumes fmt: "arg_src_primary_format args = FORMAT_NC1HWC0" "arg_dst_primary_format args = FORMAT_NCHW"
    and shape: "arg_src_shape args = [n, Ceil c c0, h, w, c0]" "arg_dst_shape args = [n, c, h, w]"
    and c0: "GetC0Value E (arg_src_format args) = c0" "0 < c0"
    and valid: "IsShapeValid [n, c, h, w]" "IsShapeValid [n, Ceil c c0, h, w, c0]"
    and pos: "0 < prod_list [n, c, h, w]"
    and ready: "trans_ready E args [n, c, h, w] [n, Ceil c c0, h, w, c0] bs"
  shows "Nc1hwc0Nchw_TransFormat E args result =
         Inr (trans_output E args [n, c, h, w] [n, Ceil c c0, h, w, c0] (nc1hwc0_of_nchw c0) bs result)"
proof -
  note r = trans_readyD [OF ready]
  have d: "0 \<le> n" "0 \<le> c" "0 \<le> h" "0 \<le> w" using shape_valid_nonneg [OF valid(1)] by auto
  have "0 < prod_list [n, c, h, w] * GetSizeByDataType E (arg_src_data_type args)"
    using pos r(2) by (rule mult_pos_pos)
  then show ?thesis
    using Nc1hwc0ToNchw_data [OF ready shape c0(2) d refl refl] total_size_valid [OF valid(1) r(4)]
      c0 valid r(2)
    by (simp add: Nc1hwc0Nchw_TransFormat_def CheckArgsForNc1hwc0ToNchw_def
        CheckDataTypeSupportedForNc1hwc0ToNchw_def fmt shape check_shape_valid vec_at_in Let_def)
qed

lemma NhwcNc1hwc0_ok:
  assumes fmt: "arg_src_primary_format args = FORMAT_NHWC" "arg_dst_primary_format args = FORMAT_NC1HWC0"
    and shape: "arg_src_shape args = [n, h, w, c]" "arg_dst_shape args = [n, Ceil c c0, h, w, c0]"
    and c0: "GetC0Value E (arg_dst_format args) = c0" "0 < c0"
    and valid: "IsShapeValid [n, h, w, c]" "IsShapeValid [n, Ceil c c0, h, w, c0]"
    and pos: "0 < prod_list [n, Ceil c c0, h, w, c0]"
    and ready: "trans_ready E args [n, Ceil c c0, h, w, c0] [n, h, w, c] bs"
  shows "NhwcNc1hwc0_TransFormat E args result =
         Inr (trans_output E args [n, Ceil c c0, h, w, c0] [n, h, w, c] (nhwc_of_nc1hwc0 c c0) bs result)"
proof -
  note r = trans_readyD [OF ready]
  have d: "0 \<le> n" "0 \<le> c" "0 \<le> h" "0 \<le> w" using shape_valid_nonneg [OF valid(1)] by auto
  have "0 < prod_list [n, Ceil c c0, h, w, c0] * GetSizeByDataType E (arg_src_data_type args)"
    using pos r(2) by (rule mult_pos_pos)
  then show ?thesis
    using NhwcToNc1hwc0_data [OF ready shape c0(2) d refl refl] total_size_valid [OF valid(2) r(4)]
      c0 valid r(2)
    by (simp add: NhwcNc1hwc0_TransFormat_def CheckArgsForNhwcToNc1hwc0_def TransShapeNhwcToNc1hwc0_def
        CheckDataTypeSupportedNhwcToNc1hwc0_def fmt shape check_shape_valid vec_at_in Let_def)
qed

lemma Nc1hwc0Nhwc_ok:
  assumes fmt: "arg_src_primary_format args = FORMAT_NC1HWC0" "arg_dst_primary_format args = FORMAT_NHWC"
    and shape: "arg_src_shape args = [n, Ceil c c0, h, w, c0]" "arg_dst_shape args = [n, h, w, c]"
    and c0: "GetC0Value E (arg_src_format args) = c0" "0 < c0"
    and valid: "IsShapeValid [n, h, w, c]" "IsShapeValid [n, Ceil c c0, h, w, c0]"
    and pos: "0 < prod_list [n, h, w, c]"
    and ready: "trans_ready E args [n, h, w, c] [n, Ceil c c0, h, w, c0] bs"
  shows "Nc1hwc0Nhwc_TransFormat E args result =
         Inr (trans_output E args [n, h, w, c] [n, Ceil c c0, h, w, c0] (nc1hwc0_of_nhwc c0) bs result)"
proof -
  note r = trans_readyD [OF ready]
  have d: "0 \<le> n" "0 \<le> c" "0 \<le> h" "0 \<le> w" using shape_valid_nonneg [OF valid(1)] by auto
  have "0 < prod_list [n, h, w, c] * GetSizeByDataType E (arg_src_data_type args)"
    using pos r(2) by (rule mult_pos_pos)
  then show ?thesis
    using Nc1hwc0ToNhwc_data [OF ready shape c0(2) d refl refl] total_size_valid [OF valid(1) r(4)]
      c0 valid r(2)
    by (simp add: Nc1hwc0Nhwc_TransFormat_def CheckArgsForNc1hwc0ToNhwc_def
        CheckDataTypeForNc1hwc0ToNhwc_def fmt shape check_shape_valid vec_at_in Let_def)
qed

section \<open>Properties\<close>

text \<open>
  C1: the NCHW to NC1HWC0 transfer succeeds on every valid non-empty tensor and delivers, at
  block \<open>i1\<close> and lane \<open>k\<close> of the channel axis, the bytes of channel \<open>i1 * c0 + k\<close> of the
  source, and zero bytes in the lanes beyond the last channel; the length is that of the
  destination shape.
\<close>

theorem NchwNc1hwc0_elements:
  assumes "arg_src_primary_format args = FORMAT_NCHW" "arg_dst_primary_format args = FORMAT_NC1HWC0"
    and "arg_src_shape args = [n, c, h, w]" "arg_dst_shape args = [n, Ceil c c0, h, w, c0]"
    and "GetC0Value E (arg_dst_format args) = c0" "0 < c0"
    and "IsShapeValid [n, c, h, w]" "IsShapeValid [n, Ceil c c0, h, w, c0]"
    and "0 < prod_list [n, Ceil c c0, h, w, c0]"
    and "trans_ready E args [n, Ceil c c0, h, w, c0] [n, c, h, w] bs"
    and "esz = GetSizeByDataType E (arg_src_data_type args)"
  shows "\<exists>out. NchwNc1hwc0_TransFormat E args result =
           Inr (result\<lparr>res_data := Some out, res_length := n * Ceil c c0 * h * w * c0 * esz\<rparr>) \<and>
         int (length out) = n * Ceil c c0 * h * w * c0 * esz \<and>
         (\<forall>i0 i1 i2 i3 k. in_range [n, Ceil c c0, h, w, c0] [i0, i1, i2, i3, k] \<longrightarrow>
            tensor_at (nat esz) [n, Ceil c c0, h, w, c0] out [i0, i1, i2, i3, k] =
            (if i1 * c0 + k < c then tensor_at (nat esz) [n, c, h, w] bs [i0, i1 * c0 + k, i2, i3]
             else replicate (nat esz) 0))"
proof -
  let ?D = "[n, Ceil c c0, h, w, c0]"
  have m: "max 1 c0 = c0" using assms(6) by simp
  note r = trans_readyD [OF assms(10), folded assms(11)]
  let ?out = "relayout (nat esz) ?D [n, c, h, w] (nchw_of_nc1hwc0 c c0) bs"
  have "length ?out = nat (prod_list ?D) * nat esz"
    using nchw_cube.fwd.length_relayout [of n c c0 h w, unfolded m, OF shape_valid_nonneg [OF assms(8)] r(6)] .
  moreover have "tensor_at (nat esz) ?D ?out [i0, i1, i2, i3, k] =
      (if i1 * c0 + k < c then tensor_at (nat esz) [n, c, h, w] bs [i0, i1 * c0 + k, i2, i3]
       else replicate (nat esz) 0)" if "in_range ?D [i0, i1, i2, i3, k]" for i0 i1 i2 i3 k
    using nchw_cube.fwd.relayout_at [of n c c0 h w, unfolded m, OF that r(6)]
    by (simp add: picked_def tensor_at_def add.commute)
  ultimately show ?thesis
    using NchwNc1hwc0_ok [OF assms(1-10)] assms(9,11) r(2)
    by (intro exI [of _ ?out]) (auto simp: trans_output_def Let_def ac_simps)
qed

theorem NchwNc1hwc0_elements_witness:
  "\<exists>out. NchwNc1hwc0_TransFormat (ref_env 1 2)
            (plain_args FORMAT_NCHW FORMAT_NC1HWC0 [1, 3, 1, 2] [1, 2, 1, 2, 2] [1, 2, 3, 4, 5, 6]) no_result =
          Inr (no_result\<lparr>res_data := Some out, res_length := 8\<rparr>) \<and>
        tensor_at 1 [1, 2, 1, 2, 2] out [0, 1, 0, 1, 0] = [6] \<and>
        tensor_at 1 [1, 2, 1, 2, 2] out [0, 1, 0, 1, 1] = [0]"
proof -
  let ?args = "plain_args FORMAT_NCHW FORMAT_NC1HWC0 [1, 3, 1, 2] [1, 2, 1, 2, 2] [1, 2, 3, 4, 5, 6]"
  have e: "tensor_at (Suc 0) [1, 3, 1, 2] [1, 2, 3, 4, 5, 6] [0, 2, 0, 1] = [6 :: byte]" by code_simp
  have C: "Ceil 3 2 = 2" by code_simp
  have v: "IsShapeValid [1, 3, 1, 2]" "IsShapeValid [1, 2, 1, 2, 2]" by code_simp+
  have "trans_ready (ref_env 1 2) ?args [1, 2, 1, 2, 2] [1, 3, 1, 2] [1, 2, 3, 4, 5, 6]"
    by (rule trans_ready_ref_env) simp_all
  then obtain out where o: "NchwNc1hwc0_TransFormat (ref_env 1 2) ?args no_result =
        Inr (no_result\<lparr>res_data := Some out, res_length := 8\<rparr>)"
      "\<And>i0 i1 i2 i3 k. in_range [1, 2, 1, 2, 2] [i0, i1, i2, i3, k] \<Longrightarrow>
         tensor_at 1 [1, 2, 1, 2, 2] out [i0, i1, i2, i3, k] =
         (if i1 * 2 + k < 3 then tensor_at 1 [1, 3, 1, 2] [1, 2, 3, 4, 5, 6] [i0, i1 * 2 + k, i2, i3]
          else replicate 1 0)"
    using NchwNc1hwc0_elements [of ?args 1 3 1 2 2 "ref_env 1 2" "[1, 2, 3, 4, 5, 6]" 1 no_result] v
    by (auto simp: C)
  show ?thesis
    using o(1) o(2) [of 0 1 0 1 0] o(2) [of 0 1 0 1 1] by (intro exI [of _ out]) (simp add: e)
qed

text \<open>
  C15: a tensor taken from NCHW to NC1HWC0 and back is, byte for byte, the tensor it was, for
  every element size and every C0: the padding lanes of the way forth are not read on the
  way back.
\<close>

theorem Nchw_cube_roundtrip:
  assumes "arg_src_primary_format args = FORMAT_NCHW" "arg_dst_primary_format args = FORMAT_NC1HWC0"
    and "arg_src_shape args = [n, c, h, w]" "arg_dst_shape args = [n, Ceil c c0, h, w, c0]"
    and "GetC0Value E (arg_dst_format args) = c0" "0 < c0"
    and "IsShapeValid [n, c, h, w]" "IsShapeValid [n, Ceil c c0, h, w, c0]"
    and "0 < prod_list [n, c, h, w]"
    and "trans_ready E args [n, Ceil c c0, h, w, c0] [n, c, h, w] bs"
    and "alloc_ok E (prod_list [n, c, h, w] * GetSizeByDataType E (arg_src_data_type args))"
  shows "\<exists>cube. NchwNc1hwc0_TransFormat E args result = Inr cube \<and>
         Nc1hwc0Nchw_TransFormat E (reverse_args args cube) result' =
         Inr (result'\<lparr>res_data := Some bs,
                       res_length := n * c * h * w * GetSizeByDataType E (arg_src_data_type args)\<rparr>)"
proof -
  have m: "max 1 c0 = c0" using assms(6) by simp
  have S: "\<forall>d \<in> set [n, c, h, w]. 0 \<le> d" by (rule shape_valid_nonneg [OF assms(7)])
  have D: "\<forall>d \<in> set [n, Ceil c c0, h, w, c0]. 0 \<le> d" by (rule shape_valid_nonneg [OF assms(8)])
  have p: "0 < n" "0 < c" "0 < h" "0 < w" using prod_list_posD [OF assms(9) S] by auto
  have pos: "0 < prod_list [n, Ceil c c0, h, w, c0]"
    using p assms(6) by (simp add: Ceil_gt_0)
  have "\<exists>cube. NchwNc1hwc0_TransFormat E args result = Inr cube \<and>
         Nc1hwc0Nchw_TransFormat E (reverse_args args cube) result' =
         Inr (result'\<lparr>res_data := Some bs,
           res_length := prod_list [n, c, h, w] * GetSizeByDataType E (arg_src_data_type args)\<rparr>)"
    using assms
    by (intro nchw_cube.transfer_roundtrip [where n = n and c = c and ?c0.0 = c0 and h = h and w = w
          and F = NchwNc1hwc0_TransFormat and B = Nc1hwc0Nchw_TransFormat, unfolded m,
          OF NchwNc1hwc0_ok [OF assms(1-8) pos assms(10)] assms(10,11) D S] Nc1hwc0Nchw_ok) auto
  then show ?thesis by (simp add: mult.assoc)
qed

theorem Nchw_cube_roundtrip_witness:
  "\<exists>cube. NchwNc1hwc0_TransFormat (ref_env 2 4)
            (plain_args FORMAT_NCHW FORMAT_NC1HWC0 [1, 3, 1, 1] [1, 1, 1, 1, 4] [1, 2, 3, 4, 5, 6]) no_result =
          Inr cube \<and>
        Nc1hwc0Nchw_TransFormat (ref_env 2 4)
            (reverse_args (plain_args FORMAT_NCHW FORMAT_NC1HWC0 [1, 3, 1, 1] [1, 1, 1, 1, 4]
               [1, 2, 3, 4, 5, 6]) cube) no_result =
          Inr \<lparr>res_data = Some [1, 2, 3, 4, 5, 6], res_length = 6\<rparr>"
proof -
  let ?args = "plain_args FORMAT_NCHW FORMAT_NC1HWC0 [1, 3, 1, 1] [1, 1, 1, 1, 4] [1, 2, 3, 4, 5, 6]"
  have C: "Ceil 3 4 = 1" by code_simp
  have v: "IsShapeValid [1, 3, 1, 1]" "IsShapeValid [1, 1, 1, 1, 4]" by code_simp+
  have "trans_ready (ref_env 2 4) ?args [1, 1, 1, 1, 4] [1, 3, 1, 1] [1, 2, 3, 4, 5, 6]"
    by (rule trans_ready_ref_env) simp_all
  then show ?thesis
    using Nchw_cube_roundtrip [of ?args 1 3 1 1 4 "ref_env 2 4" "[1, 2, 3, 4, 5, 6]" no_result no_result] v
    by (simp add: C alloc_ok_ref_env no_result_def)
qed

text \<open>
  C16: the same for channel-last tensors: NHWC to NC1HWC0 and back is the identity on the bytes.
\<close>

theorem Nhwc_cube_roundtrip:
  assumes "arg_src_primary_format args = FORMAT_NHWC" "arg_dst_primary_format args = FORMAT_NC1HWC0"
    and "arg_src_shape args = [n, h, w, c]" "arg_dst_shape args = [n, Ceil c c0, h, w, c0]"
    and "GetC0Value E (arg_dst_format args) = c0" "0 < c0"
    and "IsShapeValid [n, h, w, c]" "IsShapeValid [n, Ceil c c0, h, w, c0]"
    and "0 < prod_list [n, h, w, c]"
    and "trans_ready E args [n, Ceil c c0, h, w, c0] [n, h, w, c] bs"
    and "alloc_ok E (prod_list [n, h, w, c] * GetSizeByDataType E (arg_src_data_type args))"
  shows "\<exists>cube. NhwcNc1hwc0_TransFormat E args result = Inr cube \<and>
         Nc1hwc0Nhwc_TransFormat E (reverse_args args cube) result' =
         Inr (result'\<lparr>res_data := Some bs,
                       res_length := n * h * w * c * GetSizeByDataType E (arg_src_data_type args)\<rparr>)"
proof -
  have m: "max 1 c0 = c0" using assms(6) by simp
  have S: "\<forall>d \<in> set [n, h, w, c]. 0 \<le> d" by (rule shape_valid_nonneg [OF assms(7)])
  have D: "\<forall>d \<in> set [n, Ceil c c0, h, w, c0]. 0 \<le> d" by (rule shape_valid_nonneg [OF assms(8)])
  have p: "0 < n" "0 < c" "0 < h" "0 < w" using prod_list_posD [OF assms(9) S] by auto
  have pos: "0 < prod_list [n, Ceil c c0, h, w, c0]" using p assms(6) by (simp add: Ceil_gt_0)
  have "\<exists>cube. NhwcNc1hwc0_TransFormat E args result = Inr cube \<and>
         Nc1hwc0Nhwc_TransFormat E (reverse_args args cube) result' =
         Inr (result'\<lparr>res_data := Some bs,
           res_length := prod_list [n, h, w, c] * GetSizeByDataType E (arg_src_data_type args)\<rparr>)"
    using assms
    by (intro nhwc_cube.transfer_roundtrip [where n = n and c = c and ?c0.0 = c0 and h = h and w = w
          and F = NhwcNc1hwc0_TransFormat and B = Nc1hwc0Nhwc_TransFormat, unfolded m,
          OF NhwcNc1hwc0_ok [OF assms(1-8) pos assms(10)] assms(10,11) D S] Nc1hwc0Nhwc_ok) auto
  then show ?thesis by (simp add: mult.assoc)
qed

theorem Nhwc_cube_roundtrip_witness:
  "\<exists>cube. NhwcNc1hwc0_TransFormat (ref_env 1 2)
            (plain_args FORMAT_NHWC FORMAT_NC1HWC0 [1, 1, 2, 3] [1, 2, 1, 2, 2] [1, 2, 3, 4, 5, 6]) no_result =
          Inr cube \<and>
        Nc1hwc0Nhwc_TransFormat (ref_env 1 2)
            (reverse_args (plain_args FORMAT_NHWC FORMAT_NC1HWC0 [1, 1, 2, 3] [1, 2, 1, 2, 2]
               [1, 2, 3, 4, 5, 6]) cube) no_result =
          Inr \<lparr>res_data = Some [1, 2, 3, 4, 5, 6], res_length = 6\<rparr>"
proof -
  let ?args = "plain_args FORMAT_NHWC FORMAT_NC1HWC0 [1, 1, 2, 3] [1, 2, 1, 2, 2] [1, 2, 3, 4, 5, 6]"
  have C: "Ceil 3 2 = 2" by code_simp
  have v: "IsShapeValid [1, 1, 2, 3]" "IsShapeValid [1, 2, 1, 2, 2]" by code_simp+
  have "trans_ready (ref_env 1 2) ?args [1, 2, 1, 2, 2] [1, 1, 2, 3] [1, 2, 3, 4, 5, 6]"
    by (rule trans_ready_ref_env) simp_all
  then show ?thesis
    using Nhwc_cube_roundtrip [of ?args 1 1 2 3 2 "ref_env 1 2" "[1, 2, 3, 4, 5, 6]" no_result no_result] v
    by (simp add: C alloc_ok_ref_env no_result_def)
qed

end
