(* ===== verification/TransferC1hwncoc0.thy ===== *)
theory TransferC1hwncoc0
  imports TransferBase
begin

text \<open>
  The six-dimensional layout C1HWNCoC0 of convolution weights:
  \<^verbatim>\<open>format_transfer_hwcn_c1hwncoc0.cc\<close> and
  \<^verbatim>\<open>format_transfer_c1hwncoc0_hwcn.cc\<close>.  The channel axis is cut into blocks of \<open>c0\<close>, and
  every block becomes a diagonal \<open>c0\<close> by \<open>c0\<close> matrix.
\<close>

section \<open>HWCN to C1HWNCoC0\<close>

definition CheckDataTypeSupportedForTransShapeHwcnToC1hwncoc0 :: "DataType \<Rightarrow> bool" where
  "CheckDataTypeSupportedForTransShapeHwcnToC1hwncoc0 data_type =
     (data_type = DT_FLOAT \<or> data_type = DT_FLOAT16 \<or> data_type = DT_INT8)"

definition TransShapeHwcnToC1hwncoc0 :: "int list \<Rightarrow> int \<Rightarrow> int list res" where
  "TransShapeHwcnToC1hwncoc0 src_shape cube_size =
     rbind (vec_at src_shape kHwcnC) (\<lambda>c.
     rbind (vec_at src_shape kHwcnH) (\<lambda>h.
     rbind (vec_at src_shape kHwcnW) (\<lambda>w.
     rbind (vec_at src_shape kHwcnN) (\<lambda>n.
       let dst_shape = [Ceil c cube_size, h, w, n, cube_size, cube_size] in
       if \<not> CheckShapeValid dst_shape kC1hwncoc0DimsNum then Inl (Ret ACL_ERROR_GE_SHAPE_INVALID)
       else Inr dst_shape))))"

definition CheckArgsForHwcnToC1hwncoc0 :: "ge_env \<Rightarrow> TransArgs \<Rightarrow> unit res" where
  "CheckArgsForHwcnToC1hwncoc0 E args =
     (if arg_src_primary_format args \<noteq> FORMAT_HWCN \<or> arg_dst_primary_format args \<noteq> FORMAT_C1HWNCoC0
      then Inl (Ret ACL_ERROR_GE_FORMAT_INVALID)
      else if \<not> CheckDataTypeSupportedForTransShapeHwcnToC1hwncoc0 (arg_src_data_type args)
      then Inl (Ret ACL_ERROR_GE_DATATYPE_INVALID)
      else if \<not> CheckShapeValid (arg_src_shape args) kHwcnDimsNum
      then Inl (Ret ACL_ERROR_GE_SHAPE_INVALID)
      else if \<not> CheckShapeValid (arg_dst_shape args) kC1hwncoc0DimsNum
      then Inl (Ret ACL_ERROR_GE_SHAPE_INVALID)
      else
        let c0 = GetC0Value E (arg_dst_format args) in
        rbind (TransShapeHwcnToC1hwncoc0 (arg_src_shape args) c0) (\<lambda>expect_dst_shape.
          if arg_dst_shape args \<noteq> expect_dst_shape then Inl (Ret ACL_ERROR_GE_SHAPE_INVALID)
          else Inr ()))"

definition GetDstDataAfterTransForTransShapeHwcnToC1hwncoc0 ::
  "ge_env \<Rightarrow> TransArgs \<Rightarrow> TransResult \<Rightarrow> int \<Rightarrow> int \<Rightarrow> TransResult res" where
  "GetDstDataAfterTransForTransShapeHwcnToC1hwncoc0 E args result esz total_size =
     (case new_uint8 E total_size of
        None \<Rightarrow> Inl (Ret ACL_ERROR_GE_MEMORY_ALLOCATION)
      | Some dst \<Rightarrow>
        rbind (vec_at (arg_src_shape args) kHwcnH) (\<lambda>h.
        rbind (vec_at (arg_src_shape args) kHwcnW) (\<lambda>w.
        rbind (vec_at (arg_src_shape args) kHwcnC) (\<lambda>c.
        rbind (vec_at (arg_src_shape args) kHwcnN) (\<lambda>n.
        rbind (vec_at (arg_dst_shape args) kC1hwncoc0C1) (\<lambda>c1.
        rbind (vec_at (arg_dst_shape args) kC1hwncoc0C0) (\<lambda>c0.
        rbind (vec_at (arg_dst_shape args) kC1hwncoc0Co) (\<lambda>co.
          let coc0 = co * c0; ncoc0 = n * coc0; wncoc0 = w * ncoc0; hwncoc0 = h * wncoc0;
              cn = c * n; wcn = w * cn in
          rbind
            (for_upto c1 (\<lambda>c1_idx. let c1_head_addr = c1_idx * hwncoc0 in
               for_upto h (\<lambda>h_idx. let h_head_addr = c1_head_addr + h_idx * wncoc0 in
                 for_upto w (\<lambda>w_idx. let w_head_addr = h_head_addr + w_idx * ncoc0 in
                   for_upto n (\<lambda>n_idx. let n_head_addr = w_head_addr + n_idx * coc0 in
                     for_upto co (\<lambda>co_idx. let co_head_addr = n_head_addr + co_idx * c0 in
                       for_upto c0 (\<lambda>c0_idx dst.
                         let dst_idx = c0_idx + co_head_addr;
                             dst_offset = dst_idx * esz;
                             c_idx = c0_idx + c1_idx * c0 in
                         if c_idx < c \<and> c0_idx = co_idx then
                           let src_idx = h_idx * wcn + w_idx * cn + c_idx * n + n_idx;
                               src_offset = src_idx * esz in
                           copy_elem E dst total_size dst_offset (arg_data args) src_offset esz
                         else zero_elem E dst total_size dst_offset esz)))))) dst)
            (\<lambda>dst. Inr (result\<lparr>res_data := Some dst, res_length := total_size\<rparr>))))))))))"

definition HwcnC1hwncoc0_TransFormat :: "ge_env \<Rightarrow> TransArgs \<Rightarrow> TransResult \<Rightarrow> TransResult res" where
  "HwcnC1hwncoc0_TransFormat E args result =
     rbind (CheckArgsForHwcnToC1hwncoc0 E args) (\<lambda>_.
       let esz = GetSizeByDataType E (arg_src_data_type args);
           total_size = mul64 (GetItemNumByShape (arg_dst_shape args)) esz in
       if total_size \<le> 0 then
         let src_size = GetItemNumByShape (arg_src_shape args) in
         if total_size = 0 \<and> src_size = 0 then Inr (result\<lparr>res_length := total_size\<rparr>)
         else Inl (Ret ACL_ERROR_GE_SHAPE_INVALID)
       else GetDstDataAfterTransForTransShapeHwcnToC1hwncoc0 E args result esz total_size)"

definition HwcnC1hwncoc0_TransShape ::
  "ge_env \<Rightarrow> Format \<Rightarrow> int list \<Rightarrow> DataType \<Rightarrow> Format \<Rightarrow> int list res" where
  "HwcnC1hwncoc0_TransShape E src_format src_shape data_type dst_format =
     (let src_primary_format = GetPrimaryFormat E src_format in
      if src_primary_format = FORMAT_HWCN \<and> CheckDataTypeSupportedForTransShapeHwcnToC1hwncoc0 data_type then
        if \<not> CheckShapeValid src_shape kHwcnDimsNum then Inl (Ret ACL_ERROR_GE_SHAPE_INVALID)
        else let c0 = GetC0Value E dst_format in TransShapeHwcnToC1hwncoc0 src_shape c0
      else if src_primary_format \<noteq> FORMAT_HWCN then Inl (Ret ACL_ERROR_GE_FORMAT_INVALID)
      else Inl (Ret ACL_ERROR_GE_DATATYPE_INVALID))"

section \<open>C1HWNCoC0 to HWCN\<close>

definition CheckDataTypeSupportedForC1hwncoc0ToHwcn :: "DataType \<Rightarrow> bool" where
  "CheckDataTypeSupportedForC1hwncoc0ToHwcn data_type =
     (data_type = DT_FLOAT \<or> data_type = DT_FLOAT16 \<or> data_type = DT_INT8)"

definition CheckArgsForC1hwncoc0ToHwcn :: "ge_env \<Rightarrow> TransArgs \<Rightarrow> unit res" where
  "CheckArgsForC1hwncoc0ToHwcn E args =
     (let src = arg_src_shape args; dst = arg_dst_shape args in
      if arg_src_primary_format args \<noteq> FORMAT_C1HWNCoC0 \<or> arg_dst_primary_format args \<noteq> FORMAT_HWCN
      then Inl (Ret ACL_ERROR_GE_FORMAT_INVALID)
      else if \<not> CheckDataTypeSupportedForC1hwncoc0ToHwcn (arg_src_data_type args)
      then Inl (Ret ACL_ERROR_GE_DATATYPE_INVALID)
      else if \<not> CheckShapeValid src kC1hwncoc0DimsNum then Inl (Ret ACL_ERROR_GE_SHAPE_INVALID)
      else if \<not> CheckShapeValid dst kHwcnDimsNum then Inl (Ret ACL_ERROR_GE_SHAPE_INVALID)
      else
        let cube_size = GetC0Value E (arg_src_format args) in
        rbind (vec_at src kC1hwncoc0C1) (\<lambda>sc1. rbind (vec_at dst kHwcnC) (\<lambda>dc.
        if cube_size = 0 then Inl Undefined
        else
          rbind (vec_at src kC1hwncoc0H) (\<lambda>sh. rbind (vec_at dst kHwcnH) (\<lambda>dh.
          rbind (vec_at src kC1hwncoc0W) (\<lambda>sw. rbind (vec_at dst kHwcnW) (\<lambda>dw.
          rbind (vec_at src kC1hwncoc0N) (\<lambda>sn. rbind (vec_at dst kHwcnN) (\<lambda>dn.
          rbind (vec_at src kC1hwncoc0Co) (\<lambda>sco. rbind (vec_at src kC1hwncoc0C0) (\<lambda>sc0.
            if sc1 \<noteq> (dc - 1) sdiv cube_size + 1 \<or> sh \<noteq> dh \<or> sw \<noteq> dw \<or> sn \<noteq> dn \<or>
               sco \<noteq> cube_size \<or> sc0 \<noteq> cube_size
            then Inl (Ret ACL_ERROR_GE_SHAPE_INVALID) else Inr ())))))))))))"

definition GetDstDataAfterTransForC1hwncoc0ToHwcn ::
  "ge_env \<Rightarrow> TransArgs \<Rightarrow> TransResult \<Rightarrow> int \<Rightarrow> int \<Rightarrow> TransResult res" where
  "GetDstDataAfterTransForC1hwncoc0ToHwcn E args result esz total_size =
     (case new_uint8 E total_size of
        None \<Rightarrow> Inl (Ret ACL_ERROR_GE_MEMORY_ALLOCATION)
      | Some dst \<Rightarrow>
        rbind (vec_at (arg_src_shape args) kC1hwncoc0H) (\<lambda>h.
        rbind (vec_at (arg_src_shape args) kC1hwncoc0W) (\<lambda>w.
        rbind (vec_at (arg_src_shape args) kC1hwncoc0N) (\<lambda>n.
        rbind (vec_at (arg_src_shape args) kC1hwncoc0C0) (\<lambda>c0.
        rbind (vec_at (arg_src_shape args) kC1hwncoc0Co) (\<lambda>co.
        rbind (vec_at (arg_dst_shape args) kHwcnC) (\<lambda>c.
          let cube_size = GetC0Value E (arg_src_format args);
              cn = c * n; wcn = w * cn; coc0 = co * c0; ncoc0 = n * coc0; wncoc0 = w * ncoc0 in
          rbind
            (for_upto h (\<lambda>h_idx. let h_head_addr = h_idx * wcn in
               for_upto w (\<lambda>w_idx. let w_head_addr = h_head_addr + w_idx * cn in
                 for_upto c (\<lambda>c_idx. let c_head_addr = w_head_addr + c_idx * n in
                   for_upto n (\<lambda>n_idx dst.
                     if cube_size = 0 then Inl Undefined
                     else
                       let dst_idx = c_head_addr + n_idx;
                           c1_idx = c_idx sdiv cube_size;
                           c0_idx = c_idx smod cube_size;
                           co_idx = c0_idx;
                           hwncoc0 = h * wncoc0;
                           src_idx = c1_idx * hwncoc0 + h_idx * wncoc0 + w_idx * ncoc0 + n_idx * coc0 +
                                     co_idx * c0 + c0_idx;
                           src_offset = src_idx * esz;
                           dst_offset = dst_idx * esz in
                       copy_elem_raw E dst total_size dst_offset (arg_data args) src_offset esz)))) dst)
            (\<lambda>dst. Inr (result\<lparr>res_data := Some dst, res_length := total_size\<rparr>)))))))))"

definition C1hwncoc0Hwcn_TransFormat :: "ge_env \<Rightarrow> TransArgs \<Rightarrow> TransResult \<Rightarrow> TransResult res" where
  "C1hwncoc0Hwcn_TransFormat E args result =
     rbind (CheckArgsForC1hwncoc0ToHwcn E args) (\<lambda>_.
       let esz = GetSizeByDataType E (arg_src_data_type args);
           total_size = mul64 (GetItemNumByShape (arg_dst_shape args)) esz in
       if total_size \<le> 0 then
         let src_size = GetItemNumByShape (arg_src_shape args) in
         if total_size = 0 \<and> src_size = 0 then Inr (result\<lparr>res_length := total_size\<rparr>)
         else Inl (Ret ACL_ERROR_GE_SHAPE_INVALID)
       else GetDstDataAfterTransForC1hwncoc0ToHwcn E args result esz total_size)"

definition C1hwncoc0Hwcn_TransShape ::
  "ge_env \<Rightarrow> Format \<Rightarrow> int list \<Rightarrow> DataType \<Rightarrow> Format \<Rightarrow> int list res" where
  "C1hwncoc0Hwcn_TransShape E src_format src_shape data_type dst_format =
     Inl (Ret ACL_ERROR_GE_FORMAT_INVALID)"

section \<open>The layout maps\<close>

fun hwcn_of_c1hwncoc0 :: "int \<Rightarrow> int \<Rightarrow> int list \<Rightarrow> int list option" where
  "hwcn_of_c1hwncoc0 c c0 [c1, h, w, n, co, k] =
     (if k + c1 * c0 < c \<and> k = co then Some [h, w, k + c1 * c0, n] else None)"
| "hwcn_of_c1hwncoc0 c c0 _ = None"

fun c1hwncoc0_of_hwcn :: "int \<Rightarrow> int list \<Rightarrow> int list option" where
  "c1hwncoc0_of_hwcn c0 [h, w, c, n] = Some [c div c0, h, w, n, c mod c0, c mod c0]"
| "c1hwncoc0_of_hwcn c0 _ = None"

interpretation diag_cube: layout_inverse
  "[Ceil c (max 1 c0), h, w, n, max 1 c0, max 1 c0]" "[h, w, c, n]"
  "hwcn_of_c1hwncoc0 c (max 1 c0)" "c1hwncoc0_of_hwcn (max 1 c0)"
  for n c h w c0 :: int
proof unfold_locales
  fix i j assume "in_range [Ceil c (max 1 c0), h, w, n, max 1 c0, max 1 c0] i"
    "hwcn_of_c1hwncoc0 c (max 1 c0) i = Some j"
  then show "in_range [h, w, c, n] j" by (auto simp: in_range6 split: if_splits)
next
  fix i j assume "in_range [h, w, c, n] i" "c1hwncoc0_of_hwcn (max 1 c0) i = Some j"
  then show "in_range [Ceil c (max 1 c0), h, w, n, max 1 c0, max 1 c0] j"
    by (auto simp: in_range4 Ceil_covers pos_imp_zdiv_nonneg_iff)
next
  fix j assume "in_range [h, w, c, n] j"
  then show "\<exists>i. c1hwncoc0_of_hwcn (max 1 c0) j = Some i \<and> hwcn_of_c1hwncoc0 c (max 1 c0) i = Some j"
    by (auto simp: in_range4 mod_div_mult_eq)
qed

section \<open>The transfers compute the layout maps\<close>

lemma HwcnToC1hwncoc0_data:
  assumes ready: "trans_ready E args [Ceil c c0, h, w, n, c0, c0] [h, w, c, n] bs"
    and shape: "arg_src_shape args = [h, w, c, n]" "arg_dst_shape args = [Ceil c c0, h, w, n, c0, c0]"
    and c0: "0 < c0"
    and dims: "0 \<le> h" "0 \<le> w" "0 \<le> c" "0 \<le> n"
    and esz: "esz = GetSizeByDataType E (arg_src_data_type args)"
    and total: "total_size = prod_list [Ceil c c0, h, w, n, c0, c0] * esz"
  shows "GetDstDataAfterTransForTransShapeHwcnToC1hwncoc0 E args result esz total_size =
         Inr (trans_output E args [Ceil c c0, h, w, n, c0, c0] [h, w, c, n] (hwcn_of_c1hwncoc0 c c0) bs result)"
proof -
  have m: "max 1 c0 = c0" using c0 by simp
  note R = guarded.new_relayout_elem
    [OF diag_cube.fwd.layout_map_axioms [where n = n and c = c and ?c0.0 = c0 and h = h and w = w, unfolded m]
       ready _ in_range_indices esz total]
  show ?thesis
    unfolding GetDstDataAfterTransForTransShapeHwcnToC1hwncoc0_def
    by (simp add: shape Let_def for6 vec_at_in cong: option.case_cong if_cong; rule R)
       (auto simp: dims c0 less_imp_le Ceil_nonneg in_range6 algebra_simps)
qed

lemma C1hwncoc0ToHwcn_data:
  assumes ready: "trans_ready E args [h, w, c, n] [Ceil c c0, h, w, n, c0, c0] bs"
    and shape: "arg_src_shape args = [Ceil c c0, h, w, n, c0, c0]" "arg_dst_shape args = [h, w, c, n]"
    and c0: "GetC0Value E (arg_src_format args) = c0" "0 < c0"
    and dims: "0 \<le> h" "0 \<le> w" "0 \<le> c" "0 \<le> n"
    and esz: "esz = GetSizeByDataType E (arg_src_data_type args)"
    and total: "total_size = prod_list [h, w, c, n] * esz"
  shows "GetDstDataAfterTransForC1hwncoc0ToHwcn E args result esz total_size =
         Inr (trans_output E args [h, w, c, n] [Ceil c c0, h, w, n, c0, c0] (c1hwncoc0_of_hwcn c0) bs result)"
proof -
  have m: "max 1 c0 = c0" and nz: "c0 \<noteq> 0" using c0 by simp_all
  note R = guarded_raw.new_relayout_elem
    [OF diag_cube.bwd.layout_map_axioms [where n = n and c = c and ?c0.0 = c0 and h = h and w = w, unfolded m]
       ready _ in_range_indices esz total]
  show ?thesis
    unfolding GetDstDataAfterTransForC1hwncoc0ToHwcn_def
    by (simp add: shape nz c0 Let_def for4 vec_at_in cong: option.case_cong; rule R)
       (auto simp: dims c0 in_range4 sdiv_nonneg smod_nonneg algebra_simps)
qed

lemma HwcnC1hwncoc0_ok:
  assumes fmt: "arg_src_primary_format args = FORMAT_HWCN" "arg_dst_primary_format args = FORMAT_C1HWNCoC0"
    and dt: "arg_src_data_type args \<in> {DT_FLOAT, DT_FLOAT16, DT_INT8}"
    and shape: "arg_src_shape args = [h, w, c, n]" "arg_dst_shape args = [Ceil c c0, h, w, n, c0, c0]"
    and c0: "GetC0Value E (arg_dst_format args) = c0" "0 < c0"
    and valid: "IsShapeValid [h, w, c, n]" "IsShapeValid [Ceil c c0, h, w, n, c0, c0]"
    and pos: "0 < prod_list [Ceil c c0, h, w, n, c0, c0]"
    and ready: "trans_ready E args [Ceil c c0, h, w, n, c0, c0] [h, w, c, n] bs"
  shows "HwcnC1hwncoc0_TransFormat E args result =
         Inr (trans_output E args [Ceil c c0, h, w, n, c0, c0] [h, w, c, n] (hwcn_of_c1hwncoc0 c c0) bs result)"
proof -
  note r = trans_readyD [OF ready]
  have d: "0 \<le> h" "0 \<le> w" "0 \<le> c" "0 \<le> n" using shape_valid_nonneg [OF valid(1)] by auto
  have "0 < prod_list [Ceil c c0, h, w, n, c0, c0] * GetSizeByDataType E (arg_src_data_type args)"
    using pos r(2) by (rule mult_pos_pos)
  then show ?thesis
    using HwcnToC1hwncoc0_data [OF ready shape c0(2) d refl refl] total_size_valid [OF valid(2) r(4)]
      c0 valid dt
    by (simp add: HwcnC1hwncoc0_TransFormat_def CheckArgsForHwcnToC1hwncoc0_def TransShapeHwcnToC1hwncoc0_def
        CheckDataTypeSupportedForTransShapeHwcnToC1hwncoc0_def fmt shape check_shape_valid vec_at_in Let_def)
qed

lemma C1hwncoc0Hwcn_ok:
  assumes fmt: "arg_src_primary_format args = FORMAT_C1HWNCoC0" "arg_dst_primary_format args = FORMAT_HWCN"
    and dt: "arg_src_data_type args \<in> {DT_FLOAT, DT_FLOAT16, DT_INT8}"
    and shape: "arg_src_shape args = [Ceil c c0, h, w, n, c0, c0]" "arg_dst_shape args = [h, w, c, n]"
    and c0: "GetC0Value E (arg_src_format args) = c0" "0 < c0"
    and valid: "IsShapeValid [h, w, c, n]" "IsShapeValid [Ceil c c0, h, w, n, c0, c0]"
    and pos: "0 < prod_list [h, w, c, n]"
    and ready: "trans_ready E args [h, w, c, n] [Ceil c c0, h, w, n, c0, c0] bs"
  shows "C1hwncoc0Hwcn_TransFormat E args result =
         Inr (trans_output E args [h, w, c, n] [Ceil c c0, h, w, n, c0, c0] (c1hwncoc0_of_hwcn c0) bs result)"
proof -
  note r = trans_readyD [OF ready]
  have d: "0 \<le> h" "0 \<le> w" "0 \<le> c" "0 \<le> n" using shape_valid_nonneg [OF valid(1)] by auto
  have "c \<noteq> 0" using pos by auto
  then have c: "(c - 1) sdiv c0 + 1 = Ceil c c0" using c0 by (simp add: Ceil_def)
  have "0 < prod_list [h, w, c, n] * GetSizeByDataType E (arg_src_data_type args)"
    using pos r(2) by (rule mult_pos_pos)
  then show ?thesis
    using C1hwncoc0ToHwcn_data [OF ready shape c0 d refl refl] total_size_valid [OF valid(1) r(4)]
      c0 valid dt
    by (simp add: C1hwncoc0Hwcn_TransFormat_def CheckArgsForC1hwncoc0ToHwcn_def c
        CheckDataTypeSupportedForC1hwncoc0ToHwcn_def fmt shape check_shape_valid vec_at_in Let_def)
qed

section \<open>Properties\<close>

text \<open>
  C17: convolution weights taken from HWCN to C1HWNCoC0 and back are, byte for byte, the
  weights they were; the forward transfer spreads every channel block over the diagonal of
  a \<open>c0\<close> by \<open>c0\<close> matrix, the backward transfer reads the diagonal only.
\<close>

theorem Hwcn_diag_roundtrip:
  assumes "arg_src_primary_format args = FORMAT_HWCN" "arg_dst_primary_format args = FORMAT_C1HWNCoC0"
    and "arg_src_data_type args \<in> {DT_FLOAT, DT_FLOAT16, DT_INT8}"
    and "arg_src_shape args = [h, w, c, n]" "arg_dst_shape args = [Ceil c c0, h, w, n, c0, c0]"
    and "GetC0Value E (arg_dst_format args) = c0" "0 < c0"
    and "IsShapeValid [h, w, c, n]" "IsShapeValid [Ceil c c0, h, w, n, c0, c0]"
    and "0 < prod_list [h, w, c, n]"
    and "trans_ready E args [Ceil c c0, h, w, n, c0, c0] [h, w, c, n] bs"
    and "alloc_ok E (prod_list [h, w, c, n] * GetSizeByDataType E (arg_src_data_type args))"
  shows "\<exists>cube. HwcnC1hwncoc0_TransFormat E args result = Inr cube \<and>
         C1hwncoc0Hwcn_TransFormat E (reverse_args args cube) result' =
         Inr (result'\<lparr>res_data := Some bs,
                       res_length := h * w * c * n * GetSizeByDataType E (arg_src_data_type args)\<rparr>)"
proof -
  have m: "max 1 c0 = c0" using assms(7) by simp
  have S: "\<forall>d \<in> set [h, w, c, n]. 0 \<le> d" by (rule shape_valid_nonneg [OF assms(8)])
  have D: "\<forall>d \<in> set [Ceil c c0, h, w, n, c0, c0]. 0 \<le> d" by (rule shape_valid_nonneg [OF assms(9)])
  have p: "0 < n" "0 < c" "0 < h" "0 < w" using prod_list_posD [OF assms(10) S] by auto
  have pos: "0 < prod_list [Ceil c c0, h, w, n, c0, c0]" using p assms(7) by (simp add: Ceil_gt_0)
  have "\<exists>cube. HwcnC1hwncoc0_TransFormat E args result = Inr cube \<and>
         C1hwncoc0Hwcn_TransFormat E (reverse_args args cube) result' =
         Inr (result'\<lparr>res_data := Some bs,
           res_length := prod_list [h, w, c, n] * GetSizeByDataType E (arg_src_data_type args)\<rparr>)"
    using assms
    by (intro diag_cube.transfer_roundtrip [where n = n and c = c and ?c0.0 = c0 and h = h and w = w
          and F = HwcnC1hwncoc0_TransFormat and B = C1hwncoc0Hwcn_TransFormat, unfolded m,
          OF HwcnC1hwncoc0_ok [OF assms(1-9) pos assms(11)] assms(11,12) D S] C1hwncoc0Hwcn_ok) auto
  then show ?thesis by (simp add: mult.assoc)
qed

theorem Hwcn_diag_roundtrip_witness:
  "\<exists>cube. HwcnC1hwncoc0_TransFormat (ref_env 2 2)
            (plain_args FORMAT_HWCN FORMAT_C1HWNCoC0 [1, 1, 3, 1] [2, 1, 1, 1, 2, 2] [1, 2, 3, 4, 5, 6]) no_result =
          Inr cube \<and>
        C1hwncoc0Hwcn_TransFormat (ref_env 2 2)
            (reverse_args (plain_args FORMAT_HWCN FORMAT_C1HWNCoC0 [1, 1, 3, 1] [2, 1, 1, 1, 2, 2]
               [1, 2, 3, 4, 5, 6]) cube) no_result =
          Inr \<lparr>res_data = Some [1, 2, 3, 4, 5, 6], res_length = 6\<rparr>"
proof -
  let ?args = "plain_args FORMAT_HWCN FORMAT_C1HWNCoC0 [1, 1, 3, 1] [2, 1, 1, 1, 2, 2] [1, 2, 3, 4, 5, 6]"
  have C: "Ceil 3 2 = 2" by code_simp
  have v: "IsShapeValid [1, 1, 3, 1]" "IsShapeValid [2, 1, 1, 1, 2, 2]" by code_simp+
  have "trans_ready (ref_env 2 2) ?args [2, 1, 1, 1, 2, 2] [1, 1, 3, 1] [1, 2, 3, 4, 5, 6]"
    by (rule trans_ready_ref_env) simp_all
  then show ?thesis
    using Hwcn_diag_roundtrip [of ?args 1 1 3 1 2 "ref_env 2 2" "[1, 2, 3, 4, 5, 6]" no_result no_result] v
    by (simp add: C alloc_ok_ref_env no_result_def)
qed

end
