(* ===== verification/TransferFracZ.thy ===== *)
theory TransferFracZ
  imports TransferBase
begin

text \<open>
  The FRACTAL\_Z layout of convolution weights: \<^verbatim>\<open>format_transfer_fractal_z.cc\<close>,
  \<^verbatim>\<open>format_transfer_fractal_z_tbe.cc\<close> and the ways back
  \<^verbatim>\<open>format_transfer_fracz_nchw.cc\<close>, \<^verbatim>\<open>format_transfer_fracz_hwcn.cc\<close>,
  \<^verbatim>\<open>format_transfer_fracz_nhwc.cc\<close>.  The axes are
  (C1*H*W, No, Ni, C0) with \<open>Ni = 16\<close>, \<open>No = Ceil n 16\<close>, \<open>C1 = Ceil c c0\<close>; the theorems
  index the same memory as (C1, H, W, No*Ni, C0).

  The products from which the length of the destination is computed wrap at 64 bits; one
  \<open>wrap64\<close> of the exact product is what wrapping at every multiplication gives.  The index
  arithmetic in the loops is below that length and is exact.
\<close>

section \<open>Shapes\<close>

definition CheckDataTypeSupportForTransferFractalZ :: "ge_env \<Rightarrow> DataType \<Rightarrow> unit res" where
  "CheckDataTypeSupportForTransferFractalZ E data_type =
     (if 0 < GetSizeByDataType E data_type then Inr () else Inl (Ret UNSUPPORTED))"

definition TransShapeToFz :: "int \<Rightarrow> int \<Rightarrow> int \<Rightarrow> int \<Rightarrow> int \<Rightarrow> int list res" where
  "TransShapeToFz n c h w c0 =
     (if c0 < 0 then Inl (Ret ACL_ERROR_GE_DATATYPE_INVALID)
      else
        let c1 = Ceil c c0; no = Ceil n kNiSize;
            dst_shape = [mul64 (mul64 h w) c1, no, kNiSize, c0] in
        if \<not> IsShapeValid dst_shape then Inl (Ret ACL_ERROR_GE_SHAPE_INVALID) else Inr dst_shape)"

text \<open>
  The enlargement factor of a grouped convolution, computed by \<open>TransShapeToFzWithGroups\<close>
  and by \<open>TransFormatHwcnToFzWithGroups\<close> with the same expression.
\<close>

definition fz_e_mult :: "int \<Rightarrow> int \<Rightarrow> int \<Rightarrow> int \<Rightarrow> int" where
  "fz_e_mult cin_ori cout_ori cube_k groups =
     min (Lcm_ge (Lcm_ge cin_ori cube_k sdiv cin_ori) (Lcm_ge cout_ori kCubeSize sdiv cout_ori)) groups"

definition TransShapeToFzWithGroups :: "int \<Rightarrow> int \<Rightarrow> int \<Rightarrow> int \<Rightarrow> int \<Rightarrow> int \<Rightarrow> int list res" where
  "TransShapeToFzWithGroups n c h w c0 groups =
     (if c0 < 0 then Inl (Ret ACL_ERROR_GE_DATATYPE_INVALID)
      else if groups = 0 then Inl Undefined
      else
        let cin_ori = c; cout_ori = n sdiv groups; cube_k = c0 in
        if cout_ori = 0 then Inl (Ret FAILED)
        else if cin_ori = 0 \<or> cube_k = 0 then Inl Undefined
        else
          let e_mult = fz_e_mult cin_ori cout_ori cube_k groups;
              cin_opt = mul64 (Ceil (mul64 e_mult cin_ori) cube_k) cube_k;
              c1_dim = cin_opt sdiv cube_k;
              g_dim = Ceil groups e_mult;
              n1 = Ceil (mul64 cout_ori e_mult) kCubeSize;
              dst_shape = [mul64 (mul64 (mul64 g_dim c1_dim) h) w, n1, 16, cube_k] in
          if \<not> IsShapeValid dst_shape then Inl (Ret ACL_ERROR_GE_SHAPE_INVALID) else Inr dst_shape)"

definition TransShapeNchwToFz :: "ge_env \<Rightarrow> int list \<Rightarrow> Format \<Rightarrow> int list res" where
  "TransShapeNchwToFz E src_shape dst_format =
     (if \<not> CheckShapeValid src_shape kNchwDimsNum then Inl (Ret ACL_ERROR_GE_SHAPE_INVALID)
      else
        rbind (vec_at src_shape kNchwN) (\<lambda>n. rbind (vec_at src_shape kNchwC) (\<lambda>c.
        rbind (vec_at src_shape kNchwH) (\<lambda>h. rbind (vec_at src_shape kNchwW) (\<lambda>w.
          TransShapeToFz n c h w (GetC0Value E dst_format))))))"

definition TransShapeHwcnToFz :: "ge_env \<Rightarrow> int list \<Rightarrow> Format \<Rightarrow> int list res" where
  "TransShapeHwcnToFz E src_shape dst_format =
     (if \<not> CheckShapeValid src_shape kHwcnDimsNum then Inl (Ret ACL_ERROR_GE_SHAPE_INVALID)
      else
        rbind (vec_at src_shape kHwcnH) (\<lambda>h. rbind (vec_at src_shape kHwcnW) (\<lambda>w.
        rbind (vec_at src_shape kHwcnC) (\<lambda>c. rbind (vec_at src_shape kHwcnN) (\<lambda>n.
          TransShapeToFz n c h w (GetC0Value E dst_format))))))"

definition TransShapeHwcnToFzWithGroups :: "ge_env \<Rightarrow> int list \<Rightarrow> Format \<Rightarrow> int \<Rightarrow> int list res" where
  "TransShapeHwcnToFzWithGroups E src_shape dst_format groups =
     (if \<not> CheckShapeValid src_shape kHwcnDimsNum then Inl (Ret ACL_ERROR_GE_SHAPE_INVALID)
      else
        rbind (vec_at src_shape kHwcnH) (\<lambda>h. rbind (vec_at src_shape kHwcnW) (\<lambda>w.
        rbind (vec_at src_shape kHwcnC) (\<lambda>c. rbind (vec_at src_shape kHwcnN) (\<lambda>n.
          TransShapeToFzWithGroups n c h w (GetC0Value E dst_format) groups)))))"

definition TransShapeNchwToFzWithGroups :: "ge_env \<Rightarrow> int list \<Rightarrow> Format \<Rightarrow> int \<Rightarrow> int list res" where
  "TransShapeNchwToFzWithGroups E src_shape dst_format groups =
     (if \<not> CheckShapeValid src_shape kNchwDimsNum then Inl (Ret ACL_ERROR_GE_SHAPE_INVALID)
      else
        rbind (vec_at src_shape kNchwN) (\<lambda>n. rbind (vec_at src_shape kNchwC) (\<lambda>c.
        rbind (vec_at src_shape kNchwH) (\<lambda>h. rbind (vec_at src_shape kNchwW) (\<lambda>w.
          TransShapeToFzWithGroups n c h w (GetC0Value E dst_format) groups)))))"

definition TransShapeNhwcToFz :: "ge_env \<Rightarrow> int list \<Rightarrow> Format \<Rightarrow> int list res" where
  "TransShapeNhwcToFz E src_shape dst_format =
     (if \<not> CheckShapeValid src_shape kNhwcDimsNum then Inl (Ret ACL_ERROR_GE_SHAPE_INVALID)
      else
        rbind (vec_at src_shape kNhwcN) (\<lambda>n. rbind (vec_at src_shape kNhwcH) (\<lambda>h.
        rbind (vec_at src_shape kNhwcW) (\<lambda>w. rbind (vec_at src_shape kNhwcC) (\<lambda>c.
          TransShapeToFz n c h w (GetC0Value E dst_format))))))"

definition FractalZ_TransShape ::
  "ge_env \<Rightarrow> Format \<Rightarrow> int list \<Rightarrow> DataType \<Rightarrow> Format \<Rightarrow> int list res" where
  "FractalZ_TransShape E src_format src_shape data_type dst_format =
     (let src_primary_format = GetPrimaryFormat E src_format;
          dst_primary_format = GetPrimaryFormat E dst_format in
      if CheckDataTypeSupportForTransferFractalZ E data_type \<noteq> Inr ()
      then Inl (Ret ACL_ERROR_GE_DATATYPE_INVALID)
      else if src_primary_format = FORMAT_NHWC \<and> dst_primary_format = FORMAT_FRACTAL_Z
      then TransShapeNhwcToFz E src_shape dst_format
      else if src_primary_format = FORMAT_HWCN \<and> dst_primary_format = FORMAT_FRACTAL_Z
      then if 1 < GetSubFormat E dst_format
           then TransShapeHwcnToFzWithGroups E src_shape dst_format (GetSubFormat E dst_format)
           else TransShapeHwcnToFz E src_shape dst_format
      else if src_primary_format = FORMAT_NCHW \<and> dst_primary_format = FORMAT_FRACTAL_Z
      then if 1 < GetSubFormat E dst_format
           then TransShapeNchwToFzWithGroups E src_shape dst_format (GetSubFormat E dst_format)
           else TransShapeNchwToFz E src_shape dst_format
      else Inl (Ret ACL_ERROR_GE_FORMAT_INVALID))"

section \<open>Data, 4D to FRACTAL\_Z\<close>

definition TransFormatFromNchwToFz :: "ge_env \<Rightarrow> TransArgs \<Rightarrow> TransResult \<Rightarrow> TransResult res" where
  "TransFormatFromNchwToFz E args result =
     rbind (vec_at (arg_src_shape args) kNchwN) (\<lambda>n.
     rbind (vec_at (arg_src_shape args) kNchwC) (\<lambda>c.
     rbind (vec_at (arg_src_shape args) kNchwH) (\<lambda>h.
     rbind (vec_at (arg_src_shape args) kNchwW) (\<lambda>w.
       let c0 = GetC0Value E (arg_dst_format args);
           c1 = Ceil c c0;
           hw = h * w; chw = c * hw; nchw = n * chw; hwc0 = hw * c0;
           hf_cnt = Ceil n kNiSize;
           vf_cnt = c1 * hw;
           fractal_ele_cnt = c0 * kNiSize;
           total_ele_cnt = hf_cnt * vf_cnt * fractal_ele_cnt;
           esz = GetSizeByDataType E (arg_src_data_type args);
           dst_size = wrap64 (total_ele_cnt * esz) in
       if dst_size = 0 then Inr (result\<lparr>res_length := dst_size\<rparr>)
       else
         case new_uint8 E dst_size of
           None \<Rightarrow> Inl (Ret ACL_ERROR_GE_MEMORY_ALLOCATION)
         | Some dst \<Rightarrow>
           rbind
             (for_upto vf_cnt (\<lambda>vfi. let vf_base_i = vfi * hf_cnt in
                for_upto hf_cnt (\<lambda>hfi.
                  let gfi = vf_base_i + hfi;
                      src_n_offset = hfi * chw * kNiSize;
                      src_f_offset = src_n_offset + vfi smod hw + vfi sdiv hw * hwc0 in
                  for_upto c0 (\<lambda>row.
                    let src_ci = vfi sdiv hw * c0 + row;
                        src_row_offset = src_f_offset + row * hw in
                    for_upto kNiSize (\<lambda>col dst.
                      let src_ni = hfi * kNiSize + col;
                          src_offset = src_row_offset + chw * col;
                          need_pad_zero = (n \<le> src_ni \<or> nchw \<le> src_offset \<or> c \<le> src_ci);
                          idx = gfi * fractal_ele_cnt + col * c0 + row;
                          offset = idx * esz in
                      if need_pad_zero then zero_elem_raw E dst dst_size offset esz
                      else copy_elem_bytes E dst dst_size offset (arg_data args) (src_offset * esz) esz)))) dst)
             (\<lambda>dst. Inr (result\<lparr>res_data := Some dst, res_length := dst_size\<rparr>))))))"

definition TransFormatHwcnToFz :: "ge_env \<Rightarrow> TransArgs \<Rightarrow> TransResult \<Rightarrow> TransResult res" where
  "TransFormatHwcnToFz E args result =
     rbind (vec_ix (arg_src_shape args) kHwcnH) (\<lambda>h.
     rbind (vec_ix (arg_src_shape args) kHwcnW) (\<lambda>w.
     rbind (vec_ix (arg_src_shape args) kHwcnC) (\<lambda>c.
     rbind (vec_ix (arg_src_shape args) kHwcnN) (\<lambda>n.
       let n1n0 = Ceil n kNiSize * kNiSize;
           c0 = GetC0Value E (arg_dst_format args);
           c1 = Ceil c c0;
           cn = c * n; wcn = w * cn; n1n0c0 = n1n0 * c0; wn1n0c0 = w * n1n0c0; hwn1n0c0 = h * wn1n0c0;
           data_size = GetSizeByDataType E (arg_src_data_type args);
           dst_size = mul64 (foldl mul64 1 (arg_dst_shape args)) data_size in
       if dst_size = 0 then Inr (result\<lparr>res_length := dst_size\<rparr>)
       else
         case new_uint8 E dst_size of
           None \<Rightarrow> Inl (Ret ACL_ERROR_GE_MEMORY_ALLOCATION)
         | Some dst \<Rightarrow>
           rbind
             (for_upto c1 (\<lambda>c1i. for_upto h (\<lambda>hi. for_upto w (\<lambda>wi. for_upto n1n0 (\<lambda>n1n0i.
                for_upto c0 (\<lambda>c0i dst.
                  let dst_idx = c1i * hwn1n0c0 + hi * wn1n0c0 + wi * n1n0c0 + n1n0i * c0 + c0i;
                      dst_offset = dst_idx * data_size;
                      pad_zero = (c \<le> c1i * c0 + c0i \<or> n \<le> n1n0i) in
                  if pad_zero then zero_elem_raw E dst dst_size dst_offset data_size
                  else
                    let src_idx = hi * wcn + wi * cn + (c1i * c0 + c0i) * n + n1n0i in
                    copy_elem_bytes E dst dst_size dst_offset (arg_data args) (src_idx * data_size) data_size))))) dst)
             (\<lambda>dst. Inr (result\<lparr>res_data := Some dst, res_length := dst_size\<rparr>))))))"

definition TransFormatNhwcToFz :: "ge_env \<Rightarrow> TransArgs \<Rightarrow> TransResult \<Rightarrow> TransResult res" where
  "TransFormatNhwcToFz E args result =
     rbind (vec_ix (arg_src_shape args) kNhwcN) (\<lambda>n.
     rbind (vec_ix (arg_src_shape args) kNhwcH) (\<lambda>h.
     rbind (vec_ix (arg_src_shape args) kNhwcW) (\<lambda>w.
     rbind (vec_ix (arg_src_shape args) kNhwcC) (\<lambda>c.
       let wc = w * c; hwc = h * w * c;
           n1n0 = Ceil n kNiSize * kNiSize;
           c0 = GetC0Value E (arg_dst_format args);
           c1 = Ceil c c0;
           n1n0c0 = n1n0 * c0; wn1n0c0 = w * n1n0c0; hwn1n0c0 = h * wn1n0c0;
           data_size = GetSizeByDataType E (arg_src_data_type args);
           dst_size = mul64 (foldl mul64 1 (arg_dst_shape args)) data_size in
       if dst_size = 0 then Inr (result\<lparr>res_length := dst_size\<rparr>)
       else
         case new_uint8 E dst_size of
           None \<Rightarrow> Inl (Ret ACL_ERROR_GE_MEMORY_ALLOCATION)
         | Some dst \<Rightarrow>
           rbind
             (for_upto c1 (\<lambda>c1i. for_upto h (\<lambda>hi. for_upto w (\<lambda>wi. for_upto n1n0 (\<lambda>n1n0i.
                for_upto c0 (\<lambda>c0i dst.
                  let dst_idx = c1i * hwn1n0c0 + hi * wn1n0c0 + wi * n1n0c0 + n1n0i * c0 + c0i;
                      dst_offset = dst_idx * data_size;
                      pad_zero = (c \<le> c1i * c0 + c0i \<or> n \<le> n1n0i) in
                  if pad_zero then zero_elem_raw E dst dst_size dst_offset data_size
                  else
                    let src_idx = n1n0i * hwc + hi * wc + wi * c + (c1i * c0 + c0i) in
                    copy_elem_bytes E dst dst_size dst_offset (arg_data args) (src_idx * data_size) data_size))))) dst)
             (\<lambda>dst. Inr (result\<lparr>res_data := Some dst, res_length := dst_size\<rparr>))))))"

text \<open>
  Grouped convolutions: the destination is cleared as a whole, then every source element
  is copied to its place.  \<open>kDim\<close> is the constant 1 of the source file.
\<close>

definition kDim :: int where "kDim = 1"

definition TransFormatHwcnToFzWithGroups ::
  "ge_env \<Rightarrow> TransArgs \<Rightarrow> TransResult \<Rightarrow> int \<Rightarrow> TransResult res" where
  "TransFormatHwcnToFzWithGroups E args result groups =
     rbind (vec_ix (arg_src_shape args) kHwcnH) (\<lambda>h_dim.
     rbind (vec_ix (arg_src_shape args) kHwcnW) (\<lambda>w_dim.
     rbind (vec_ix (arg_src_shape args) kHwcnC) (\<lambda>c_dim.
     rbind (vec_ix (arg_src_shape args) kHwcnN) (\<lambda>n_dim.
       if groups = 0 then Inl Undefined
       else
       let cin_ori = c_dim; cout_ori = n_dim sdiv groups in
       if cin_ori = 0 \<or> cout_ori = 0 then Inl (Ret GRAPH_FAILED)
       else
       let cube_k = GetC0Value E (arg_dst_format args) in
       if cube_k = 0 then Inl Undefined
       else
       let e_mult = fz_e_mult cin_ori cout_ori cube_k groups;
           cin_opt = mul64 (Ceil (mul64 e_mult cin_ori) cube_k) cube_k;
           cout_opt = mul64 (Ceil (mul64 e_mult cout_ori) kCubeSize) kCubeSize;
           c1_dim = cin_opt sdiv cube_k;
           g_dim = Ceil groups e_mult;
           dim_cin = cin_opt sdiv cube_k;
           data_size = GetSizeByDataType E (arg_src_data_type args);
           size_output_data =
             wrap64 (g_dim * kDim * dim_cin * h_dim * w_dim * cout_opt * cube_k * data_size) in
       if size_output_data = 0 then Inr (result\<lparr>res_length := size_output_data\<rparr>)
       else
         case new_uint8 E size_output_data of
           None \<Rightarrow> Inl (Ret ACL_ERROR_GE_MEMORY_ALLOCATION)
         | Some dst \<Rightarrow>
           rbind (memset_checked E ACL_ERROR_GE_MEMORY_OPERATE_FAILED dst (Some 0) size_output_data
                    size_output_data) (\<lambda>dst.
           rbind
             (for_upto groups (\<lambda>g. for_upto kDim (\<lambda>d. for_upto c_dim (\<lambda>c. for_upto h_dim (\<lambda>h.
                for_upto w_dim (\<lambda>w. for_upto cout_ori (\<lambda>n dst.
                  let e_val = g smod e_mult;
                      dst_ci = e_val * cin_ori + c;
                      dst_co = e_val * cout_ori + n;
                      src_co = g * cout_ori + n;
                      tempory = dst_ci smod cube_k;
                      dst_inx = g sdiv e_mult * kDim * c1_dim * h_dim * w_dim * cout_opt * cube_k +
                                d * c1_dim * h_dim * w_dim * cout_opt * cube_k +
                                dst_ci sdiv cube_k * h_dim * w_dim * cout_opt * cube_k +
                                h * w_dim * cout_opt * cube_k + w * cout_opt * cube_k +
                                dst_co * cube_k + tempory;
                      srx_inx = d * h_dim * w_dim * c_dim * n_dim + h * w_dim * c_dim * n_dim +
                                w * c_dim * n_dim + c * n_dim + src_co in
                  copy_bytes dst (dst_inx * data_size) (arg_data args) (srx_inx * data_size) data_size)))))) dst)
             (\<lambda>dst. Inr (result\<lparr>res_data := Some dst, res_length := size_output_data\<rparr>)))))))"

definition FractalZ_TransFormat :: "ge_env \<Rightarrow> TransArgs \<Rightarrow> TransResult \<Rightarrow> TransResult res" where
  "FractalZ_TransFormat E args result =
     rbind (FractalZ_TransShape E (arg_src_format args) (arg_src_shape args) (arg_src_data_type args)
              (arg_dst_format args)) (\<lambda>expect_shape.
       if \<not> IsTransShapeDstCorrect args expect_shape then Inl (Ret ACL_ERROR_GE_SHAPE_INVALID)
       else if arg_src_primary_format args = FORMAT_NHWC \<and> arg_dst_primary_format args = FORMAT_FRACTAL_Z
       then TransFormatNhwcToFz E args result
       else if arg_src_primary_format args = FORMAT_HWCN \<and> arg_dst_primary_format args = FORMAT_FRACTAL_Z
       then if 1 < arg_dst_sub_format args
            then TransFormatHwcnToFzWithGroups E args result (arg_dst_sub_format args)
            else TransFormatHwcnToFz E args result
       else if arg_src_primary_format args = FORMAT_NCHW \<and> arg_dst_primary_format args = FORMAT_FRACTAL_Z
       then TransFormatFromNchwToFz E args result
       else Inl (Ret ACL_ERROR_GE_FORMAT_INVALID))"

section \<open>Two-dimensional weights to FRACTAL\_Z\<close>

definition TransShapeNdToFz :: "ge_env \<Rightarrow> int list \<Rightarrow> Format \<Rightarrow> int list res" where
  "TransShapeNdToFz E src_shape dst_format =
     (if \<not> CheckShapeValid src_shape 2 then Inl (Ret FAILED)
      else
        let c0 = GetC0Value E dst_format in
        if c0 \<le> 0 then Inl (Ret FAILED)
        else
          let h = 1; w = 1 in
          rbind (vec_at src_shape 0) (\<lambda>c. rbind (vec_at src_shape 1) (\<lambda>n.
            let c1 = Ceil c c0; no = Ceil n kNiSize;
                dst_shape = [h * w * c1, no, kNiSize, c0] in
            if \<not> IsShapeValid dst_shape then Inl (Ret FAILED) else Inr dst_shape)))"

definition TransFormatNdToFz :: "ge_env \<Rightarrow> TransArgs \<Rightarrow> TransResult \<Rightarrow> TransResult res" where
  "TransFormatNdToFz E args result =
     (let data_size = GetSizeByDataType E (arg_src_data_type args);
          dst_size = mul64 (foldl mul64 1 (arg_dst_shape args)) data_size in
      if dst_size = 0 then Inr (result\<lparr>res_length := dst_size\<rparr>)
      else
        case new_uint8 E dst_size of
          None \<Rightarrow> Inl (Ret PARAM_INVALID)
        | Some dst \<Rightarrow>
          rbind (vec_ix (arg_src_shape args) 0) (\<lambda>c.
          rbind (vec_ix (arg_src_shape args) 1) (\<lambda>n.
            let n1n0 = Ceil n kNiSize * kNiSize;
                c0 = GetC0Value E (arg_dst_format args);
                c1 = Ceil c c0;
                hwn1n0c0 = n1n0 * c0 in
            rbind
              (for_upto c1 (\<lambda>c1i. for_upto n1n0 (\<lambda>n1n0i. for_upto c0 (\<lambda>c0i dst.
                 let dst_idx = c1i * hwn1n0c0 + n1n0i * c0 + c0i;
                     dst_offset = dst_idx * data_size;
                     pad_zero = (c \<le> c1i * c0 + c0i \<or> n \<le> n1n0i) in
                 if pad_zero then zero_elem_as FAILED E dst dst_size dst_offset data_size
                 else
                   let src_idx = (c1i * c0 + c0i) * n + n1n0i in
                   copy_elem_as FAILED E dst dst_size dst_offset (arg_data args) (src_idx * data_size) data_size))) dst)
              (\<lambda>dst. Inr (result\<lparr>res_data := Some dst, res_length := dst_size\<rparr>)))))"

definition FractalZTbe_TransShape ::
  "ge_env \<Rightarrow> Format \<Rightarrow> int list \<Rightarrow> DataType \<Rightarrow> Format \<Rightarrow> int list res" where
  "FractalZTbe_TransShape E src_format src_shape data_type dst_format =
     (let src_primary_format = GetPrimaryFormat E src_format;
          dst_primary_format = GetPrimaryFormat E dst_format in
      if GetSizeByDataType E data_type \<le> 0 then Inl (Ret ACL_ERROR_GE_DATATYPE_INVALID)
      else if src_primary_format = FORMAT_ND \<and> dst_primary_format = FORMAT_FRACTAL_Z
      then TransShapeNdToFz E src_shape dst_format
      else Inl (Ret ACL_ERROR_GE_FORMAT_INVALID))"

definition FractalZTbe_TransFormat :: "ge_env \<Rightarrow> TransArgs \<Rightarrow> TransResult \<Rightarrow> TransResult res" where
  "FractalZTbe_TransFormat E args result =
     rbind (FractalZTbe_TransShape E (arg_src_format args) (arg_src_shape args) (arg_src_data_type args)
              (arg_dst_format args)) (\<lambda>expect_shape.
       if arg_dst_shape args \<noteq> [] \<and> arg_dst_shape args \<noteq> expect_shape
       then Inl (Ret ACL_ERROR_GE_SHAPE_INVALID)
       else TransFormatNdToFz E args result)"

section \<open>The layout maps\<close>

fun nchw_of_fz :: "int \<Rightarrow> int \<Rightarrow> int \<Rightarrow> int list \<Rightarrow> int list option" where
  "nchw_of_fz n c c0 [c1, h, w, ni, k] =
     (if c1 * c0 + k < c \<and> ni < n then Some [ni, c1 * c0 + k, h, w] else None)"
| "nchw_of_fz n c c0 _ = None"

fun hwcn_of_fz :: "int \<Rightarrow> int \<Rightarrow> int \<Rightarrow> int list \<Rightarrow> int list option" where
  "hwcn_of_fz n c c0 [c1, h, w, ni, k] =
     (if c1 * c0 + k < c \<and> ni < n then Some [h, w, c1 * c0 + k, ni] else None)"
| "hwcn_of_fz n c c0 _ = None"

fun nhwc_of_fz :: "int \<Rightarrow> int \<Rightarrow> int \<Rightarrow> int list \<Rightarrow> int list option" where
  "nhwc_of_fz n c c0 [c1, h, w, ni, k] =
     (if c1 * c0 + k < c \<and> ni < n then Some [ni, h, w, c1 * c0 + k] else None)"
| "nhwc_of_fz n c c0 _ = None"

fun nd_of_fz :: "int \<Rightarrow> int \<Rightarrow> int \<Rightarrow> int list \<Rightarrow> int list option" where
  "nd_of_fz n c c0 [c1, ni, k] = (if c1 * c0 + k < c \<and> ni < n then Some [c1 * c0 + k, ni] else None)"
| "nd_of_fz n c c0 _ = None"

fun fz_of_nchw :: "int \<Rightarrow> int list \<Rightarrow> int list option" where
  "fz_of_nchw c0 [n, c, h, w] = Some [c div c0, h, w, n, c mod c0]"
| "fz_of_nchw c0 _ = None"

fun fz_of_hwcn :: "int \<Rightarrow> int list \<Rightarrow> int list option" where
  "fz_of_hwcn c0 [h, w, c, n] = Some [c div c0, h, w, n, c mod c0]"
| "fz_of_hwcn c0 _ = None"

fun fz_of_nhwc :: "int \<Rightarrow> int list \<Rightarrow> int list option" where
  "fz_of_nhwc c0 [n, h, w, c] = Some [c div c0, h, w, n, c mod c0]"
| "fz_of_nhwc c0 _ = None"

text \<open>The axes (C1, H, W, No*Ni, C0).\<close>

definition fz_dims :: "int \<Rightarrow> int \<Rightarrow> int \<Rightarrow> int \<Rightarrow> int \<Rightarrow> int list" where
  "fz_dims n c h w c0 = [Ceil c c0, h, w, Ceil n 16 * 16, c0]"

lemma fz_covers: "0 \<le> i \<Longrightarrow> i < n \<Longrightarrow> i < Ceil n 16 * 16"
  using Ceil_tight [of n 16] by simp

interpretation fz_nchw: layout_inverse "fz_dims n c h w (max 1 c0)" "[n, c, h, w]"
  "nchw_of_fz n c (max 1 c0)" "fz_of_nchw (max 1 c0)"
  for n c h w c0 :: int
proof unfold_locales
  fix i j assume "in_range (fz_dims n c h w (max 1 c0)) i" "nchw_of_fz n c (max 1 c0) i = Some j"
  then show "in_range [n, c, h, w] j" by (auto simp: fz_dims_def in_range5 split: if_splits)
next
  fix i j assume "in_range [n, c, h, w] i" "fz_of_nchw (max 1 c0) i = Some j"
  then show "in_range (fz_dims n c h w (max 1 c0)) j"
    by (auto simp: fz_dims_def in_range4 Ceil_covers fz_covers pos_imp_zdiv_nonneg_iff)
next
  fix j assume "in_range [n, c, h, w] j"
  then show "\<exists>i. fz_of_nchw (max 1 c0) j = Some i \<and> nchw_of_fz n c (max 1 c0) i = Some j"
    by (auto simp: in_range4 div_mult_mod_eq)
qed

interpretation fz_hwcn: layout_inverse "fz_dims n c h w (max 1 c0)" "[h, w, c, n]"
  "hwcn_of_fz n c (max 1 c0)" "fz_of_hwcn (max 1 c0)"
  for n c h w c0 :: int
proof unfold_locales
  fix i j assume "in_range (fz_dims n c h w (max 1 c0)) i" "hwcn_of_fz n c (max 1 c0) i = Some j"
  then show "in_range [h, w, c, n] j" by (auto simp: fz_dims_def in_range5 split: if_splits)
next
  fix i j assume "in_range [h, w, c, n] i" "fz_of_hwcn (max 1 c0) i = Some j"
  then show "in_range (fz_dims n c h w (max 1 c0)) j"
    by (auto simp: fz_dims_def in_range4 Ceil_covers fz_covers pos_imp_zdiv_nonneg_iff)
next
  fix j assume "in_range [h, w, c, n] j"
  then show "\<exists>i. fz_of_hwcn (max 1 c0) j = Some i \<and> hwcn_of_fz n c (max 1 c0) i = Some j"
    by (auto simp: in_range4 div_mult_mod_eq)
qed

interpretation fz_nhwc: layout_inverse "fz_dims n c h w (max 1 c0)" "[n, h, w, c]"
  "nhwc_of_fz n c (max 1 c0)" "fz_of_nhwc (max 1 c0)"
  for n c h w c0 :: int
proof unfold_locales
  fix i j assume "in_range (fz_dims n c h w (max 1 c0)) i" "nhwc_of_fz n c (max 1 c0) i = Some j"
  then show "in_range [n, h, w, c] j" by (auto simp: fz_dims_def in_range5 split: if_splits)
next
  fix i j assume "in_range [n, h, w, c] i" "fz_of_nhwc (max 1 c0) i = Some j"
  then show "in_range (fz_dims n c h w (max 1 c0)) j"
    by (auto simp: fz_dims_def in_range4 Ceil_covers fz_covers pos_imp_zdiv_nonneg_iff)
next
  fix j assume "in_range [n, h, w, c] j"
  then show "\<exists>i. fz_of_nhwc (max 1 c0) j = Some i \<and> nhwc_of_fz n c (max 1 c0) i = Some j"
    by (auto simp: in_range4 div_mult_mod_eq)
qed

interpretation fz_nd: layout_map "[c1, n1, c0]" "[c, n]" "nd_of_fz n c c0"
  for c1 n1 n c c0 :: int
  by unfold_locales (auto simp: in_range3 split: if_splits)

section \<open>The transfers compute the layout maps\<close>

lemma fz_dims_nonneg: "0 \<le> n \<Longrightarrow> 0 \<le> c \<Longrightarrow> 0 \<le> h \<Longrightarrow> 0 \<le> w \<Longrightarrow> 0 < c0 \<Longrightarrow>
   \<forall>d \<in> set (fz_dims n c h w c0). 0 \<le> d"
  by (auto simp: fz_dims_def Ceil_nonneg)

lemma HwcnToFz_data:
  assumes ready: "trans_ready E args (fz_dims n c h w c0) [h, w, c, n] bs"
    and shape: "arg_src_shape args = [h, w, c, n]"
    and c0: "GetC0Value E (arg_dst_format args) = c0" "0 < c0"
    and dims: "0 \<le> h" "0 \<le> w" "0 \<le> c" "0 \<le> n"
    and total: "mul64 (foldl mul64 1 (arg_dst_shape args)) (GetSizeByDataType E (arg_src_data_type args)) =
      prod_list (fz_dims n c h w c0) * GetSizeByDataType E (arg_src_data_type args)"
    and pos: "prod_list (fz_dims n c h w c0) \<noteq> 0"
  shows "TransFormatHwcnToFz E args result =
         Inr (trans_output E args (fz_dims n c h w c0) [h, w, c, n] (hwcn_of_fz n c c0) bs result)"
proof -
  have m: "max 1 c0 = c0" using c0 by simp
  note r = trans_readyD [OF ready]
  note R = bytewise.new_relayout_elem
    [OF fz_hwcn.fwd.layout_map_axioms [where n = n and c = c and ?c0.0 = c0 and h = h and w = w, unfolded m]
       ready fz_dims_nonneg [OF dims(4,3,1,2) c0(2)] in_range_indices refl refl]
  have nz: "prod_list (fz_dims n c h w c0) \<noteq> 0" "GetSizeByDataType E (arg_src_data_type args) \<noteq> 0"
    using pos r(2) by simp_all
  show ?thesis
    unfolding TransFormatHwcnToFz_def
    by (simp add: shape c0 total nz kNiSize_def Let_def for5 vec_ix_in fz_dims_def [symmetric]
          cong: option.case_cong if_cong; rule R)
       (auto simp: fz_dims_def in_range5 algebra_simps)
qed

lemma NhwcToFz_data:
  assumes ready: "trans_ready E args (fz_dims n c h w c0) [n, h, w, c] bs"
    and shape: "arg_src_shape args = [n, h, w, c]"
    and c0: "GetC0Value E (arg_dst_format args) = c0" "0 < c0"
    and dims: "0 \<le> n" "0 \<le> h" "0 \<le> w" "0 \<le> c"
    and total: "mul64 (foldl mul64 1 (arg_dst_shape args)) (GetSizeByDataType E (arg_src_data_type args)) =
      prod_list (fz_dims n c h w c0) * GetSizeByDataType E (arg_src_data_type args)"
    and pos: "prod_list (fz_dims n c h w c0) \<noteq> 0"
  shows "TransFormatNhwcToFz E args result =
         Inr (trans_output E args (fz_dims n c h w c0) [n, h, w, c] (nhwc_of_fz n c c0) bs result)"
proof -
  have m: "max 1 c0 = c0" using c0 by simp
  note r = trans_readyD [OF ready]
  note R = bytewise.new_relayout_elem
    [OF fz_nhwc.fwd.layout_map_axioms [where n = n and c = c and ?c0.0 = c0 and h = h and w = w, unfolded m]
       ready fz_dims_nonneg [OF dims(1,4,2,3) c0(2)] in_range_indices refl refl]
  have nz: "prod_list (fz_dims n c h w c0) \<noteq> 0" "GetSizeByDataType E (arg_src_data_type args) \<noteq> 0"
    using pos r(2) by simp_all
  show ?thesis
    unfolding TransFormatNhwcToFz_def
    by (simp add: shape c0 total nz kNiSize_def Let_def for5 vec_ix_in fz_dims_def [symmetric]
          cong: option.case_cong if_cong; rule R)
       (auto simp: fz_dims_def in_range5 algebra_simps)
qed

text \<open>
  The NCHW transfer runs over fractals: \<open>vfi\<close> counts the blocks of (C1, H, W), \<open>hfi\<close> those of
  the N axis, \<open>row\<close> and \<open>col\<close> the C0 and Ni positions inside.
\<close>

definition fz_tuple :: "int \<Rightarrow> int \<Rightarrow> int list \<Rightarrow> int list" where
  "fz_tuple h w t =
     [t ! 0 div (h * w), t ! 0 mod (h * w) div w, t ! 0 mod w, t ! 1 * 16 + t ! 3, t ! 2]"

lemma fz_tuple_range:
  assumes hw: "0 < h" "0 < w"
    and t: "in_range [c1 * (h * w), no, c0, 16] t"
  shows "in_range [c1, h, w, no * 16, c0] (fz_tuple h w t)"
proof -
  from t obtain v f row col where t': "t = [v, f, row, col]" and v: "0 \<le> v" "v < c1 * (h * w)"
    and f: "0 \<le> f" "f < no" and row: "0 \<le> row" "row < c0" and col: "0 \<le> col" "col < 16"
    by (auto simp: in_range4)
  have p: "0 < h * w" using hw by simp
  have "v div (h * w) < c1" by (rule int_div_lt [OF p v(2)])
  moreover have "v mod (h * w) div w < h"
    using hw p by (intro int_div_lt) simp_all
  ultimately show ?thesis
    using hw p v f row col by (simp add: t' fz_tuple_def pos_imp_zdiv_nonneg_iff)
qed

lemma fz_tuple_onto:
  assumes hw: "0 < h" "0 < w"
    and i: "in_range [c1, h, w, no * 16, c0] i"
  shows "i \<in> fz_tuple h w ` set (indices [c1 * (h * w), no, c0, 16])"
proof -
  from i obtain a y x ni k where i': "i = [a, y, x, ni, k]" and a: "0 \<le> a" "a < c1"
    and y: "0 \<le> y" "y < h" and x: "0 \<le> x" "x < w" and ni: "0 \<le> ni" "ni < no * 16"
    and k: "0 \<le> k" "k < c0"
    by (auto simp: in_range5)
  let ?v = "lin [c1, h, w] [a, y, x]"
  have rv: "in_range [c1, h, w] [a, y, x]" using a y x by simp
  have v: "?v = a * (h * w) + (y * w + x)" by (simp add: algebra_simps)
  have yx: "0 \<le> y * w + x" "y * w + x < h * w"
    using lin_bounds [of "[h, w]" "[y, x]"] y x by simp_all
  have "?v div (h * w) = a" "?v mod (h * w) = y * w + x"
    unfolding v by (rule int_pair_div [OF yx], rule int_pair_mod [OF yx])
  moreover have "(y * w + x) div w = y" by (rule int_pair_div [OF x])
  moreover have "?v mod w = x"
    using int_pair_mod [OF x, of "a * h + y"] by (simp add: algebra_simps)
  moreover have "ni div 16 * 16 + ni mod 16 = ni" by simp
  ultimately have "fz_tuple h w [?v, ni div 16, k, ni mod 16] = i"
    by (simp add: fz_tuple_def i')
  moreover have "in_range [c1 * (h * w), no, c0, 16] [?v, ni div 16, k, ni mod 16]"
    using lin_bounds [OF rv] ni k by (auto simp: div_less_iff_less_mult ac_simps)
  ultimately show ?thesis unfolding set_indices by (metis imageI mem_Collect_eq)
qed

lemma block_split:
  assumes "0 < (w :: int)"
  shows "v div (h * w) * (h * w) + v mod (h * w) div w * w + v mod w = v"
    and "v mod (h * w) div w * w + v mod w = v mod (h * w)"
proof -
  have "v mod w = v mod (h * w) mod w" by (simp add: mod_mod_cancel)
  then show *: "v mod (h * w) div w * w + v mod w = v mod (h * w)"
    by (metis div_mult_mod_eq)
  have "v div (h * w) * (h * w) + v mod (h * w) = v" by (rule div_mult_mod_eq)
  with * show "v div (h * w) * (h * w) + v mod (h * w) div w * w + v mod w = v" by linarith
qed

lemma fz_tuple_lin:
  assumes hw: "0 < w"
  shows "lin [c1, h, w, no * 16, c0] (fz_tuple h w [v, f, row, col]) =
         (v * no + f) * (c0 * 16) + col * c0 + row"
proof -
  let ?y = "v mod (h * w) div w" and ?a = "v div (h * w)"
  have "lin [c1, h, w, no * 16, c0] (fz_tuple h w [v, f, row, col]) =
        (?a * (h * w) + ?y * w + v mod w) * (no * 16 * c0) + (f * 16 + col) * c0 + row"
    by (simp add: fz_tuple_def algebra_simps)
  also have "\<dots> = v * (no * 16 * c0) + (f * 16 + col) * c0 + row"
    unfolding block_split(1) [OF hw] ..
  finally show ?thesis by (simp add: algebra_simps)
qed

lemma fz_tuple_src:
  assumes hw: "0 < w"
    and j: "nchw_of_fz n c c0 (fz_tuple h w [v, f, row, col]) = Some j"
  shows "lin [n, c, h, w] j =
         f * (c * (h * w)) * 16 + v mod (h * w) + v div (h * w) * (h * w * c0) + row * (h * w) +
         c * (h * w) * col"
proof -
  let ?y = "v mod (h * w) div w" and ?a = "v div (h * w)"
  from j have j': "j = [f * 16 + col, ?a * c0 + row, ?y, v mod w]"
    by (simp add: fz_tuple_def split: if_splits)
  have "lin [n, c, h, w] j = (f * 16 + col) * (c * (h * w)) + (?a * c0 + row) * (h * w) + (?y * w + v mod w)"
    by (simp add: j' algebra_simps)
  also have "\<dots> = (f * 16 + col) * (c * (h * w)) + (?a * c0 + row) * (h * w) + v mod (h * w)"
    unfolding block_split(2) [OF hw] ..
  finally show ?thesis by (simp add: algebra_simps)
qed

lemma NchwToFz_data:
  assumes ready: "trans_ready E args (fz_dims n c h w c0) [n, c, h, w] bs"
    and shape: "arg_src_shape args = [n, c, h, w]"
    and c0: "GetC0Value E (arg_dst_format args) = c0" "0 < c0"
    and dims: "0 < n" "0 < c" "0 < h" "0 < w"
    and total: "is_int64 (prod_list (fz_dims n c h w c0) * GetSizeByDataType E (arg_src_data_type args))"
  shows "TransFormatFromNchwToFz E args result =
         Inr (trans_output E args (fz_dims n c h w c0) [n, c, h, w] (nchw_of_fz n c c0) bs result)"
proof -
  have m: "max 1 c0 = c0" using c0 by simp
  let ?esz = "GetSizeByDataType E (arg_src_data_type args)"
  let ?ts = "[Ceil c c0 * (h * w), Ceil n 16, c0, 16]"
  note r = trans_readyD [OF ready]
  have cover: "fz_tuple h w ` set (indices ?ts) = {i. in_range (fz_dims n c h w c0) i}"
    unfolding fz_dims_def set_indices
    using fz_tuple_range [OF dims(3,4)] fz_tuple_onto [OF dims(3,4)] by (auto simp: set_indices)
  have sz: "wrap64 (Ceil n 16 * (Ceil c c0 * (h * w)) * (c0 * 16) * ?esz) = prod_list (fz_dims n c h w c0) * ?esz"
    using wrap64_id [OF total] by (simp add: fz_dims_def ac_simps)
  have nz: "prod_list (fz_dims n c h w c0) \<noteq> 0" "?esz \<noteq> 0"
    using dims c0 r(2) Ceil_gt_0 [of c c0] Ceil_gt_0 [of n 16] by (simp_all add: fz_dims_def)
  note R = bytewise.new_relayout_elem
    [OF fz_nchw.fwd.layout_map_axioms [where n = n and c = c and ?c0.0 = c0 and h = h and w = w, unfolded m]
       ready fz_dims_nonneg [OF less_imp_le [OF dims(1)] less_imp_le [OF dims(2)]
         less_imp_le [OF dims(3)] less_imp_le [OF dims(4)] c0(2)] cover refl refl]
  show ?thesis
    unfolding TransFormatFromNchwToFz_def
  proof (simp add: shape c0 sz nz kNiSize_def Let_def for4 vec_at_in cong: option.case_cong if_cong,
         rule R, goal_cases)
    case (1 t d j)
    from 1(2) obtain v f row col where t: "t = [v, f, row, col]" and v: "0 \<le> v"
      by (auto simp: set_indices in_range4)
    have "in_range [n, c, h, w] j"
      by (rule fz_nchw.fwd.pick_range [where ?c0.0 = c0, unfolded m, OF 1(1,3)])
    from lin_bounds [OF this] have "lin [n, c, h, w] j < n * (c * (h * w))" by simp
    moreover have "f * 16 + col < n \<and> v div (h * w) * c0 + row < c"
      using 1(3) by (simp add: t fz_tuple_def split: if_splits)
    ultimately show ?case
      using fz_tuple_src [OF dims(4) 1(3) [unfolded t]] dims v
      by (simp add: t fz_dims_def fz_tuple_lin [OF dims(4)] sdiv_nonneg smod_nonneg)
  next
    case (2 t d)
    from 2(2) obtain v f row col where t: "t = [v, f, row, col]" and v: "0 \<le> v"
      by (auto simp: set_indices in_range4)
    have "n \<le> f * 16 + col \<or> c \<le> v div (h * w) * c0 + row"
      using 2(3) by (simp add: t fz_tuple_def split: if_splits) linarith
    then show ?case
      using dims v by (auto simp: t fz_dims_def fz_tuple_lin [OF dims(4)] sdiv_nonneg smod_nonneg)
  qed
qed

definition fz_nd_dims :: "int \<Rightarrow> int \<Rightarrow> int \<Rightarrow> int list" where
  "fz_nd_dims n c c0 = [Ceil c c0, Ceil n 16 * 16, c0]"

lemma NdToFz_data:
  assumes ready: "trans_ready E args (fz_nd_dims n c c0) [c, n] bs"
    and shape: "arg_src_shape args = [c, n]"
    and c0: "GetC0Value E (arg_dst_format args) = c0" "0 < c0"
    and dims: "0 \<le> c" "0 \<le> n"
    and total: "mul64 (foldl mul64 1 (arg_dst_shape args)) (GetSizeByDataType E (arg_src_data_type args)) =
      prod_list (fz_nd_dims n c c0) * GetSizeByDataType E (arg_src_data_type args)"
    and pos: "prod_list (fz_nd_dims n c c0) \<noteq> 0"
  shows "TransFormatNdToFz E args result =
         Inr (trans_output E args (fz_nd_dims n c c0) [c, n] (nd_of_fz n c c0) bs result)"
proof -
  note r = trans_readyD [OF ready]
  have d: "\<forall>d \<in> set (fz_nd_dims n c c0). 0 \<le> d" using c0 dims by (simp add: fz_nd_dims_def Ceil_nonneg)
  note R = unguarded.new_relayout_elem
    [OF fz_nd.layout_map_axioms [of "Ceil c c0" "Ceil n 16 * 16" c0 c n, folded fz_nd_dims_def]
       ready d in_range_indices refl refl]
  have nz: "prod_list (fz_nd_dims n c c0) \<noteq> 0" "GetSizeByDataType E (arg_src_data_type args) \<noteq> 0"
    using pos r(2) by simp_all
  show ?thesis
    unfolding TransFormatNdToFz_def
    by (simp add: shape c0 total nz kNiSize_def Let_def for3 vec_ix_in fz_nd_dims_def [symmetric]
          cong: option.case_cong if_cong; rule R)
       (auto simp: fz_nd_dims_def in_range3 algebra_simps)
qed

section \<open>The transfers as a whole\<close>

definition fz_shape :: "int \<Rightarrow> int \<Rightarrow> int \<Rightarrow> int \<Rightarrow> int \<Rightarrow> int list" where
  "fz_shape n c h w c0 = [h * w * Ceil c c0, Ceil n 16, 16, c0]"

lemma prod_fz_shape: "prod_list (fz_shape n c h w c0) = prod_list (fz_dims n c h w c0)"
  by (simp add: fz_shape_def fz_dims_def ac_simps)

lemma fz_shape_mul64:
  assumes valid: "IsShapeValid (fz_shape n c h w c0)" and dims: "0 \<le> h" "0 \<le> w" "0 < c" and c0: "0 < c0"
  shows "mul64 (mul64 h w) (Ceil c c0) = h * w * Ceil c c0"
proof -
  have c1: "1 \<le> Ceil c c0" using Ceil_gt_0 [OF dims(3) c0] by simp
  have "prod_list (take 1 (fz_shape n c h w c0)) \<le> kShapeItemNumMAX"
    using valid unfolding shape_valid_iff by (auto simp: fz_shape_def)
  then have le: "h * w * Ceil c c0 \<le> kShapeItemNumMAX" by (simp add: fz_shape_def)
  have "h * w * 1 \<le> h * w * Ceil c c0" using dims c1 by (intro mult_left_mono) simp_all
  then have "mul64 h w = h * w" "mul64 (h * w) (Ceil c c0) = h * w * Ceil c c0"
    using le dims c1 by (auto intro!: mul64_id is_int64_bound simp: kShapeItemNumMAX_def)
  then show ?thesis by simp
qed

lemma TransShapeToFz_ok:
  assumes "IsShapeValid (fz_shape n c h w c0)" and "0 \<le> h" "0 \<le> w" "0 < c" and "0 < c0"
  shows "TransShapeToFz n c h w c0 = Inr (fz_shape n c h w c0)"
  using assms fz_shape_mul64 [OF assms] by (simp add: TransShapeToFz_def kNiSize_def fz_shape_def Let_def)

lemma fz_pos:
  assumes "0 < n" "0 < c" "0 < h" "0 < w" "0 < c0"
  shows "0 < prod_list (fz_dims n c h w c0)"
  using assms by (simp add: fz_dims_def Ceil_gt_0)

lemmas fz_entry_simps =
  FractalZ_TransFormat_def FractalZ_TransShape_def CheckDataTypeSupportForTransferFractalZ_def
  IsTransShapeDstCorrect_def formats_are_def format_defs check_shape_valid vec_at_in Let_def

lemma FractalZ_Nchw_ok:
  assumes fmt: "formats_are E args FORMAT_NCHW FORMAT_FRACTAL_Z" "GetSubFormat E (arg_dst_format args) \<le> 1"
    and shape: "arg_src_shape args = [n, c, h, w]" "arg_dst_shape args \<in> {[], fz_shape n c h w c0}"
    and c0: "GetC0Value E (arg_dst_format args) = c0" "0 < c0"
    and valid: "IsShapeValid [n, c, h, w]" "IsShapeValid (fz_shape n c h w c0)"
    and pos: "0 < prod_list [n, c, h, w]"
    and ready: "trans_ready E args (fz_dims n c h w c0) [n, c, h, w] bs"
  shows "FractalZ_TransFormat E args result =
         Inr (trans_output E args (fz_dims n c h w c0) [n, c, h, w] (nchw_of_fz n c c0) bs result)"
proof -
  note r = trans_readyD [OF ready]
  have d: "0 < n" "0 < c" "0 < h" "0 < w"
    using prod_list_posD [OF pos shape_valid_nonneg [OF valid(1)]] by auto
  have "is_int64 (prod_list (fz_dims n c h w c0) * GetSizeByDataType E (arg_src_data_type args))"
    using total_size_int64 [OF valid(2) r(4)] by (simp add: prod_fz_shape)
  from NchwToFz_data [OF ready shape(1) c0 d this] TransShapeToFz_ok [OF valid(2) _ _ d(2) c0(2)]
  show ?thesis using fmt shape c0 valid r(2) d
    by (auto simp: fz_entry_simps TransShapeNchwToFz_def)
qed

lemma FractalZ_Hwcn_ok:
  assumes fmt: "formats_are E args FORMAT_HWCN FORMAT_FRACTAL_Z" "GetSubFormat E (arg_dst_format args) \<le> 1"
      "arg_dst_sub_format args \<le> 1"
    and shape: "arg_src_shape args = [h, w, c, n]" "arg_dst_shape args = fz_shape n c h w c0"
    and c0: "GetC0Value E (arg_dst_format args) = c0" "0 < c0"
    and valid: "IsShapeValid [h, w, c, n]" "IsShapeValid (fz_shape n c h w c0)"
    and pos: "0 < prod_list [h, w, c, n]"
    and ready: "trans_ready E args (fz_dims n c h w c0) [h, w, c, n] bs"
  shows "FractalZ_TransFormat E args result =
         Inr (trans_output E args (fz_dims n c h w c0) [h, w, c, n] (hwcn_of_fz n c c0) bs result)"
proof -
  note r = trans_readyD [OF ready]
  have d: "0 < h" "0 < w" "0 < c" "0 < n"
    using prod_list_posD [OF pos shape_valid_nonneg [OF valid(1)]] by auto
  have "mul64 (foldl mul64 1 (arg_dst_shape args)) (GetSizeByDataType E (arg_src_data_type args)) =
      prod_list (fz_dims n c h w c0) * GetSizeByDataType E (arg_src_data_type args)"
    using total_size_valid [OF valid(2) r(4)] by (simp add: shape prod_fz_shape GetItemNumByShape_def)
  from HwcnToFz_data [OF ready shape(1) c0 _ _ _ _ this] TransShapeToFz_ok [OF valid(2) _ _ d(3) c0(2)]
  show ?thesis using fmt shape c0 valid r(2) d fz_pos [OF d(4,3,1,2) c0(2)]
    by (auto simp: fz_entry_simps TransShapeHwcnToFz_def)
qed

lemma FractalZ_Nhwc_ok:
  assumes fmt: "formats_are E args FORMAT_NHWC FORMAT_FRACTAL_Z"
    and shape: "arg_src_shape args = [n, h, w, c]" "arg_dst_shape args = fz_shape n c h w c0"
    and c0: "GetC0Value E (arg_dst_format args) = c0" "0 < c0"
    and valid: "IsShapeValid [n, h, w, c]" "IsShapeValid (fz_shape n c h w c0)"
    and pos: "0 < prod_list [n, h, w, c]"
    and ready: "trans_ready E args (fz_dims n c h w c0) [n, h, w, c] bs"
  shows "FractalZ_TransFormat E args result =
         Inr (trans_output E args (fz_dims n c h w c0) [n, h, w, c] (nhwc_of_fz n c c0) bs result)"
proof -
  note r = trans_readyD [OF ready]
  have d: "0 < n" "0 < h" "0 < w" "0 < c"
    using prod_list_posD [OF pos shape_valid_nonneg [OF valid(1)]] by auto
  have "mul64 (foldl mul64 1 (arg_dst_shape args)) (GetSizeByDataType E (arg_src_data_type args)) =
      prod_list (fz_dims n c h w c0) * GetSizeByDataType E (arg_src_data_type args)"
    using total_size_valid [OF valid(2) r(4)] by (simp add: shape prod_fz_shape GetItemNumByShape_def)
  from NhwcToFz_data [OF ready shape(1) c0 _ _ _ _ this] TransShapeToFz_ok [OF valid(2) _ _ d(4) c0(2)]
  show ?thesis using fmt shape c0 valid r(2) d fz_pos [OF d(1,4,2,3) c0(2)]
    by (auto simp: fz_entry_simps TransShapeNhwcToFz_def)
qed

lemma FractalZTbe_ok:
  assumes fmt: "formats_are E args FORMAT_ND FORMAT_FRACTAL_Z"
    and shape: "arg_src_shape args = [c, n]" "arg_dst_shape args = [Ceil c c0, Ceil n 16, 16, c0]"
    and c0: "GetC0Value E (arg_dst_format args) = c0" "0 < c0"
    and valid: "IsShapeValid [c, n]" "IsShapeValid [Ceil c c0, Ceil n 16, 16, c0]"
    and pos: "0 < prod_list [c, n]"
    and ready: "trans_ready E args (fz_nd_dims n c c0) [c, n] bs"
  shows "FractalZTbe_TransFormat E args result =
         Inr (trans_output E args (fz_nd_dims n c c0) [c, n] (nd_of_fz n c c0) bs result)"
proof -
  note r = trans_readyD [OF ready]
  have d: "0 < c" "0 < n"
    using prod_list_posD [OF pos shape_valid_nonneg [OF valid(1)]] by auto
  have "mul64 (foldl mul64 1 (arg_dst_shape args)) (GetSizeByDataType E (arg_src_data_type args)) =
      prod_list (fz_nd_dims n c c0) * GetSizeByDataType E (arg_src_data_type args)"
    using total_size_valid [OF valid(2) r(4)] by (simp add: shape fz_nd_dims_def GetItemNumByShape_def ac_simps)
  moreover have "prod_list (fz_nd_dims n c c0) \<noteq> 0"
    using Ceil_gt_0 [OF d(1) c0(2)] Ceil_gt_0 [OF d(2), of 16] c0 by (simp add: fz_nd_dims_def)
  ultimately have "TransFormatNdToFz E args result =
      Inr (trans_output E args (fz_nd_dims n c c0) [c, n] (nd_of_fz n c c0) bs result)"
    using d by (intro NdToFz_data [OF ready shape(1) c0]) simp_all
  then show ?thesis using fmt shape c0 valid r(2)
    by (simp add: FractalZTbe_TransFormat_def FractalZTbe_TransShape_def TransShapeNdToFz_def
        formats_are_def check_shape_valid vec_at_in kNiSize_def Let_def)
qed

end
