(* ===== verification/TransferFracZBack.thy ===== *)
theory TransferFracZBack
  imports TransferFracZ
begin

text \<open>
  From FRACTAL\_Z back to the four-dimensional layouts: \<^verbatim>\<open>format_transfer_fracz_nchw.cc\<close>,
  \<^verbatim>\<open>format_transfer_fracz_hwcn.cc\<close> and \<^verbatim>\<open>format_transfer_fracz_nhwc.cc\<close>, and the round
  trips with \<open>FractalZ_TransFormat\<close>.
\<close>

section \<open>FRACTAL\_Z to NCHW\<close>

definition CheckDataTypeSupportedForFracZToNchw :: "ge_env \<Rightarrow> DataType \<Rightarrow> bool" where
  "CheckDataTypeSupportedForFracZToNchw E data_type = (0 < GetSizeByDataType E data_type)"

definition CheckArgsForFracZToNchw :: "ge_env \<Rightarrow> TransArgs \<Rightarrow> unit res" where
  "CheckArgsForFracZToNchw E args =
     (let src = arg_src_shape args; dst = arg_dst_shape args in
      if arg_src_primary_format args \<noteq> FORMAT_FRACTAL_Z \<or> arg_dst_primary_format args \<noteq> FORMAT_NCHW
      then Inl (Ret ACL_ERROR_GE_FORMAT_INVALID)
      else if \<not> CheckDataTypeSupportedForFracZToNchw E (arg_src_data_type args)
      then Inl (Ret ACL_ERROR_GE_DATATYPE_INVALID)
      else if \<not> CheckShapeValid src kFracZDimsNum then Inl (Ret ACL_ERROR_GE_SHAPE_INVALID)
      else if \<not> CheckShapeValid dst kNchwDimsNum then Inl (Ret ACL_ERROR_GE_SHAPE_INVALID)
      else
        let c0 = GetC0Value E (arg_src_format args) in
        if c0 < 0 then Inl (Ret ACL_ERROR_GE_DATATYPE_INVALID)
        else
          rbind (vec_at dst kNchwC) (\<lambda>c. rbind (vec_at dst kNchwN) (\<lambda>n.
          rbind (vec_at src kFracZHWC1) (\<lambda>hwc1.
          rbind (vec_at dst kNchwH) (\<lambda>h. rbind (vec_at dst kNchwW) (\<lambda>w.
          rbind (vec_at src kFracZC0) (\<lambda>sc0. rbind (vec_at src kFracZNi) (\<lambda>sni.
          rbind (vec_at src kFracZN0) (\<lambda>sn0.
            let c1 = Ceil c c0; n0 = Ceil n kNiSize in
            if hwc1 \<noteq> mul64 (mul64 h w) c1 \<or> sc0 \<noteq> c0 \<or> sni \<noteq> kNiSize \<or> sn0 \<noteq> n0
            then Inl (Ret ACL_ERROR_GE_SHAPE_INVALID) else Inr ())))))))))"

definition GetDstDataAfterTransForFracZToNchw ::
  "ge_env \<Rightarrow> TransArgs \<Rightarrow> TransResult \<Rightarrow> int \<Rightarrow> int \<Rightarrow> TransResult res" where
  "GetDstDataAfterTransForFracZToNchw E args result esz total_size =
     (case new_uint8 E total_size of
        None \<Rightarrow> Inl (Ret ACL_ERROR_GE_MEMORY_ALLOCATION)
      | Some dst \<Rightarrow>
        rbind (vec_at (arg_src_shape args) kFracZN0) (\<lambda>n0.
        rbind (vec_at (arg_src_shape args) kFracZNi) (\<lambda>ni.
        rbind (vec_at (arg_src_shape args) kFracZC0) (\<lambda>c0.
        rbind (vec_at (arg_dst_shape args) kNchwH) (\<lambda>h.
        rbind (vec_at (arg_dst_shape args) kNchwW) (\<lambda>w.
        rbind (vec_at (arg_dst_shape args) kNchwC) (\<lambda>c.
        rbind (vec_at (arg_dst_shape args) kNchwN) (\<lambda>n.
          let nc = ni * n0; ncc0 = nc * c0; wncc0 = w * ncc0; hwncc0 = h * wncc0;
              hw = h * w; chw = c * hw in
          rbind
            (for_upto n (\<lambda>n_idx. let n_head_addr = n_idx * chw in
               for_upto c (\<lambda>c_idx. let c_head_addr = n_head_addr + c_idx * hw in
                 for_upto h (\<lambda>h_idx. let h_head_addr = c_head_addr + h_idx * w in
                   for_upto w (\<lambda>w_idx dst.
                     if c0 = 0 then Inl Undefined
                     else
                       let dst_idx = h_head_addr + w_idx;
                           c1_idx = c_idx sdiv c0;
                           c0_idx = c_idx smod c0;
                           nc_idx = n_idx;
                           src_idx = c1_idx * hwncc0 + h_idx * wncc0 + w_idx * ncc0 + nc_idx * c0 + c0_idx;
                           src_offset = src_idx * esz;
                           dst_offset = dst_idx * esz in
                       copy_elem E dst total_size dst_offset (arg_data args) src_offset esz)))) dst)
            (\<lambda>dst. Inr (result\<lparr>res_data := Some dst, res_length := total_size\<rparr>))))))))))"

definition FracZNchw_TransFormat :: "ge_env \<Rightarrow> TransArgs \<Rightarrow> TransResult \<Rightarrow> TransResult res" where
  "FracZNchw_TransFormat E args result =
     rbind (CheckArgsForFracZToNchw E args) (\<lambda>_.
       let esz = GetSizeByDataType E (arg_src_data_type args);
           total_size = mul64 (GetItemNumByShape (arg_dst_shape args)) esz in
       if total_size \<le> 0 then
         let src_size = GetItemNumByShape (arg_src_shape args) in
         if total_size = 0 \<and> src_size = 0 then Inr (result\<lparr>res_length := total_size\<rparr>)
         else Inl (Ret ACL_ERROR_GE_SHAPE_INVALID)
       else GetDstDataAfterTransForFracZToNchw E args result esz total_size)"

definition FracZNchw_TransShape ::
  "ge_env \<Rightarrow> Format \<Rightarrow> int list \<Rightarrow> DataType \<Rightarrow> Format \<Rightarrow> int list res" where
  "FracZNchw_TransShape E src_format src_shape data_type dst_format =
     Inl (Ret ACL_ERROR_GE_FORMAT_INVALID)"

section \<open>FRACTAL\_Z to HWCN\<close>

definition CheckDataTypeSupportedForFracZToHwcn :: "ge_env \<Rightarrow> DataType \<Rightarrow> bool" where
  "CheckDataTypeSupportedForFracZToHwcn E data_type = (0 < GetSizeByDataType E data_type)"

definition CheckArgsForFracZToHwcn :: "ge_env \<Rightarrow> TransArgs \<Rightarrow> unit res" where
  "CheckArgsForFracZToHwcn E args =
     (let src = arg_src_shape args; dst = arg_dst_shape args in
      if arg_src_primary_format args \<noteq> FORMAT_FRACTAL_Z \<or> arg_dst_primary_format args \<noteq> FORMAT_HWCN
      then Inl (Ret ACL_ERROR_GE_FORMAT_INVALID)
      else if \<not> CheckDataTypeSupportedForFracZToHwcn E (arg_src_data_type args)
      then Inl (Ret ACL_ERROR_GE_DATATYPE_INVALID)
      else if \<not> CheckShapeValid src kFracZDimsNum then Inl (Ret ACL_ERROR_GE_SHAPE_INVALID)
      else if \<not> CheckShapeValid dst kHwcnDimsNum then Inl (Ret ACL_ERROR_GE_SHAPE_INVALID)
      else
        let c0 = GetC0Value E (arg_src_format args) in
        if c0 < 0 then Inl (Ret ACL_ERROR_GE_DATATYPE_INVALID)
        else
          rbind (vec_at dst kHwcnC) (\<lambda>c. rbind (vec_at dst kHwcnN) (\<lambda>n.
          rbind (vec_at src kFracZHWC1) (\<lambda>hwc1.
          rbind (vec_at dst kHwcnH) (\<lambda>h. rbind (vec_at dst kHwcnW) (\<lambda>w.
          rbind (vec_at src kFracZC0) (\<lambda>sc0. rbind (vec_at src kFracZNi) (\<lambda>sni.
          rbind (vec_at src kFracZN0) (\<lambda>sn0.
            let c1 = Ceil c c0; n0 = Ceil n kNiSize in
            if hwc1 \<noteq> mul64 (mul64 h w) c1 \<or> sc0 \<noteq> c0 \<or> sni \<noteq> kNiSize \<or> sn0 \<noteq> n0
            then Inl (Ret ACL_ERROR_GE_SHAPE_INVALID) else Inr ())))))))))"

definition GetDstDataAfterTransForFracZToHwcn ::
  "ge_env \<Rightarrow> TransArgs \<Rightarrow> TransResult \<Rightarrow> int \<Rightarrow> int \<Rightarrow> TransResult res" where
  "GetDstDataAfterTransForFracZToHwcn E args result esz total_size =
     (case new_uint8 E total_size of
        None \<Rightarrow> Inl (Ret ACL_ERROR_GE_MEMORY_ALLOCATION)
      | Some dst \<Rightarrow>
        rbind (vec_at (arg_src_shape args) kFracZN0) (\<lambda>n0.
        rbind (vec_at (arg_src_shape args) kFracZNi) (\<lambda>ni.
        rbind (vec_at (arg_src_shape args) kFracZC0) (\<lambda>c0.
        rbind (vec_at (arg_dst_shape args) kHwcnH) (\<lambda>h.
        rbind (vec_at (arg_dst_shape args) kHwcnW) (\<lambda>w.
        rbind (vec_at (arg_dst_shape args) kHwcnC) (\<lambda>c.
        rbind (vec_at (arg_dst_shape args) kHwcnN) (\<lambda>n.
          let nc = ni * n0; ncc0 = nc * c0; wncc0 = w * ncc0; hwncc0 = h * wncc0;
              cn = c * n; wcn = w * cn in
          rbind
            (for_upto h (\<lambda>h_idx. let h_head_addr = h_idx * wcn in
               for_upto w (\<lambda>w_idx. let w_head_addr = h_head_addr + w_idx * cn in
                 for_upto c (\<lambda>c_idx. let c_head_addr = w_head_addr + c_idx * n in
                   for_upto n (\<lambda>n_idx dst.
                     if c0 = 0 then Inl Undefined
                     else
                       let dst_idx = c_head_addr + n_idx;
                           c1_idx = c_idx sdiv c0;
                           c0_idx = c_idx smod c0;
                           nc_idx = n_idx;
                           src_idx = c1_idx * hwncc0 + h_idx * wncc0 + w_idx * ncc0 + nc_idx * c0 + c0_idx;
                           src_offset = src_idx * esz;
                           dst_offset = dst_idx * esz in
                       copy_elem E dst total_size dst_offset (arg_data args) src_offset esz)))) dst)
            (\<lambda>dst. Inr (result\<lparr>res_data := Some dst, res_length := total_size\<rparr>))))))))))"

definition FracZHwcn_TransFormat :: "ge_env \<Rightarrow> TransArgs \<Rightarrow> TransResult \<Rightarrow> TransResult res" where
  "FracZHwcn_TransFormat E args result =
     rbind (CheckArgsForFracZToHwcn E args) (\<lambda>_.
       let esz = GetSizeByDataType E (arg_src_data_type args);
           total_size = mul64 (GetItemNumByShape (arg_dst_shape args)) esz in
       if total_size \<le> 0 then
         let src_size = GetItemNumByShape (arg_src_shape args) in
         if total_size = 0 \<and> src_size = 0 then Inr (result\<lparr>res_length := total_size\<rparr>)
         else Inl (Ret ACL_ERROR_GE_SHAPE_INVALID)
       else GetDstDataAfterTransForFracZToHwcn E args result esz total_size)"

definition FracZHwcn_TransShape ::
  "ge_env \<Rightarrow> Format \<Rightarrow> int list \<Rightarrow> DataType \<Rightarrow> Format \<Rightarrow> int list res" where
  "FracZHwcn_TransShape E src_format src_shape data_type dst_format =
     Inl (Ret ACL_ERROR_GE_FORMAT_INVALID)"

section \<open>FRACTAL\_Z to NHWC\<close>

definition CheckDataTypeSupportedForFracZToNhwc :: "ge_env \<Rightarrow> DataType \<Rightarrow> bool" where
  "CheckDataTypeSupportedForFracZToNhwc E data_type = (0 < GetSizeByDataType E data_type)"

definition CheckArgsForFracZToNhwc :: "ge_env \<Rightarrow> TransArgs \<Rightarrow> unit res" where
  "CheckArgsForFracZToNhwc E args =
     (let src = arg_src_shape args; dst = arg_dst_shape args in
      if arg_src_primary_format args \<noteq> FORMAT_FRACTAL_Z \<or> arg_dst_primary_format args \<noteq> FORMAT_NHWC
      then Inl (Ret ACL_ERROR_GE_FORMAT_INVALID)
      else if \<not> CheckDataTypeSupportedForFracZToNhwc E (arg_src_data_type args)
      then Inl (Ret ACL_ERROR_GE_DATATYPE_INVALID)
      else if \<not> CheckShapeValid src kFracZDimsNum then Inl (Ret ACL_ERROR_GE_SHAPE_INVALID)
      else if \<not> CheckShapeValid dst kNhwcDimsNum then Inl (Ret ACL_ERROR_GE_SHAPE_INVALID)
      else
        let c0 = GetC0Value E (arg_src_format args) in
        if c0 < 0 then Inl (Ret ACL_ERROR_GE_DATATYPE_INVALID)
        else
          rbind (vec_at dst kNhwcC) (\<lambda>c. rbind (vec_at dst kNhwcN) (\<lambda>n.
          rbind (vec_at src kFracZHWC1) (\<lambda>hwc1.
          rbind (vec_at dst kNhwcH) (\<lambda>h. rbind (vec_at dst kNhwcW) (\<lambda>w.
          rbind (vec_at src kFracZC0) (\<lambda>sc0. rbind (vec_at src kFracZNi) (\<lambda>sni.
          rbind (vec_at src kFracZN0) (\<lambda>sn0.
            let c1 = Ceil c c0; n0 = Ceil n kNiSize in
            if hwc1 \<noteq> mul64 (mul64 h w) c1 \<or> sc0 \<noteq> c0 \<or> sni \<noteq> kNiSize \<or> sn0 \<noteq> n0
            then Inl (Ret ACL_ERROR_GE_SHAPE_INVALID) else Inr ())))))))))"

definition GetDstDataAfterTransForFracZToNhwc ::
  "ge_env \<Rightarrow> TransArgs \<Rightarrow> TransResult \<Rightarrow> int \<Rightarrow> int \<Rightarrow> TransResult res" where
  "GetDstDataAfterTransForFracZToNhwc E args result esz total_size =
     (case new_uint8 E total_size of
        None \<Rightarrow> Inl (Ret ACL_ERROR_GE_MEMORY_ALLOCATION)
      | Some dst \<Rightarrow>
        rbind (vec_at (arg_src_shape args) kFracZN0) (\<lambda>n0.
        rbind (vec_at (arg_src_shape args) kFracZNi) (\<lambda>ni.
        rbind (vec_at (arg_src_shape args) kFracZC0) (\<lambda>c0.
        rbind (vec_at (arg_dst_shape args) kNhwcH) (\<lambda>h.
        rbind (vec_at (arg_dst_shape args) kNhwcW) (\<lambda>w.
        rbind (vec_at (arg_dst_shape args) kNhwcC) (\<lambda>c.
        rbind (vec_at (arg_dst_shape args) kNhwcN) (\<lambda>n.
          let nc = ni * n0; ncc0 = nc * c0; wncc0 = w * ncc0; hwncc0 = h * wncc0;
              wc = w * c; hwc = h * wc in
          rbind
            (for_upto n (\<lambda>n_idx. let n_head_addr = n_idx * hwc in
               for_upto h (\<lambda>h_idx. let h_head_addr = n_head_addr + h_idx * wc in
                 for_upto w (\<lambda>w_idx. let w_head_addr = h_head_addr + w_idx * c in
                   for_upto c (\<lambda>c_idx dst.
                     if c0 = 0 then Inl Undefined
                     else
                       let dst_idx = w_head_addr + c_idx;
                           c1_idx = c_idx sdiv c0;
                           c0_idx = c_idx smod c0;
                           nc_idx = n_idx;
                           src_idx = c1_idx * hwncc0 + h_idx * wncc0 + w_idx * ncc0 + nc_idx * c0 + c0_idx;
                           src_offset = src_idx * esz;
                           dst_offset = dst_idx * esz in
                       copy_elem E dst total_size dst_offset (arg_data args) src_offset esz)))) dst)
            (\<lambda>dst. Inr (result\<lparr>res_data := Some dst, res_length := total_size\<rparr>))))))))))"

definition FracZNhwc_TransFormat :: "ge_env \<Rightarrow> TransArgs \<Rightarrow> TransResult \<Rightarrow> TransResult res" where
  "FracZNhwc_TransFormat E args result =
     rbind (CheckArgsForFracZToNhwc E args) (\<lambda>_.
       let esz = GetSizeByDataType E (arg_src_data_type args);
           total_size = mul64 (GetItemNumByShape (arg_dst_shape args)) esz in
       if total_size \<le> 0 then
         let src_size = GetItemNumByShape (arg_src_shape args) in
         if total_size = 0 \<and> src_size = 0 then Inr (result\<lparr>res_length := total_size\<rparr>)
         else Inl (Ret ACL_ERROR_GE_PARAM_INVALID)
       else GetDstDataAfterTransForFracZToNhwc E args result esz total_size)"

definition FracZNhwc_TransShape ::
  "ge_env \<Rightarrow> Format \<Rightarrow> int list \<Rightarrow> DataType \<Rightarrow> Format \<Rightarrow> int list res" where
  "FracZNhwc_TransShape E src_format src_shape data_type dst_format =
     Inl (Ret ACL_ERROR_GE_FORMAT_INVALID)"

section \<open>The transfers compute the layout maps\<close>

lemma FracZToNchw_data:
  assumes ready: "trans_ready E args [n, c, h, w] (fz_dims n c h w c0) bs"
    and shape: "arg_src_shape args = fz_shape n c h w c0" "arg_dst_shape args = [n, c, h, w]"
    and c0: "0 < c0"
    and dims: "0 \<le> n" "0 \<le> c" "0 \<le> h" "0 \<le> w"
    and esz: "esz = GetSizeByDataType E (arg_src_data_type args)"
    and total: "total_size = prod_list [n, c, h, w] * esz"
  shows "GetDstDataAfterTransForFracZToNchw E args result esz total_size =
         Inr (trans_output E args [n, c, h, w] (fz_dims n c h w c0) (fz_of_nchw c0) bs result)"
proof -
  have m: "max 1 c0 = c0" and nz: "c0 \<noteq> 0" using c0 by simp_all
  note R = guarded.new_relayout_elem
    [OF fz_nchw.bwd.layout_map_axioms [where n = n and c = c and ?c0.0 = c0 and h = h and w = w, unfolded m]
       ready _ in_range_indices esz total]
  show ?thesis
    unfolding GetDstDataAfterTransForFracZToNchw_def
    by (simp add: shape fz_shape_def nz Let_def for4 vec_at_in cong: option.case_cong; rule R)
       (auto simp: dims c0 fz_dims_def in_range4 sdiv_nonneg smod_nonneg algebra_simps)
qed

lemma FracZNchw_ok:
  assumes fmt: "arg_src_primary_format args = FORMAT_FRACTAL_Z" "arg_dst_primary_format args = FORMAT_NCHW"
    and shape: "arg_src_shape args = fz_shape n c h w c0" "arg_dst_shape args = [n, c, h, w]"
    and c0: "GetC0Value E (arg_src_format args) = c0" "0 < c0"
    and valid: "IsShapeValid [n, c, h, w]" "IsShapeValid (fz_shape n c h w c0)"
    and pos: "0 < prod_list [n, c, h, w]"
    and ready: "trans_ready E args [n, c, h, w] (fz_dims n c h w c0) bs"
  shows "FracZNchw_TransFormat E args result =
         Inr (trans_output E args [n, c, h, w] (fz_dims n c h w c0) (fz_of_nchw c0) bs result)"
proof -
  note r = trans_readyD [OF ready]
  have d: "0 < n" "0 < c" "0 < h" "0 < w"
    using prod_list_posD [OF pos shape_valid_nonneg [OF valid(1)]] by auto
  have "0 < prod_list [n, c, h, w] * GetSizeByDataType E (arg_src_data_type args)"
    using pos r(2) by (rule mult_pos_pos)
  moreover have "mul64 (mul64 h w) (Ceil c c0) = h * w * Ceil c c0"
    using d by (intro fz_shape_mul64 [OF valid(2) _ _ _ c0(2)]) simp_all
  ultimately show ?thesis
    using FracZToNchw_data [OF ready shape c0(2) _ _ _ _ refl refl] total_size_valid [OF valid(1) r(4)]
      c0 valid r(2) d
    by (simp add: FracZNchw_TransFormat_def CheckArgsForFracZToNchw_def fz_shape_def kNiSize_def
        CheckDataTypeSupportedForFracZToNchw_def fmt shape check_shape_valid vec_at_in not_le Let_def)
qed

lemma FracZToHwcn_data:
  assumes ready: "trans_ready E args [h, w, c, n] (fz_dims n c h w c0) bs"
    and shape: "arg_src_shape args = fz_shape n c h w c0" "arg_dst_shape args = [h, w, c, n]"
    and c0: "0 < c0"
    and dims: "0 \<le> h" "0 \<le> w" "0 \<le> c" "0 \<le> n"
    and esz: "esz = GetSizeByDataType E (arg_src_data_type args)"
    and total: "total_size = prod_list [h, w, c, n] * esz"
  shows "GetDstDataAfterTransForFracZToHwcn E args result esz total_size =
         Inr (trans_output E args [h, w, c, n] (fz_dims n c h w c0) (fz_of_hwcn c0) bs result)"
proof -
  have m: "max 1 c0 = c0" and nz: "c0 \<noteq> 0" using c0 by simp_all
  note R = guarded.new_relayout_elem
    [OF fz_hwcn.bwd.layout_map_axioms [where n = n and c = c and ?c0.0 = c0 and h = h and w = w, unfolded m]
       ready _ in_range_indices esz total]
  show ?thesis
    unfolding GetDstDataAfterTransForFracZToHwcn_def
    by (simp add: shape fz_shape_def nz Let_def for4 vec_at_in cong: option.case_cong; rule R)
       (auto simp: dims c0 fz_dims_def in_range4 sdiv_nonneg smod_nonneg algebra_simps)
qed

lemma FracZHwcn_ok:
  assumes fmt: "arg_src_primary_format args = FORMAT_FRACTAL_Z" "arg_dst_primary_format args = FORMAT_HWCN"
    and shape: "arg_src_shape args = fz_shape n c h w c0" "arg_dst_shape args = [h, w, c, n]"
    and c0: "GetC0Value E (arg_src_format args) = c0" "0 < c0"
    and valid: "IsShapeValid [h, w, c, n]" "IsShapeValid (fz_shape n c h w c0)"
    and pos: "0 < prod_list [h, w, c, n]"
    and ready: "trans_ready E args [h, w, c, n] (fz_dims n c h w c0) bs"
  shows "FracZHwcn_TransFormat E args result =
         Inr (trans_output E args [h, w, c, n] (fz_dims n c h w c0) (fz_of_hwcn c0) bs result)"
proof -
  note r = trans_readyD [OF ready]
  have d: "0 < h" "0 < w" "0 < c" "0 < n"
    using prod_list_posD [OF pos shape_valid_nonneg [OF valid(1)]] by auto
  have "0 < prod_list [h, w, c, n] * GetSizeByDataType E (arg_src_data_type args)"
    using pos r(2) by (rule mult_pos_pos)
  moreover have "mul64 (mul64 h w) (Ceil c c0) = h * w * Ceil c c0"
    using d by (intro fz_shape_mul64 [OF valid(2) _ _ _ c0(2)]) simp_all
  ultimately show ?thesis
    using FracZToHwcn_data [OF ready shape c0(2) _ _ _ _ refl refl] total_size_valid [OF valid(1) r(4)]
      c0 valid r(2) d
    by (simp add: FracZHwcn_TransFormat_def CheckArgsForFracZToHwcn_def fz_shape_def kNiSize_def
        CheckDataTypeSupportedForFracZToHwcn_def fmt shape check_shape_valid vec_at_in not_le Let_def)
qed

lemma FracZToNhwc_data:
  assumes ready: "trans_ready E args [n, h, w, c] (fz_dims n c h w c0) bs"
    and shape: "arg_src_shape args = fz_shape n c h w c0" "arg_dst_shape args = [n, h, w, c]"
    and c0: "0 < c0"
    and dims: "0 \<le> n" "0 \<le> h" "0 \<le> w" "0 \<le> c"
    and esz: "esz = GetSizeByDataType E (arg_src_data_type args)"
    and total: "total_size = prod_list [n, h, w, c] * esz"
  shows "GetDstDataAfterTransForFracZToNhwc E args result esz total_size =
         Inr (trans_output E args [n, h, w, c] (fz_dims n c h w c0) (fz_of_nhwc c0) bs result)"
proof -
  have m: "max 1 c0 = c0" and nz: "c0 \<noteq> 0" using c0 by simp_all
  note R = guarded.new_relayout_elem
    [OF fz_nhwc.bwd.layout_map_axioms [where n = n and c = c and ?c0.0 = c0 and h = h and w = w, unfolded m]
       ready _ in_range_indices esz total]
  show ?thesis
    unfolding GetDstDataAfterTransForFracZToNhwc_def
    by (simp add: shape fz_shape_def nz Let_def for4 vec_at_in cong: option.case_cong; rule R)
       (auto simp: dims c0 fz_dims_def in_range4 sdiv_nonneg smod_nonneg algebra_simps)
qed

lemma FracZNhwc_ok:
  assumes fmt: "arg_src_primary_format args = FORMAT_FRACTAL_Z" "arg_dst_primary_format args = FORMAT_NHWC"
    and shape: "arg_src_shape args = fz_shape n c h w c0" "arg_dst_shape args = [n, h, w, c]"
    and c0: "GetC0Value E (arg_src_format args) = c0" "0 < c0"
    and valid: "IsShapeValid [n, h, w, c]" "IsShapeValid (fz_shape n c h w c0)"
    and pos: "0 < prod_list [n, h, w, c]"
    and ready: "trans_ready E args [n, h, w, c] (fz_dims n c h w c0) bs"
  shows "FracZNhwc_TransFormat E args result =
         Inr (trans_output E args [n, h, w, c] (fz_dims n c h w c0) (fz_of_nhwc c0) bs result)"
proof -
  note r = trans_readyD [OF ready]
  have d: "0 < n" "0 < h" "0 < w" "0 < c"
    using prod_list_posD [OF pos shape_valid_nonneg [OF valid(1)]] by auto
  have "0 < prod_list [n, h, w, c] * GetSizeByDataType E (arg_src_data_type args)"
    using pos r(2) by (rule mult_pos_pos)
  moreover have "mul64 (mul64 h w) (Ceil c c0) = h * w * Ceil c c0"
    using d by (intro fz_shape_mul64 [OF valid(2) _ _ _ c0(2)]) simp_all
  ultimately show ?thesis
    using FracZToNhwc_data [OF ready shape c0(2) _ _ _ _ refl refl] total_size_valid [OF valid(1) r(4)]
      c0 valid r(2) d
    by (simp add: FracZNhwc_TransFormat_def CheckArgsForFracZToNhwc_def fz_shape_def kNiSize_def
        CheckDataTypeSupportedForFracZToNhwc_def fmt shape check_shape_valid vec_at_in not_le Let_def)
qed

section \<open>Properties\<close>

text \<open>
  C5: NCHW weights taken to FRACTAL\_Z by the fractal-by-fractal loops of the library and back are, byte for
  byte, the weights they were.
\<close>

theorem Nchw_fz_roundtrip:
  assumes "formats_are E args FORMAT_NCHW FORMAT_FRACTAL_Z"
    and "GetSubFormat E (arg_dst_format args) \<le> 1"
    and "arg_src_shape args = [n, c, h, w]"
    and "arg_dst_shape args = fz_shape n c h w c0"
    and "GetC0Value E (arg_dst_format args) = c0"
    and "0 < c0"
    and "IsShapeValid [n, c, h, w]"
    and "IsShapeValid (fz_shape n c h w c0)"
    and "0 < prod_list [n, c, h, w]"
    and "trans_ready E args (fz_dims n c h w c0) [n, c, h, w] bs"
    and "alloc_ok E (prod_list [n, c, h, w] * GetSizeByDataType E (arg_src_data_type args))"
  shows "\<exists>fz. FractalZ_TransFormat E args result = Inr fz \<and>
         FracZNchw_TransFormat E (reverse_args args fz) result' =
         Inr (result'\<lparr>res_data := Some bs,
                       res_length := n * c * h * w * GetSizeByDataType E (arg_src_data_type args)\<rparr>)"
proof -
  have m: "max 1 c0 = c0" using assms(6) by simp
  have S: "\<forall>d \<in> set [n, c, h, w]. 0 \<le> d" by (rule shape_valid_nonneg [OF assms(7)])
  have p: "0 < n" "0 < c" "0 < h" "0 < w" using prod_list_posD [OF assms(9) S] by auto
  have D: "\<forall>d \<in> set (fz_dims n c h w c0). 0 \<le> d"
    using p assms(6) by (intro fz_dims_nonneg) simp_all
  have forth: "FractalZ_TransFormat E args result =
      Inr (trans_output E args (fz_dims n c h w c0) [n, c, h, w] (nchw_of_fz n c c0) bs result)"
    using assms by (intro FractalZ_Nchw_ok) simp_all
  have "\<exists>fz. FractalZ_TransFormat E args result = Inr fz \<and>
         FracZNchw_TransFormat E (reverse_args args fz) result' =
         Inr (result'\<lparr>res_data := Some bs,
           res_length := prod_list [n, c, h, w] * GetSizeByDataType E (arg_src_data_type args)\<rparr>)"
    using assms
    by (intro fz_nchw.transfer_roundtrip [where n = n and c = c and ?c0.0 = c0 and h = h and w = w
          and F = FractalZ_TransFormat and B = FracZNchw_TransFormat, unfolded m,
          OF forth assms(10,11) D S] FracZNchw_ok) (auto simp: formats_are_def)
  then show ?thesis by (simp add: mult.assoc)
qed

theorem Nchw_fz_roundtrip_witness:
  "\<exists>fz. FractalZ_TransFormat (ref_env 1 2)
           (plain_args FORMAT_NCHW FORMAT_FRACTAL_Z [2, 3, 1, 1] [2, 1, 16, 2] [1, 2, 3, 4, 5, 6]) no_result = Inr fz \<and>
         FracZNchw_TransFormat (ref_env 1 2)
           (reverse_args (plain_args FORMAT_NCHW FORMAT_FRACTAL_Z [2, 3, 1, 1] [2, 1, 16, 2] [1, 2, 3, 4, 5, 6]) fz) no_result =
         Inr \<lparr>res_data = Some [1, 2, 3, 4, 5, 6], res_length = 6\<rparr>"
proof -
  let ?args = "plain_args FORMAT_NCHW FORMAT_FRACTAL_Z [2, 3, 1, 1] [2, 1, 16, 2] [1, 2, 3, 4, 5, 6]"
  have C: "fz_shape 2 3 1 1 2 = [2, 1, 16, 2]" "fz_dims 2 3 1 1 2 = [2, 1, 1, 16, 2]" by code_simp+
  have v: "IsShapeValid [2, 3, 1, 1]" "IsShapeValid [2, 1, 16, 2]" by code_simp+
  have "trans_ready (ref_env 1 2) ?args [2, 1, 1, 16, 2] [2, 3, 1, 1] [1, 2, 3, 4, 5, 6]"
    by (rule trans_ready_ref_env) simp_all
  moreover have "formats_are (ref_env 1 2) ?args FORMAT_NCHW FORMAT_FRACTAL_Z"
    by (simp add: formats_are_def format_defs)
  ultimately show ?thesis
    using Nchw_fz_roundtrip [where E = "ref_env 1 2" and args = ?args and bs = "[1, 2, 3, 4, 5, 6]"
        and n = 2 and c = 3 and h = 1 and w = 1 and ?c0.0 = 2 and result = no_result and result' = no_result] v
    by (simp add: C alloc_ok_ref_env no_result_def format_defs)
qed

text \<open>
  C18: HWCN weights taken to FRACTAL\_Z (ungrouped) and back are, byte for byte, the weights they were.
\<close>

theorem Hwcn_fz_roundtrip:
  assumes "formats_are E args FORMAT_HWCN FORMAT_FRACTAL_Z"
    and "GetSubFormat E (arg_dst_format args) \<le> 1"
    and "arg_dst_sub_format args \<le> 1"
    and "arg_src_shape args = [h, w, c, n]"
    and "arg_dst_shape args = fz_shape n c h w c0"
    and "GetC0Value E (arg_dst_format args) = c0"
    and "0 < c0"
    and "IsShapeValid [h, w, c, n]"
    and "IsShapeValid (fz_shape n c h w c0)"
    and "0 < prod_list [h, w, c, n]"
    and "trans_ready E args (fz_dims n c h w c0) [h, w, c, n] bs"
    and "alloc_ok E (prod_list [h, w, c, n] * GetSizeByDataType E (arg_src_data_type args))"
  shows "\<exists>fz. FractalZ_TransFormat E args result = Inr fz \<and>
         FracZHwcn_TransFormat E (reverse_args args fz) result' =
         Inr (result'\<lparr>res_data := Some bs,
                       res_length := h * w * c * n * GetSizeByDataType E (arg_src_data_type args)\<rparr>)"
proof -
  have m: "max 1 c0 = c0" using assms(7) by simp
  have S: "\<forall>d \<in> set [h, w, c, n]. 0 \<le> d" by (rule shape_valid_nonneg [OF assms(8)])
  have p: "0 < h" "0 < w" "0 < c" "0 < n" using prod_list_posD [OF assms(10) S] by auto
  have D: "\<forall>d \<in> set (fz_dims n c h w c0). 0 \<le> d"
    using p assms(7) by (intro fz_dims_nonneg) simp_all
  have forth: "FractalZ_TransFormat E args result =
      Inr (trans_output E args (fz_dims n c h w c0) [h, w, c, n] (hwcn_of_fz n c c0) bs result)"
    using assms by (intro FractalZ_Hwcn_ok) simp_all
  have "\<exists>fz. FractalZ_TransFormat E args result = Inr fz \<and>
         FracZHwcn_TransFormat E (reverse_args args fz) result' =
         Inr (result'\<lparr>res_data := Some bs,
           res_length := prod_list [h, w, c, n] * GetSizeByDataType E (arg_src_data_type args)\<rparr>)"
    using assms
    by (intro fz_hwcn.transfer_roundtrip [where n = n and c = c and ?c0.0 = c0 and h = h and w = w
          and F = FractalZ_TransFormat and B = FracZHwcn_TransFormat, unfolded m,
          OF forth assms(11,12) D S] FracZHwcn_ok) (auto simp: formats_are_def)
  then show ?thesis by (simp add: mult.assoc)
qed

theorem Hwcn_fz_roundtrip_witness:
  "\<exists>fz. FractalZ_TransFormat (ref_env 1 2)
           (plain_args FORMAT_HWCN FORMAT_FRACTAL_Z [1, 1, 3, 2] [2, 1, 16, 2] [1, 2, 3, 4, 5, 6]) no_result = Inr fz \<and>
         FracZHwcn_TransFormat (ref_env 1 2)
           (reverse_args (plain_args FORMAT_HWCN FORMAT_FRACTAL_Z [1, 1, 3, 2] [2, 1, 16, 2] [1, 2, 3, 4, 5, 6]) fz) no_result =
         Inr \<lparr>res_data = Some [1, 2, 3, 4, 5, 6], res_length = 6\<rparr>"
proof -
  let ?args = "plain_args FORMAT_HWCN FORMAT_FRACTAL_Z [1, 1, 3, 2] [2, 1, 16, 2] [1, 2, 3, 4, 5, 6]"
  have C: "fz_shape 2 3 1 1 2 = [2, 1, 16, 2]" "fz_dims 2 3 1 1 2 = [2, 1, 1, 16, 2]" by code_simp+
  have v: "IsShapeValid [1, 1, 3, 2]" "IsShapeValid [2, 1, 16, 2]" by code_simp+
  have "trans_ready (ref_env 1 2) ?args [2, 1, 1, 16, 2] [1, 1, 3, 2] [1, 2, 3, 4, 5, 6]"
    by (rule trans_ready_ref_env) simp_all
  moreover have "formats_are (ref_env 1 2) ?args FORMAT_HWCN FORMAT_FRACTAL_Z"
    by (simp add: formats_are_def format_defs)
  ultimately show ?thesis
    using Hwcn_fz_roundtrip [where E = "ref_env 1 2" and args = ?args and bs = "[1, 2, 3, 4, 5, 6]"
        and n = 2 and c = 3 and h = 1 and w = 1 and ?c0.0 = 2 and result = no_result and result' = no_result] v
    by (simp add: C alloc_ok_ref_env no_result_def format_defs)
qed

text \<open>
  C19: NHWC weights taken to FRACTAL\_Z and back are, byte for byte, the weights they were.
\<close>

theorem Nhwc_fz_roundtrip:
  assumes "formats_are E args FORMAT_NHWC FORMAT_FRACTAL_Z"
    and "arg_src_shape args = [n, h, w, c]"
    and "arg_dst_shape args = fz_shape n c h w c0"
    and "GetC0Value E (arg_dst_format args) = c0"
    and "0 < c0"
    and "IsShapeValid [n, h, w, c]"
    and "IsShapeValid (fz_shape n c h w c0)"
    and "0 < prod_list [n, h, w, c]"
    and "trans_ready E args (fz_dims n c h w c0) [n, h, w, c] bs"
    and "alloc_ok E (prod_list [n, h, w, c] * GetSizeByDataType E (arg_src_data_type args))"
  shows "\<exists>fz. FractalZ_TransFormat E args result = Inr fz \<and>
         FracZNhwc_TransFormat E (reverse_args args fz) result' =
         Inr (result'\<lparr>res_data := Some bs,
                       res_length := n * h * w * c * GetSizeByDataType E (arg_src_data_type args)\<rparr>)"
proof -
  have m: "max 1 c0 = c0" using assms(5) by simp
  have S: "\<forall>d \<in> set [n, h, w, c]. 0 \<le> d" by (rule shape_valid_nonneg [OF assms(6)])
  have p: "0 < n" "0 < h" "0 < w" "0 < c" using prod_list_posD [OF assms(8) S] by auto
  have D: "\<forall>d \<in> set (fz_dims n c h w c0). 0 \<le> d"
    using p assms(5) by (intro fz_dims_nonneg) simp_all
  have forth: "FractalZ_TransFormat E args result =
      Inr (trans_output E args (fz_dims n c h w c0) [n, h, w, c] (nhwc_of_fz n c c0) bs result)"
    using assms by (intro FractalZ_Nhwc_ok) simp_all
  have "\<exists>fz. FractalZ_TransFormat E args result = Inr fz \<and>
         FracZNhwc_TransFormat E (reverse_args args fz) result' =
         Inr (result'\<lparr>res_data := Some bs,
           res_length := prod_list [n, h, w, c] * GetSizeByDataType E (arg_src_data_type args)\<rparr>)"
    using assms
    by (intro fz_nhwc.transfer_roundtrip [where n = n and c = c and ?c0.0 = c0 and h = h and w = w
          and F = FractalZ_TransFormat and B = FracZNhwc_TransFormat, unfolded m,
          OF forth assms(9,10) D S] FracZNhwc_ok) (auto simp: formats_are_def)
  then show ?thesis by (simp add: mult.assoc)
qed

theorem Nhwc_fz_roundtrip_witness:
  "\<exists>fz. FractalZ_TransFormat (ref_env 1 2)
           (plain_args FORMAT_NHWC FORMAT_FRACTAL_Z [2, 1, 1, 3] [2, 1, 16, 2] [1, 2, 3, 4, 5, 6]) no_result = Inr fz \<and>
         FracZNhwc_TransFormat (ref_env 1 2)
           (reverse_args (plain_args FORMAT_NHWC FORMAT_FRACTAL_Z [2, 1, 1, 3] [2, 1, 16, 2] [1, 2, 3, 4, 5, 6]) fz) no_result =
         Inr \<lparr>res_data = Some [1, 2, 3, 4, 5, 6], res_length = 6\<rparr>"
proof -
  let ?args = "plain_args FORMAT_NHWC FORMAT_FRACTAL_Z [2, 1, 1, 3] [2, 1, 16, 2] [1, 2, 3, 4, 5, 6]"
  have C: "fz_shape 2 3 1 1 2 = [2, 1, 16, 2]" "fz_dims 2 3 1 1 2 = [2, 1, 1, 16, 2]" by code_simp+
  have v: "IsShapeValid [2, 1, 1, 3]" "IsShapeValid [2, 1, 16, 2]" by code_simp+
  have "trans_ready (ref_env 1 2) ?args [2, 1, 1, 16, 2] [2, 1, 1, 3] [1, 2, 3, 4, 5, 6]"
    by (rule trans_ready_ref_env) simp_all
  moreover have "formats_are (ref_env 1 2) ?args FORMAT_NHWC FORMAT_FRACTAL_Z"
    by (simp add: formats_are_def format_defs)
  ultimately show ?thesis
    using Nhwc_fz_roundtrip [where E = "ref_env 1 2" and args = ?args and bs = "[1, 2, 3, 4, 5, 6]"
        and n = 2 and c = 3 and h = 1 and w = 1 and ?c0.0 = 2 and result = no_result and result' = no_result] v
    by (simp add: C alloc_ok_ref_env no_result_def format_defs)
qed

end
