(* ===== verification/TransferFracZGroup.thy ===== *)
theory TransferFracZGroup
  imports TransferFracZ
begin

text \<open>
  Grouped convolution weights, HWCN to FRACTAL\_Z with a sub-format greater than one:
  \<open>TransFormatHwcnToFzWithGroups\<close> of \<^verbatim>\<open>format_transfer_fractal_z.cc\<close>.  The weights of
  \<open>e_mult\<close> consecutive groups share one block of fractals, one below the other on the
  channel axis and side by side on the output axis; everything off the block diagonal is
  zero.
\<close>

section \<open>The enlargement factor\<close>

lemma Lcm_ge_sdiv:
  assumes "0 < a" and "0 < b" and "a * b < 2 ^ 63"
  shows "Lcm_ge a b sdiv a = b div gcd a b" and "0 < b div gcd a b" and "b div gcd a b \<le> b"
proof -
  obtain q where q: "b = gcd a b * q" using gcd_dvd2 [of a b] by (rule dvdE)
  have g: "0 < gcd a b" using assms by simp
  have dq: "b div gcd a b = q" using g by (subst q) simp
  have qpos: "0 < q" using q g assms(2) by (metis zero_less_mult_pos)
  have "lcm a b * gcd a b = a * b" using assms by (simp add: lcm_mult_gcd)
  also have "\<dots> = (a * q) * gcd a b" by (subst q) simp
  finally have "lcm a b = a * q" using g by (metis less_irrefl mult_right_cancel)
  then show "Lcm_ge a b sdiv a = b div gcd a b"
    using assms qpos by (simp add: Lcm_ge_lcm sdiv_nonneg dq)
  show "0 < b div gcd a b" by (simp add: dq qpos)
  have "1 \<le> gcd a b" using g by linarith
  then have "q * 1 \<le> q * gcd a b" using qpos by (intro mult_left_mono) simp_all
  then show "b div gcd a b \<le> b" using q dq by (simp add: mult.commute)
qed

lemma fz_e_mult_lcm:
  assumes "0 < cin" and "0 < cout" and "0 < k" and "k \<le> 2 ^ 20" and "cin < 2 ^ 42" and "cout < 2 ^ 42"
  shows "fz_e_mult cin cout k groups = min (lcm (k div gcd cin k) (16 div gcd cout 16)) groups"
proof -
  have "cin * k \<le> 2 ^ 42 * 2 ^ 20" "cout * 16 \<le> 2 ^ 42 * 16" using assms by (intro mult_mono; simp)+
  then have a: "cin * k < 2 ^ 63" and b: "cout * 16 < 2 ^ 63" by simp_all
  note A = Lcm_ge_sdiv [OF assms(1,3) a] and B = Lcm_ge_sdiv [OF assms(2) _ b]
  have "k div gcd cin k * (16 div gcd cout 16) \<le> 2 ^ 20 * 16"
    using A B assms by (intro mult_mono) simp_all
  then have "Lcm_ge (k div gcd cin k) (16 div gcd cout 16) = lcm (k div gcd cin k) (16 div gcd cout 16)"
    using A B by (intro Lcm_ge_lcm) simp_all
  then show ?thesis using A B by (simp add: fz_e_mult_def kCubeSize_def)
qed

lemma fz_e_mult_bounds:
  assumes "0 < cin" and "0 < cout" and "0 < k" and "k \<le> 2 ^ 20" and "cin < 2 ^ 42" and "cout < 2 ^ 42" and "0 < groups"
  shows "0 < fz_e_mult cin cout k groups" and "fz_e_mult cin cout k groups \<le> groups"
proof -
  have "0 < k div gcd cin k" "0 < 16 div gcd cout 16"
    using assms by (simp_all add: pos_imp_zdiv_pos_iff zdvd_imp_le)
  then have "0 < lcm (k div gcd cin k) (16 div gcd cout 16)" by (simp add: lcm_pos_int)
  then show "0 < fz_e_mult cin cout k groups" and "fz_e_mult cin cout k groups \<le> groups"
    using assms by (simp_all add: fz_e_mult_lcm)
qed

section \<open>The layout\<close>

text \<open>
  Axes of the destination: (group block, C1, H, W, Co, C0).  \<open>e\<close> is the position of the group
  inside its block.
\<close>

fun hwcn_of_fz_group :: "int \<Rightarrow> int \<Rightarrow> int \<Rightarrow> int \<Rightarrow> int \<Rightarrow> int list \<Rightarrow> int list option" where
  "hwcn_of_fz_group cin cout k e_mult groups [g, c1, h, w, co, c0] =
     (let ci = c1 * k + c0; e = ci div cin in
      if e < e_mult \<and> co div cout = e \<and> g * e_mult + e < groups
      then Some [h, w, ci mod cin, (g * e_mult + e) * cout + co mod cout] else None)"
| "hwcn_of_fz_group cin cout k e_mult groups _ = None"

definition fz_group_dims :: "int \<Rightarrow> int \<Rightarrow> int \<Rightarrow> int \<Rightarrow> int \<Rightarrow> int \<Rightarrow> int \<Rightarrow> int list" where
  "fz_group_dims cin cout h w k e_mult groups =
     [Ceil groups e_mult, Ceil (e_mult * cin) k, h, w, Ceil (e_mult * cout) 16 * 16, k]"

definition fz_group_tuple :: "int \<Rightarrow> int \<Rightarrow> int \<Rightarrow> int \<Rightarrow> int list \<Rightarrow> int list" where
  "fz_group_tuple cin cout k e_mult t =
     (let e = t ! 0 mod e_mult; ci = e * cin + t ! 2 in
      [t ! 0 div e_mult, ci div k, t ! 3, t ! 4, e * cout + t ! 5, ci mod k])"

lemma group_pair_lt: "0 \<le> (e :: int) \<Longrightarrow> e < m \<Longrightarrow> 0 \<le> c \<Longrightarrow> c < d \<Longrightarrow> e * d + c < m * d"
  using mult_right_mono [of "e + 1" m d] by (simp add: algebra_simps)

lemma hwcn_of_fz_group_range:
  assumes p: "0 < cin" "0 < cout" "0 < k" "0 < e_mult"
    and i: "in_range (fz_group_dims cin cout h w k e_mult groups) i"
    and j: "hwcn_of_fz_group cin cout k e_mult groups i = Some j"
  shows "in_range [h, w, cin, cout * groups + int rest] j"
proof -
  from i obtain g c1 y x co c0 where i': "i = [g, c1, y, x, co, c0]" and g: "0 \<le> g"
    and c1: "0 \<le> c1" and yx: "0 \<le> y" "y < h" "0 \<le> x" "x < w" and co: "0 \<le> co" and c0: "0 \<le> c0"
    by (auto simp: fz_group_dims_def in_range6)
  let ?ci = "c1 * k + c0"
  let ?G = "g * e_mult + ?ci div cin"
  from j i' have G: "?G < groups" and j': "j = [y, x, ?ci mod cin, ?G * cout + co mod cout]"
    by (simp_all add: Let_def split: if_splits)
  have G0: "0 \<le> ?G" using g c1 c0 p by (simp add: pos_imp_zdiv_nonneg_iff)
  have "?G * cout + co mod cout < cout * groups"
    unfolding mult.commute [of cout groups]
    by (rule group_pair_lt [OF G0 G pos_mod_sign [OF p(2)] pos_mod_bound [OF p(2)]])
  moreover have "0 \<le> ?G * cout + co mod cout"
    by (intro add_nonneg_nonneg mult_nonneg_nonneg G0 less_imp_le [OF p(2)] pos_mod_sign [OF p(2)])
  ultimately show ?thesis
    using yx p unfolding j' in_range_Cons in_range_Nil by auto
qed

interpretation fz_group: layout_map
  "fz_group_dims (max 1 cin) (max 1 cout) h w (max 1 k) (max 1 e_mult) groups"
  "[h, w, max 1 cin, max 1 cout * groups + int rest]"
  "hwcn_of_fz_group (max 1 cin) (max 1 cout) (max 1 k) (max 1 e_mult) groups"
  for cin cout h w k e_mult groups :: int and rest :: nat
  by unfold_locales (rule hwcn_of_fz_group_range; simp)

section \<open>The transfer computes the layout\<close>

lemma fz_group_tuple_ok:
  assumes p: "0 < cin" "0 < cout" "0 < k" "0 < e_mult"
    and t: "in_range [groups, 1, cin, h, w, cout] [g, d, c, y, x, n]"
  shows "in_range (fz_group_dims cin cout h w k e_mult groups) (fz_group_tuple cin cout k e_mult [g, d, c, y, x, n])"
    and "hwcn_of_fz_group cin cout k e_mult groups (fz_group_tuple cin cout k e_mult [g, d, c, y, x, n]) =
         Some [y, x, c, g * cout + n]"
proof -
  let ?e = "g mod e_mult"
  have r: "0 \<le> g" "g < groups" "0 \<le> c" "c < cin" "0 \<le> y" "y < h" "0 \<le> x" "x < w" "0 \<le> n" "n < cout"
    using t by simp_all
  have e: "0 \<le> ?e" "?e < e_mult" using p by simp_all
  have ci: "0 \<le> ?e * cin + c" "?e * cin + c < e_mult * cin"
    using e r p by (simp, intro group_pair_lt) simp_all
  have co: "0 \<le> ?e * cout + n" "?e * cout + n < e_mult * cout"
    using e r p by (simp, intro group_pair_lt) simp_all
  have "?e * cout + n < Ceil (e_mult * cout) 16 * 16" by (rule fz_covers [OF co])
  then show "in_range (fz_group_dims cin cout h w k e_mult groups)
      (fz_group_tuple cin cout k e_mult [g, d, c, y, x, n])"
    using r p e ci co Ceil_covers [OF r(1,2) p(4)] Ceil_covers [OF ci p(3)]
    by (simp add: fz_group_dims_def fz_group_tuple_def pos_imp_zdiv_nonneg_iff Let_def)
  have "g div e_mult * e_mult + ?e = g" by simp
  moreover have "(?e * cin + c) div k * k + (?e * cin + c) mod k = ?e * cin + c" by simp
  moreover have "(?e * cin + c) div cin = ?e" "(?e * cin + c) mod cin = c"
    by (rule int_pair_div [OF r(3,4)], rule int_pair_mod [OF r(3,4)])
  moreover have "(?e * cout + n) div cout = ?e" "(?e * cout + n) mod cout = n"
    by (rule int_pair_div [OF r(9,10)], rule int_pair_mod [OF r(9,10)])
  ultimately show "hwcn_of_fz_group cin cout k e_mult groups
      (fz_group_tuple cin cout k e_mult [g, d, c, y, x, n]) = Some [y, x, c, g * cout + n]"
    using e r by (simp add: fz_group_tuple_def Let_def)
qed

lemma fz_group_tuple_onto:
  assumes p: "0 < cin" "0 < cout" "0 < k" "0 < e_mult"
    and i: "in_range (fz_group_dims cin cout h w k e_mult groups) i"
    and j: "hwcn_of_fz_group cin cout k e_mult groups i = Some j"
  shows "i \<in> fz_group_tuple cin cout k e_mult ` set (indices [groups, 1, cin, h, w, cout])"
proof -
  from i obtain g c1 y x co c0 where i': "i = [g, c1, y, x, co, c0]" and g: "0 \<le> g"
    and c1: "0 \<le> c1" and yx: "0 \<le> y" "y < h" "0 \<le> x" "x < w" and co: "0 \<le> co" and c0: "0 \<le> c0" "c0 < k"
    by (auto simp: fz_group_dims_def in_range6)
  let ?ci = "c1 * k + c0"
  let ?e = "?ci div cin" and ?t = "[g * e_mult + ?ci div cin, 0, ?ci mod cin, y, x, co mod cout]"
  from j i' have e: "?e < e_mult" "co div cout = ?e" "g * e_mult + ?e < groups"
    by (simp_all add: Let_def split: if_splits)
  have e0: "0 \<le> ?e" using p c1 c0 by (simp add: pos_imp_zdiv_nonneg_iff)
  have "(g * e_mult + ?e) div e_mult = g" "(g * e_mult + ?e) mod e_mult = ?e"
    by (rule int_pair_div [OF e0 e(1)], rule int_pair_mod [OF e0 e(1)])
  moreover have "?e * cin + ?ci mod cin = ?ci" "?e * cout + co mod cout = co"
    using e(2) by (simp, metis div_mult_mod_eq)
  moreover have "?ci div k = c1" "?ci mod k = c0"
    by (rule int_pair_div [OF c0], rule int_pair_mod [OF c0])
  ultimately have "fz_group_tuple cin cout k e_mult ?t = i"
    by (simp add: fz_group_tuple_def i' Let_def)
  moreover have "in_range [groups, 1, cin, h, w, cout] ?t"
    using e e0 g p yx by simp
  ultimately show ?thesis unfolding set_indices by (metis imageI mem_Collect_eq)
qed

lemma fz_group_lin:
  assumes "0 < k" "0 \<le> ci" "0 \<le> g" "0 < e_mult" "c1_dim = Ceil (e_mult * cin) k"
    "cout_opt = Ceil (e_mult * cout) 16 * 16"
  shows "g sdiv e_mult * 1 * c1_dim * h * w * cout_opt * k + 0 * c1_dim * h * w * cout_opt * k +
         ci sdiv k * h * w * cout_opt * k + y * w * cout_opt * k + x * cout_opt * k + co * k + ci smod k =
         lin (fz_group_dims cin cout h w k e_mult groups) [g div e_mult, ci div k, y, x, co, ci mod k]"
  using assms by (simp add: fz_group_dims_def sdiv_nonneg smod_nonneg algebra_simps)

lemma fz_group_map:
  assumes "0 < cin" "0 < cout" "0 < k" "0 < e_mult" "0 < groups" "n div groups = cout"
  shows "layout_map (fz_group_dims cin cout h w k e_mult groups) [h, w, cin, n]
           (hwcn_of_fz_group cin cout k e_mult groups)"
proof -
  have "cout * groups \<le> n" using assms(5) unfolding assms(6) [symmetric] by (simp add: int_div_mult_le)
  then show ?thesis
    using fz_group.layout_map_axioms [of cin cout h w k e_mult groups "nat (n - cout * groups)"] assms
    by (simp add: max_def)
qed

lemma HwcnToFzWithGroups_data:
  assumes cout_def: "n div groups = cout" and esz_def: "GetSizeByDataType E (arg_src_data_type args) = esz"
    and e_mult_def: "fz_e_mult c cout k groups = e_mult"
    and D_def: "D = fz_group_dims c cout h w k e_mult groups"
    and ready: "trans_ready E args D [h, w, c, n] bs"
    and shape: "arg_src_shape args = [h, w, c, n]"
    and k: "GetC0Value E (arg_dst_format args) = k" "0 < k"
    and dims: "0 < h" "0 < w" "0 < c" "0 \<le> n" "0 < groups" "0 < cout" "0 < e_mult"
    and ov: "mul64 e_mult c = e_mult * c" "mul64 e_mult cout = e_mult * cout"
      "mul64 (Ceil (e_mult * c) k) k = Ceil (e_mult * c) k * k"
      "mul64 (Ceil (e_mult * cout) 16) 16 = Ceil (e_mult * cout) 16 * 16"
      "wrap64 (prod_list D * esz) = prod_list D * esz"
    and fits: "prod_list D * esz \<le> SECUREC_MEM_MAX_LEN E"
  shows "TransFormatHwcnToFzWithGroups E args result groups =
         Inr (trans_output E args D [h, w, c, n] (hwcn_of_fz_group c cout k e_mult groups) bs result)"
proof -
  note r = trans_readyD [OF ready, unfolded esz_def]
  have Dpos: "\<forall>d \<in> set D. 0 < d"
    using dims k by (auto simp: D_def fz_group_dims_def Ceil_gt_0)
  have P: "0 < prod_list D" using Dpos by (rule prod_list_pos)
  obtain buf where buf: "new_uint8 E (prod_list D * esz) = Some buf" "int (length buf) = prod_list D * esz"
    using ready by (auto simp: trans_ready_def Let_def alloc_ok_def esz_def)
  have clear: "memset_checked E err buf (Some 0) (prod_list D * esz) (prod_list D * esz) =
      Inr (replicate (nat (prod_list D) * nat esz) 0)" for err
    using memset_all [OF r(1) _ fits buf(2)] P r(2) by (simp add: nat_mult_distrib)
  have div: "n sdiv groups = cout" using dims by (simp add: cout_def sdiv_nonneg)
  have c1: "(Ceil (e_mult * c) k * k) sdiv k = Ceil (e_mult * c) k"
    using dims k Ceil_nonneg [of "e_mult * c" k] by (simp add: sdiv_nonneg)
  have total: "Ceil groups e_mult * Ceil (e_mult * c) k * h * w * (Ceil (e_mult * cout) 16 * 16) * k * esz =
      prod_list D * esz"
    by (simp add: D_def fz_group_dims_def ac_simps)
  have nz: "prod_list D \<noteq> 0" "esz \<noteq> 0" "k \<noteq> 0" "c \<noteq> 0" "cout \<noteq> 0" "groups \<noteq> 0"
    using P r(2) k dims by auto
  have L: "layout_map D [h, w, c, n] (hwcn_of_fz_group c cout k e_mult groups)"
    unfolding D_def by (rule fz_group_map [OF dims(3,6) k(2) dims(7,5) cout_def])
  note R = layout_map.relayout_over_zero [OF L dims_nonneg [OF Dpos],
      where tup = "fz_group_tuple c cout k e_mult" and src = "\<lambda>t. [t ! 3, t ! 4, t ! 2, t ! 0 * cout + t ! 5]"
        and ts = "indices [groups, 1, c, h, w, cout]" and esz = esz and bs = bs]
  show ?thesis
  proof (simp add: TransFormatHwcnToFzWithGroups_def shape vec_ix_in Let_def div dims k ov c1 kCubeSize_def
      e_mult_def esz_def total nz for6 buf clear kDim_def, rule rbind_InrI, rule R, goal_cases)
    case (1 t)
    then show ?case using fz_group_tuple_ok(1) [OF dims(3,6) k(2) dims(7)]
      by (auto simp: set_indices in_range6 D_def)
  next
    case (2 t)
    then show ?case using fz_group_tuple_ok(2) [OF dims(3,6) k(2) dims(7)]
      by (auto simp: set_indices in_range6)
  next
    case (3 i j)
    then show ?case using fz_group_tuple_onto [OF dims(3,6) k(2) dims(7)] by (simp add: D_def)
  next
    case (7 t d)
    then obtain g cc y x m where t: "t = [g, 0, cc, y, x, m]" and pos: "0 \<le> g" "0 \<le> cc"
      by (auto simp: set_indices in_range6)
    let ?ci = "g mod e_mult * c + cc" and ?co = "g mod e_mult * cout + m"
    have tup: "fz_group_tuple c cout k e_mult t = [g div e_mult, ?ci div k, y, x, ?co, ?ci mod k]"
      by (simp add: t fz_group_tuple_def Let_def)
    have ci: "0 \<le> ?ci" using dims pos by simp
    note K = fz_group_lin [OF k(2) ci pos(1) dims(7) refl refl, of c h w cout y x ?co groups,
        folded D_def tup]
    have "copy_bytes d (lin D (fz_group_tuple c cout k e_mult t) * esz) (arg_data args)
        (lin [h, w, c, n] [y, x, cc, g * cout + m] * esz) esz =
      Inr (put d (nat (lin D (fz_group_tuple c cout k e_mult t)) * nat esz)
        (elem (nat esz) bs (nat (lin [h, w, c, n] [y, x, cc, g * cout + m]))))"
      using copy_bytes_elem [OF 7(2) _ _ r(6)] 7(3,4) r(5) by (simp add: t)
    then show ?case
      unfolding K [symmetric] using smod_nonneg [OF pos(1) dims(7)] by (simp add: t algebra_simps)
  qed (use r in \<open>auto simp: trans_output_def esz_def Let_def\<close>)
qed

section \<open>The transfer as a whole\<close>

definition fz_group_shape :: "int \<Rightarrow> int \<Rightarrow> int \<Rightarrow> int \<Rightarrow> int \<Rightarrow> int \<Rightarrow> int \<Rightarrow> int list" where
  "fz_group_shape cin cout h w k e_mult groups =
     [Ceil groups e_mult * Ceil (e_mult * cin) k * h * w, Ceil (e_mult * cout) 16, 16, k]"

lemma prod_fz_group_shape:
  "prod_list (fz_group_shape cin cout h w k e groups) = prod_list (fz_group_dims cin cout h w k e groups)"
  by (simp add: fz_group_shape_def fz_group_dims_def ac_simps)

lemma factor_le: "0 < (a :: int) \<Longrightarrow> 0 < b \<Longrightarrow> a * b \<le> m \<Longrightarrow> a \<le> m"
proof -
  assume "0 < a" "0 < b" "a * b \<le> m"
  moreover from this have "a * 1 \<le> a * b" by (intro mult_left_mono) simp_all
  ultimately show "a \<le> m" by linarith
qed

lemma fz_group_no_overflow:
  assumes p: "0 < cin" "0 < cout" "0 < h" "0 < w" "0 < k" "0 < e" "0 < groups"
    and valid: "IsShapeValid (fz_group_shape cin cout h w k e groups)"
  shows "mul64 e cin = e * cin" "mul64 e cout = e * cout"
    "mul64 (Ceil (e * cin) k) k = Ceil (e * cin) k * k"
    "mul64 (Ceil (e * cout) 16) 16 = Ceil (e * cout) 16 * 16"
    "mul64 (mul64 (mul64 (Ceil groups e) (Ceil (e * cin) k)) h) w = Ceil groups e * Ceil (e * cin) k * h * w"
proof -
  let ?G = "Ceil groups e" and ?C = "Ceil (e * cin) k" and ?N = "Ceil (e * cout) 16"
  have q: "0 < ?G" "0 < ?C" "0 < ?N" using p by (simp_all add: Ceil_gt_0)
  have le: "?G * ?C * h * w * (?N * (16 * k)) \<le> kShapeItemNumMAX"
    using shape_valid_bounds(2) [OF valid] by (simp add: fz_group_shape_def)
  have Ck: "?C * k \<le> kShapeItemNumMAX"
    by (rule factor_le [of _ "?G * h * w * ?N * 16"]) (use p q le in \<open>simp_all add: ac_simps\<close>)
  have N16: "?N * 16 \<le> kShapeItemNumMAX"
    by (rule factor_le [of _ "?G * ?C * h * w * k"]) (use p q le in \<open>simp_all add: ac_simps\<close>)
  have G4: "?G * ?C * h * w \<le> kShapeItemNumMAX"
    by (rule factor_le [of _ "?N * (16 * k)"]) (use p q le in simp_all)
  have G3: "?G * ?C * h \<le> kShapeItemNumMAX"
    by (rule factor_le [OF _ p(4) G4]) (use p q in simp)
  have G2: "?G * ?C \<le> kShapeItemNumMAX"
    by (rule factor_le [OF _ p(3) G3]) (use q in simp)
  have "e * cin \<le> ?C * k" "e * cout \<le> ?N * 16"
    using Ceil_tight [of "e * cin" k] Ceil_tight [of "e * cout" 16] p by simp_all
  then have small: "e * cin \<le> kShapeItemNumMAX" "e * cout \<le> kShapeItemNumMAX" using Ck N16 by linarith+
  have I: "mul64 a b = a * b" if "0 < a" "0 < b" "a * b \<le> kShapeItemNumMAX" for a b
    using that by (intro mul64_id is_int64_bound) (simp_all add: kShapeItemNumMAX_def)
  show "mul64 e cin = e * cin" "mul64 e cout = e * cout" "mul64 ?C k = ?C * k" "mul64 ?N 16 = ?N * 16"
    "mul64 (mul64 (mul64 ?G ?C) h) w = ?G * ?C * h * w"
    using p q small Ck N16 G2 G3 G4 by (simp_all add: I)
qed

lemma TransShapeToFzWithGroups_ok:
  assumes p: "0 < c" "0 < h" "0 < w" "0 < k" "0 < groups" "0 \<le> n"
    and cout: "n div groups = cout" "0 < cout"
    and e: "fz_e_mult c cout k groups = e" "0 < e"
    and valid: "IsShapeValid (fz_group_shape c cout h w k e groups)"
  shows "TransShapeToFzWithGroups n c h w k groups = Inr (fz_group_shape c cout h w k e groups)"
proof -
  note ov = fz_group_no_overflow [OF p(1) cout(2) p(2-4) e(2) p(5) valid]
  have "(Ceil (e * c) k * k) sdiv k = Ceil (e * c) k"
    using p e Ceil_nonneg [of "e * c" k] by (simp add: sdiv_nonneg)
  moreover have "mul64 cout e = e * cout" using ov(2) by (simp add: mul64_def mult.commute)
  ultimately show ?thesis
    using p cout e valid ov
    by (simp add: TransShapeToFzWithGroups_def sdiv_nonneg Let_def kCubeSize_def fz_group_shape_def)
qed

section \<open>Properties\<close>

text \<open>
  C3: grouped HWCN weights become a block-diagonal FRACTAL\_Z tensor.  For every destination
  position the delivered element is the weight that belongs there, or zero when the
  position lies off the block diagonal or in the padding; the length is that of the shape
  \<open>TransShape\<close> derives.  The whole destination is cleared by one call, so its length must
  not exceed the limit of \<^verbatim>\<open>memset_s\<close>.
\<close>

theorem FractalZ_groups_elements:
  assumes "formats_are E args FORMAT_HWCN FORMAT_FRACTAL_Z"
    and "GetSubFormat E (arg_dst_format args) = groups" "arg_dst_sub_format args = groups" "1 < groups"
    and "arg_src_shape args = [h, w, c, n]" "groups \<le> n"
    and "arg_dst_shape args = fz_group_shape c (n div groups) h w k (fz_e_mult c (n div groups) k groups) groups"
    and "GetC0Value E (arg_dst_format args) = k" "0 < k" "k \<le> 2 ^ 20"
    and "IsShapeValid [h, w, c, n]" "IsShapeValid (arg_dst_shape args)"
    and "0 < prod_list [h, w, c, n]"
    and "D = fz_group_dims c (n div groups) h w k (fz_e_mult c (n div groups) k groups) groups"
    and "trans_ready E args D [h, w, c, n] bs"
    and "esz = GetSizeByDataType E (arg_src_data_type args)"
    and "prod_list D * esz \<le> SECUREC_MEM_MAX_LEN E"
  shows "\<exists>out. FractalZ_TransFormat E args result =
           Inr (result\<lparr>res_data := Some out, res_length := prod_list D * esz\<rparr>) \<and>
         int (length out) = prod_list (arg_dst_shape args) * esz \<and>
         (\<forall>i. in_range D i \<longrightarrow> tensor_at (nat esz) D out i =
            (case hwcn_of_fz_group c (n div groups) k (fz_e_mult c (n div groups) k groups) groups i of
               Some j \<Rightarrow> tensor_at (nat esz) [h, w, c, n] bs j
             | None \<Rightarrow> replicate (nat esz) 0))"
proof -
  let ?cout = "n div groups"
  let ?e = "fz_e_mult c ?cout k groups"
  have d: "0 < h" "0 < w" "0 < c" "0 < n"
    using prod_list_posD [OF assms(13) shape_valid_nonneg [OF assms(11)]] by auto
  have g: "0 < groups" and cout: "0 < ?cout" using assms(4,6) by (simp_all add: pos_imp_zdiv_pos_iff)
  have le: "h * (w * (c * n)) \<le> kShapeItemNumMAX" using shape_valid_bounds(2) [OF assms(11)] by simp
  have "c \<le> kShapeItemNumMAX"
    by (rule factor_le [of _ "h * w * n"]) (use d le in \<open>simp_all add: ac_simps\<close>)
  moreover have "n \<le> kShapeItemNumMAX"
    by (rule factor_le [of _ "h * w * c"]) (use d le in \<open>simp_all add: ac_simps\<close>)
  moreover have "?cout \<le> n" by (rule factor_le [OF cout g int_div_mult_le [OF g]])
  ultimately have b: "c < 2 ^ 42" "?cout < 2 ^ 42" by (simp_all add: kShapeItemNumMAX_def)
  have e: "0 < ?e" by (rule fz_e_mult_bounds(1) [OF d(3) cout assms(9,10) b g])
  note r = trans_readyD [OF assms(15)]
  note ov = fz_group_no_overflow [OF d(3) cout d(1,2) assms(9) e g assms(12) [unfolded assms(7)]]
  have wr: "wrap64 (prod_list D * esz) = prod_list D * esz"
    using total_size_int64 [OF assms(12) r(4)]
    by (simp add: assms(7,14,16) prod_fz_group_shape wrap64_id)
  note data = HwcnToFzWithGroups_data [OF refl assms(16) [symmetric] refl assms(14,15,5,8,9) d(1-3)
      less_imp_le [OF d(4)] g cout e ov(1-4) wr assms(17)]
  have run: "FractalZ_TransFormat E args result = Inr (trans_output E args D [h, w, c, n]
      (hwcn_of_fz_group c ?cout k ?e groups) bs result)"
    using assms(1-8) data TransShapeToFzWithGroups_ok [OF d(3,1,2) assms(9) g less_imp_le [OF d(4)] refl cout
        refl e assms(12) [unfolded assms(7)]] r(2) assms(11)
    by (simp add: fz_entry_simps TransShapeHwcnToFzWithGroups_def)
  have L: "layout_map D [h, w, c, n] (hwcn_of_fz_group c ?cout k ?e groups)"
    unfolding assms(14) by (rule fz_group_map [OF d(3) cout assms(9) e g refl])
  have "\<forall>d \<in> set D. 0 \<le> d"
    using d g cout e assms(9) by (auto simp: assms(14) fz_group_dims_def Ceil_nonneg)
  from layout_map.trans_output_elements [OF L run assms(15) this assms(16)]
  show ?thesis using assms(7,14) by (simp add: prod_fz_group_shape)
qed

theorem FractalZ_groups_elements_witness:
  "\<exists>out. FractalZ_TransFormat (ref_env 1 2)
           ((plain_args FORMAT_HWCN 516 [1, 1, 1, 2] [1, 1, 16, 2] [7, 8])
              \<lparr>arg_dst_primary_format := FORMAT_FRACTAL_Z, arg_dst_sub_format := 2\<rparr>) no_result =
         Inr (no_result\<lparr>res_data := Some out, res_length := 32\<rparr>) \<and>
       tensor_at 1 [1, 1, 1, 1, 16, 2] out [0, 0, 0, 0, 0, 0] = [7] \<and>
       tensor_at 1 [1, 1, 1, 1, 16, 2] out [0, 0, 0, 0, 1, 1] = [8] \<and>
       tensor_at 1 [1, 1, 1, 1, 16, 2] out [0, 0, 0, 0, 1, 0] = [0]"
proof -
  let ?args = "(plain_args FORMAT_HWCN 516 [1, 1, 1, 2] [1, 1, 16, 2] [7, 8])
    \<lparr>arg_dst_primary_format := FORMAT_FRACTAL_Z, arg_dst_sub_format := 2\<rparr>"
  let ?E = "ref_env 1 2" and ?D = "[1, 1, 1, 1, 16, 2]"
  have C: "fz_e_mult 1 1 2 2 = 2" "fz_group_shape 1 1 1 1 2 2 2 = [1, 1, 16, 2]"
    "fz_group_dims 1 1 1 1 2 2 2 = ?D" by code_simp+
  have v: "IsShapeValid [1, 1, 1, 2]" "IsShapeValid [1, 1, 16, 2]" by code_simp+
  have e: "tensor_at (Suc 0) [1, 1, 1, 2] [7, 8] [0, 0, 0, 0] = [7 :: byte]"
    "tensor_at (Suc 0) [1, 1, 1, 2] [7, 8] [0, 0, 0, 1] = [8 :: byte]" by code_simp+
  have "trans_ready ?E ?args ?D [1, 1, 1, 2] [7, 8]" by (rule trans_ready_ref_env) simp_all
  moreover have "formats_are ?E ?args FORMAT_HWCN FORMAT_FRACTAL_Z"
    by (simp add: formats_are_def format_defs)
  ultimately obtain out where o: "FractalZ_TransFormat ?E ?args no_result =
        Inr (no_result\<lparr>res_data := Some out, res_length := 32\<rparr>)"
      "\<forall>i. in_range ?D i \<longrightarrow> tensor_at (nat 1) ?D out i =
         (case hwcn_of_fz_group 1 1 2 2 2 i of Some j \<Rightarrow> tensor_at (nat 1) [1, 1, 1, 2] [7, 8] j
          | None \<Rightarrow> replicate (nat 1) 0)"
    using FractalZ_groups_elements [where E = ?E and args = ?args and groups = 2 and h = 1 and w = 1 and c = 1
        and n = 2 and k = 2 and D = ?D and bs = "[7, 8]" and esz = 1 and result = no_result] v
    by (auto simp: C)
  show ?thesis
    using o(1) o(2) [rule_format, of "[0, 0, 0, 0, 0, 0]"] o(2) [rule_format, of "[0, 0, 0, 0, 1, 1]"]
      o(2) [rule_format, of "[0, 0, 0, 0, 1, 0]"]
    by (intro exI [of _ out]) (simp add: e)
qed

text \<open>
  C20: on NCHW weights the transfer ignores the group count.  \<open>TransShape\<close> demands the grouped
  destination shape, but the data delivered is the ungrouped FRACTAL\_Z layout and its length
  is that of the ungrouped shape.
\<close>

theorem FractalZ_Nchw_ignores_groups:
  assumes "formats_are E args FORMAT_NCHW FORMAT_FRACTAL_Z"
    and "GetSubFormat E (arg_dst_format args) = groups" "1 < groups" "groups \<le> n"
    and "arg_src_shape args = [n, c, h, w]"
    and "GetC0Value E (arg_dst_format args) = k" "0 < k"
    and "e_mult = fz_e_mult c (n div groups) k groups" "0 < e_mult"
    and "arg_dst_shape args = fz_group_shape c (n div groups) h w k e_mult groups"
    and "IsShapeValid [n, c, h, w]" "IsShapeValid (arg_dst_shape args)"
    and "0 < prod_list [n, c, h, w]"
    and "trans_ready E args (fz_dims n c h w k) [n, c, h, w] bs"
    and "IsShapeValid (fz_shape n c h w k)"
  shows "FractalZ_TransShape E (arg_src_format args) (arg_src_shape args) (arg_src_data_type args)
           (arg_dst_format args) = Inr (fz_group_shape c (n div groups) h w k e_mult groups) \<and>
         FractalZ_TransFormat E args result =
         Inr (trans_output E args (fz_dims n c h w k) [n, c, h, w] (nchw_of_fz n c k) bs result)"
proof -
  have d: "0 < n" "0 < c" "0 < h" "0 < w"
    using prod_list_posD [OF assms(13) shape_valid_nonneg [OF assms(11)]] by auto
  have g: "0 < groups" and cout: "0 < n div groups" using assms(3,4) by (simp_all add: pos_imp_zdiv_pos_iff)
  note r = trans_readyD [OF assms(14)]
  note ts = TransShapeToFzWithGroups_ok [OF d(2-4) assms(7) g less_imp_le [OF d(1)] refl cout
      assms(8) [symmetric] assms(9) assms(12) [unfolded assms(10)]]
  have shape: "FractalZ_TransShape E (arg_src_format args) (arg_src_shape args) (arg_src_data_type args)
           (arg_dst_format args) = Inr (fz_group_shape c (n div groups) h w k e_mult groups)"
    using assms(1-7,11) r(2) ts by (simp add: fz_entry_simps TransShapeNchwToFzWithGroups_def)
  have "is_int64 (prod_list (fz_dims n c h w k) * GetSizeByDataType E (arg_src_data_type args))"
    using total_size_int64 [OF assms(15) r(4)] by (simp add: prod_fz_shape)
  from NchwToFz_data [OF assms(14,5,6,7) d this]
  have "FractalZ_TransFormat E args result =
         Inr (trans_output E args (fz_dims n c h w k) [n, c, h, w] (nchw_of_fz n c k) bs result)"
    using assms(1,10) unfolding FractalZ_TransFormat_def shape
    by (simp add: IsTransShapeDstCorrect_def formats_are_def format_defs)
  with shape show ?thesis by blast
qed

theorem FractalZ_Nchw_ignores_groups_witness:
  "\<exists>fz. FractalZ_TransFormat (ref_env 1 2)
           ((plain_args FORMAT_NCHW 516 [2, 2, 1, 1] [2, 1, 16, 2] [1, 2, 3, 4])
              \<lparr>arg_dst_primary_format := FORMAT_FRACTAL_Z, arg_dst_sub_format := 2\<rparr>) no_result = Inr fz \<and>
        res_length fz = 32 \<and> prod_list [2, 1, 16, 2 :: int] = 64"
proof -
  let ?args = "(plain_args FORMAT_NCHW 516 [2, 2, 1, 1] [2, 1, 16, 2] [1, 2, 3, 4])
    \<lparr>arg_dst_primary_format := FORMAT_FRACTAL_Z, arg_dst_sub_format := 2\<rparr>"
  let ?E = "ref_env 1 2"
  have C: "fz_e_mult 2 1 2 2 = 2" "fz_group_shape 2 1 1 1 2 2 2 = [2, 1, 16, 2]"
    "fz_dims 2 2 1 1 2 = [1, 1, 1, 16, 2]" "fz_shape 2 2 1 1 2 = [1, 1, 16, 2]" by code_simp+
  have v: "IsShapeValid [2, 2, 1, 1]" "IsShapeValid [2, 1, 16, 2]" "IsShapeValid [1, 1, 16, 2]" by code_simp+
  have "trans_ready ?E ?args [1, 1, 1, 16, 2] [2, 2, 1, 1] [1, 2, 3, 4]" by (rule trans_ready_ref_env) simp_all
  moreover have "formats_are ?E ?args FORMAT_NCHW FORMAT_FRACTAL_Z"
    by (simp add: formats_are_def format_defs)
  ultimately have "FractalZ_TransFormat ?E ?args no_result =
      Inr (trans_output ?E ?args [1, 1, 1, 16, 2] [2, 2, 1, 1] (nchw_of_fz 2 2 2) [1, 2, 3, 4] no_result)"
    using FractalZ_Nchw_ignores_groups [where E = ?E and args = ?args and groups = 2 and n = 2 and c = 2
        and h = 1 and w = 1 and k = 2 and e_mult = 2 and bs = "[1, 2, 3, 4]" and result = no_result] v
    by (simp add: C)
  then show ?thesis by (simp add: trans_output_def Let_def)
qed

end
