(* ===== verification/TransferRows.thy ===== *)
theory TransferRows
  imports TransferBase
begin

text \<open>
  The transfers between ND and FRACTAL\_NZ or FRACTAL\_ZZ copy a row of \<open>w\<close> elements as
  \<open>w / w0\<close> runs of \<open>w0\<close> elements and a tail of single elements.  A run is one
  \<^verbatim>\<open>memcpy_s\<close> of \<open>size * w0\<close> bytes.  This theory shows that a nest of such rows writes
  every element to its place.
\<close>

section \<open>Shapes and buffers of the matrix layouts\<close>

definition DIM_DEFAULT_VALUE :: int where "DIM_DEFAULT_VALUE = 1"

text \<open>\<^verbatim>\<open>shape[shape.size() - k]\<close>, whose unsigned index wraps around when the shape is too short.\<close>

definition vec_back :: "'a list \<Rightarrow> nat \<Rightarrow> 'a res" where
  "vec_back xs k = (if length xs < k then Inl Undefined else vec_ix xs (length xs - k))"

text \<open>\<^verbatim>\<open>new (std::nothrow) uint8_t[n]()\<close>: the array is value-initialised.\<close>

definition new_uint8_zero :: "ge_env \<Rightarrow> int \<Rightarrow> byte list option" where
  "new_uint8_zero E n = map_option (\<lambda>buf. replicate (length buf) 0) (new_uint8 E n)"

lemma vec_back_in [res_simps]: "0 < k \<Longrightarrow> k \<le> length xs \<Longrightarrow> vec_back xs k = Inr (xs ! (length xs - k))"
  by (simp add: vec_back_def vec_ix_in)

lemma vec_back_last4 [simp]:
  "vec_back (lead @ [a, b, c, d]) 4 = Inr a"
  "vec_back (lead @ [a, b, c, d]) 3 = Inr b"
  "vec_back (lead @ [a, b, c, d]) 2 = Inr c"
  "vec_back (lead @ [a, b, c, d]) (Suc 0) = Inr d"
  by (simp_all add: vec_back_def vec_ix_def nth_append)

lemma new_uint8_zero_alloc:
  "alloc_ok E n \<Longrightarrow> new_uint8_zero E n = Some (replicate (nat n) 0)"
  by (auto simp: alloc_ok_def new_uint8_zero_def)

lemma trans_ready_prod:
  "prod_list D = prod_list D' \<Longrightarrow> prod_list S = prod_list S' \<Longrightarrow>
   trans_ready E args D S bs = trans_ready E args D' S' bs"
  by (simp add: trans_ready_def)

text \<open>The matrix view of a tensor: the number of matrices, their rows and their columns.\<close>

definition nd_view :: "int list \<Rightarrow> int list" where
  "nd_view s =
     (if length s = 1 then [1, 1, s ! 0]
      else [prod_list (take (length s - 2) s), s ! (length s - 2), s ! (length s - 1)])"

lemma split_last2: "2 \<le> length s \<Longrightarrow> s = take (length s - 2) s @ [s ! (length s - 2), s ! (length s - 1)]"
proof -
  assume a: "2 \<le> length s"
  then have "length s - 1 = Suc (length s - 2)" by simp
  then have "drop (length s - 2) s = [s ! (length s - 2), s ! (length s - 1)]"
    using a by (simp add: Cons_nth_drop_Suc [symmetric])
  then show ?thesis by (metis append_take_drop_id)
qed

lemma nd_view_cases:
  assumes "s \<noteq> []"
  obtains (vector) n where "s = [n]" and "nd_view s = [1, 1, n]"
  | (matrices) lead h w where "s = lead @ [h, w]" and "nd_view s = [prod_list lead, h, w]"
proof (cases "length s = 1")
  case True
  then obtain n where "s = [n]" by (cases s) auto
  then show ?thesis using vector by (simp add: nd_view_def)
next
  case False
  then have "2 \<le> length s" using assms by (cases s) (auto simp: Suc_le_eq)
  from split_last2 [OF this] show ?thesis using matrices False unfolding nd_view_def by metis
qed

lemma prod_nd_view: "s \<noteq> [] \<Longrightarrow> prod_list (nd_view s) = prod_list s"
  by (cases s rule: nd_view_cases) (simp_all add: mult.assoc)

lemma nd_view_nonneg: "\<forall>d \<in> set s. 0 \<le> d \<Longrightarrow> s \<noteq> [] \<Longrightarrow> \<forall>d \<in> set (nd_view s). 0 \<le> d"
  by (cases s rule: nd_view_cases) (simp_all add: prod_list_nonneg)

lemma shape_valid_lead:
  assumes "IsShapeValid (lead @ rest)"
  shows "foldl mul64 1 lead = prod_list lead"
proof (cases "lead = []")
  case False
  have "IsShapeValid lead"
    unfolding shape_valid_iff
  proof (intro conjI allI impI)
    fix k assume "k \<le> length lead"
    then show "prod_list (take k lead) \<le> kShapeItemNumMAX"
      using assms unfolding shape_valid_iff by (auto dest: spec [of _ k])
  qed (use assms False in \<open>auto simp: shape_valid_iff\<close>)
  from shape_valid_num [OF this] show ?thesis by (simp add: GetItemNumByShape_def)
qed simp

section \<open>A run is a sequence of element copies\<close>

lemma put_append:
  "a + length u + length v \<le> length d \<Longrightarrow> put d a (u @ v) = put (put d a u) (a + length u) v"
  by (simp add: put_def ac_simps)

lemma get_append: "get bs off (m + n) = get bs off m @ get bs (off + m) n"
  by (simp add: get_def take_add add.commute)

definition put_elem :: "nat \<Rightarrow> byte list \<Rightarrow> (int \<Rightarrow> int) \<Rightarrow> (int \<Rightarrow> int) \<Rightarrow> int \<Rightarrow> byte list \<Rightarrow> byte list" where
  "put_elem sz bs dp sp x d = put d (nat (dp x) * sz) (elem sz bs (nat (sp x)))"

lemma length_put_elem:
  assumes "length d = N * sz" and "nat (dp x) < N" and "length bs = M * sz" and "nat (sp x) < M"
  shows "length (put_elem sz bs dp sp x d) = N * sz"
  using assms elem_in_bounds [OF assms(2,1)] length_elem [OF assms(4,3)]
  by (simp add: put_elem_def length_put)

lemma put_run:
  assumes "length d = N * sz" and "0 \<le> K" and "K + int m \<le> int N"
    and "length bs = M * sz" and "0 \<le> J" and "J + int m \<le> int M"
  shows "put d (nat K * sz) (get bs (nat J * sz) (m * sz)) =
         fold (put_elem sz bs (\<lambda>k. K + k) (\<lambda>k. J + k)) [0..int m - 1] d"
  using assms(3,6)
proof (induction m)
  case 0
  then show ?case by (simp add: get_def put_def)
next
  case (Suc m)
  let ?u = "get bs (nat J * sz) (m * sz)"
  have split: "[0..int (Suc m) - 1] = [0..int m - 1] @ [int m]" by (simp add: upto_rec2)
  have nK: "nat (K + int m) = nat K + m" and nJ: "nat (J + int m) = nat J + m" using assms by auto
  have "(nat J + Suc m) * sz \<le> M * sz" using Suc.prems assms by (intro mult_right_mono) auto
  then have u: "length ?u = m * sz" and el: "length (elem sz bs (nat J + m)) = sz"
    using assms(4) by (simp_all add: length_get elem_def distrib_right)
  have "(nat K + Suc m) * sz \<le> N * sz" using Suc.prems assms by (intro mult_right_mono) auto
  then have fits: "nat K * sz + length ?u + length (elem sz bs (nat J + m)) \<le> length d"
    using assms(1) u el by (simp add: distrib_right)
  have "get bs (nat J * sz) (Suc m * sz) = ?u @ elem sz bs (nat J + m)"
    using get_append [of bs "nat J * sz" "m * sz" sz] by (simp add: elem_def distrib_right add.commute)
  then have "put d (nat K * sz) (get bs (nat J * sz) (Suc m * sz)) =
      put (put d (nat K * sz) ?u) ((nat K + m) * sz) (elem sz bs (nat J + m))"
    using put_append [OF fits] u by (simp add: distrib_right)
  also have "put d (nat K * sz) ?u = fold (put_elem sz bs (\<lambda>k. K + k) (\<lambda>k. J + k)) [0..int m - 1] d"
    using Suc.prems by (intro Suc.IH) auto
  finally show ?case unfolding split by (simp add: put_elem_def [of _ _ _ _ "int m"] nK nJ)
qed

section \<open>Run copies\<close>

text \<open>A copier that also copies runs: \<open>m\<close> elements with one call.\<close>

locale run_copier = elem_copier cp ze
  for cp :: "ge_env \<Rightarrow> byte list \<Rightarrow> int \<Rightarrow> int \<Rightarrow> byte list option \<Rightarrow> int \<Rightarrow> int \<Rightarrow> byte list res"
    and ze :: "ge_env \<Rightarrow> byte list \<Rightarrow> int \<Rightarrow> int \<Rightarrow> int \<Rightarrow> byte list res" +
  assumes cp_run: "securec_ok E \<Longrightarrow> slot P esz d K \<Longrightarrow> K + m \<le> P \<Longrightarrow> 0 < m \<Longrightarrow>
      esz * m \<le> SECUREC_MEM_MAX_LEN E \<Longrightarrow> 0 \<le> J \<Longrightarrow> J + m \<le> Q \<Longrightarrow> length bs = nat Q * nat esz \<Longrightarrow>
      cp E d (P * esz) (K * esz) (Some bs) (J * esz) (esz * m) =
      Inr (put d (nat K * nat esz) (get bs (nat J * nat esz) (nat m * nat esz)))"

lemma memcpy_run:
  assumes E: "securec_ok E" and d: "slot P esz d K" and m: "K + m \<le> P" "0 < m"
    and lim: "esz * m \<le> SECUREC_MEM_MAX_LEN E"
    and J: "0 \<le> J" "J + m \<le> Q" and bs: "length bs = nat Q * nat esz"
  shows "memcpy_checked E err d (Some (K * esz)) (protected_size E (P * esz) (K * esz))
           (Some bs) (J * esz) (esz * m) =
         Inr (put d (nat K * nat esz) (get bs (nat J * nat esz) (nat m * nat esz)))"
proof -
  have s: "0 < esz" "0 \<le> K" using d by (auto simp: slot_def)
  have "(K + m) * esz \<le> P * esz" using m s by (intro mult_right_mono) auto
  then have p: "esz * m \<le> protected_size E (P * esz) (K * esz)"
    using lim by (simp add: protected_size_def algebra_simps)
  have "(J + m) * esz \<le> Q * esz" using J s by (intro mult_right_mono) auto
  then have b: "J * esz + esz * m \<le> int (length bs)"
    using J m s bs by (simp add: algebra_simps)
  have "memcpy_s E d (Some (K * esz)) (protected_size E (P * esz) (K * esz)) (Some bs) (J * esz) (esz * m)
      = (EOK, put d (nat (K * esz)) (get bs (nat (J * esz)) (nat (esz * m))))"
    using protected_size_slot [OF E d] slot_bounds [OF d] p b s J m
    by (intro securec_memcpy [OF E]) auto
  then show ?thesis
    using s J m by (simp add: memcpy_checked_def nat_mult_distrib EOK_def mult.commute)
qed

interpretation guarded_run: run_copier copy_elem zero_elem
proof unfold_locales
  fix E P esz d K m J Q and bs :: "byte list"
  assume a: "securec_ok E" "slot P esz d K" "K + m \<le> P" "0 < m" "esz * m \<le> SECUREC_MEM_MAX_LEN E"
    "0 \<le> J" "J + m \<le> Q" "length bs = nat Q * nat esz"
  show "copy_elem E d (P * esz) (K * esz) (Some bs) (J * esz) (esz * m) =
        Inr (put d (nat K * nat esz) (get bs (nat J * nat esz) (nat m * nat esz)))"
    using protected_size_slot(2) [OF a(1,2)] memcpy_run [OF a] PtrAdd_slot [OF a(1,2)]
    by (simp add: copy_elem_def)
qed

interpretation guarded_raw_run: run_copier copy_elem_raw zero_elem_raw
proof unfold_locales
  fix E P esz d K m J Q and bs :: "byte list"
  assume a: "securec_ok E" "slot P esz d K" "K + m \<le> P" "0 < m" "esz * m \<le> SECUREC_MEM_MAX_LEN E"
    "0 \<le> J" "J + m \<le> Q" "length bs = nat Q * nat esz"
  show "copy_elem_raw E d (P * esz) (K * esz) (Some bs) (J * esz) (esz * m) =
        Inr (put d (nat K * nat esz) (get bs (nat J * nat esz) (nat m * nat esz)))"
    using protected_size_slot(2) [OF a(1,2)] memcpy_run [OF a] by (simp add: copy_elem_raw_def)
qed

section \<open>Rows\<close>

lemma row_tail:
  assumes "0 < w0" and "0 \<le> k" and "k < w - w div w0 * w0"
  shows "(w div w0 * w0 + k) div w0 = (w :: int) div w0" and "(w div w0 * w0 + k) mod w0 = k"
proof -
  have "k < w0" using assms pos_mod_bound [OF assms(1), of w] minus_div_mult_eq_mod [of w w0] by linarith
  then show "(w div w0 * w0 + k) div w0 = w div w0" "(w div w0 * w0 + k) mod w0 = k"
    using assms by (simp_all add: int_pair_div int_pair_mod)
qed

lemma fold_concat_map: "fold f (concat (map g xs)) s = fold (\<lambda>x. fold f (g x)) xs s"
  by (induction xs arbitrary: s) simp_all

lemma upto_shift: "map (\<lambda>k. a + k) [0..b - a - 1] = [a..b - 1]"
proof (rule nth_equalityI)
  fix i assume "i < length (map (\<lambda>k. a + k) [0..b - a - 1])"
  then show "map (\<lambda>k. a + k) [0..b - a - 1] ! i = [a..b - 1] ! i" by simp
qed simp

lemma upto_join: "0 \<le> a \<Longrightarrow> a \<le> b \<Longrightarrow> [0..a - 1] @ [a..b - 1] = [0..b - 1 :: int]"
proof (cases "a = b")
  case False
  assume "0 \<le> a" "a \<le> b"
  with False have "[0..b - 1] = [0..a - 1] @ [a..b - 1]" by (intro upto_split1) auto
  then show ?thesis by (rule sym)
qed simp

context run_copier
begin

lemma run_step:
  assumes E: "securec_ok E" and esz: "0 < esz" "esz \<le> 2 ^ 22"
    and d: "length d = nat P * nat esz" and bs: "length bs = nat Q * nat esz"
    and w0: "0 < w0" and lim: "esz * w0 \<le> SECUREC_MEM_MAX_LEN E"
    and dp: "\<And>k. 0 \<le> k \<Longrightarrow> k < w0 \<Longrightarrow> dp (b + k) = dp b + k \<and> 0 \<le> dp (b + k) \<and> dp (b + k) < P"
    and sp: "\<And>k. 0 \<le> k \<Longrightarrow> k < w0 \<Longrightarrow> sp (b + k) = sp b + k \<and> 0 \<le> sp (b + k) \<and> sp (b + k) < Q"
  shows "cp E d (P * esz) (dp b * esz) (Some bs) (sp b * esz) (esz * w0) =
         Inr (fold (put_elem (nat esz) bs dp sp) (map (\<lambda>k. b + k) [0..w0 - 1]) d)"
proof -
  have K: "0 \<le> dp b" "dp b + w0 \<le> P" using dp [of 0] dp [of "w0 - 1"] w0 by auto
  have J: "0 \<le> sp b" "sp b + w0 \<le> Q" using sp [of 0] sp [of "w0 - 1"] w0 by auto
  have slot: "slot P esz d (dp b)" using K w0 esz d by (simp add: slot_def)
  have "cp E d (P * esz) (dp b * esz) (Some bs) (sp b * esz) (esz * w0) =
      Inr (put d (nat (dp b) * nat esz) (get bs (nat (sp b) * nat esz) (nat w0 * nat esz)))"
    by (rule cp_run [OF E slot K(2) w0 lim J bs])
  also have "put d (nat (dp b) * nat esz) (get bs (nat (sp b) * nat esz) (nat w0 * nat esz)) =
      fold (put_elem (nat esz) bs (\<lambda>k. dp b + k) (\<lambda>k. sp b + k)) [0..int (nat w0) - 1] d"
    using K J w0 by (intro put_run [OF d K(1) _ bs J(1)]) auto
  also have "\<dots> = fold (\<lambda>k. put_elem (nat esz) bs dp sp (b + k)) [0..w0 - 1] d"
    using w0 dp sp by (intro fold_cong) (auto simp: put_elem_def)
  finally show ?thesis by (simp add: fold_map comp_def)
qed

lemma fold_put_elem_length:
  assumes d: "length d = nat P * nat esz" and bs: "length bs = nat Q * nat esz"
    and r: "\<And>x. x \<in> set xs \<Longrightarrow> 0 \<le> dp x \<and> dp x < P \<and> 0 \<le> sp x \<and> sp x < Q"
  shows "length (fold (put_elem (nat esz) bs dp sp) xs d) = nat P * nat esz"
  using d r
proof (induction xs arbitrary: d)
  case (Cons x xs)
  have "nat (dp x) < nat P" "nat (sp x) < nat Q" using Cons.prems(2) [of x] by auto
  from length_put_elem [where dp = dp and sp = sp, OF Cons.prems(1) this(1) bs this(2)]
  have "length (put_elem (nat esz) bs dp sp x d) = nat P * nat esz" .
  then have "length (fold (put_elem (nat esz) bs dp sp) xs (put_elem (nat esz) bs dp sp x d)) = nat P * nat esz"
    by (rule Cons.IH) (simp add: Cons.prems(2))
  then show ?case by simp
qed simp

lemma row_copy:
  assumes E: "securec_ok E" and esz: "0 < esz" "esz \<le> 2 ^ 22"
    and d: "length d = nat P * nat esz" and bs: "length bs = nat Q * nat esz"
    and w: "0 \<le> w" and w0: "0 < w0" and lim: "esz * w0 \<le> SECUREC_MEM_MAX_LEN E"
    and pos: "\<And>x. 0 \<le> x \<Longrightarrow> x < w \<Longrightarrow> 0 \<le> dp x \<and> dp x < P \<and> 0 \<le> sp x \<and> sp x < Q"
    and cont: "\<And>a k. 0 \<le> a \<Longrightarrow> a < w div w0 \<Longrightarrow> 0 \<le> k \<Longrightarrow> k < w0 \<Longrightarrow>
      dp (a * w0 + k) = dp (a * w0) + k \<and> sp (a * w0 + k) = sp (a * w0) + k"
  shows "rbind (for_upto (w div w0) (\<lambda>a d. cp E d (P * esz) (dp (a * w0) * esz) (Some bs)
             (sp (a * w0) * esz) (esz * w0)) d)
           (for_upto (w - w div w0 * w0) (\<lambda>k d. cp E d (P * esz) (dp (w div w0 * w0 + k) * esz) (Some bs)
             (sp (w div w0 * w0 + k) * esz) esz)) =
         Inr (fold (put_elem (nat esz) bs dp sp) [0..w - 1] d)"
proof -
  let ?n = "w div w0" and ?L = "nat P * nat esz" and ?pe = "put_elem (nat esz) bs dp sp"
  have n: "0 \<le> ?n" "?n * w0 \<le> w" using w w0 int_div_mult_le by (auto simp: pos_imp_zdiv_nonneg_iff)
  have run: "cp E s (P * esz) (dp (a * w0) * esz) (Some bs) (sp (a * w0) * esz) (esz * w0) =
        Inr (fold ?pe (map (\<lambda>k. a * w0 + k) [0..w0 - 1]) s) \<and>
      length (fold ?pe (map (\<lambda>k. a * w0 + k) [0..w0 - 1]) s) = ?L"
    if a: "a \<in> set [0..?n - 1]" and s: "length s = ?L" for a s
  proof -
    have "(a + 1) * w0 \<le> ?n * w0" using a w0 by (intro mult_right_mono) auto
    then have in_row: "0 \<le> a * w0 + k \<and> a * w0 + k < w" if "0 \<le> k" "k < w0" for k
      using that a w0 n by (auto simp: algebra_simps)
    have "0 \<le> x \<and> x < w" if "x \<in> set (map (\<lambda>k. a * w0 + k) [0..w0 - 1])" for x
      using in_row [of "x - a * w0"] that by auto
    then have "length (fold ?pe (map (\<lambda>k. a * w0 + k) [0..w0 - 1]) s) = ?L"
      using pos by (intro fold_put_elem_length [OF s bs]) blast
    moreover have "cp E s (P * esz) (dp (a * w0) * esz) (Some bs) (sp (a * w0) * esz) (esz * w0) =
        Inr (fold ?pe (map (\<lambda>k. a * w0 + k) [0..w0 - 1]) s)"
    proof (rule run_step [OF E esz s bs w0 lim])
      fix k assume k: "0 \<le> k" "k < w0"
      have "0 \<le> a" "a < ?n" using a by auto
      note c = cont [OF this k] and x = pos [of "a * w0 + k"] in_row [OF k]
      show "dp (a * w0 + k) = dp (a * w0) + k \<and> 0 \<le> dp (a * w0 + k) \<and> dp (a * w0 + k) < P"
        and "sp (a * w0 + k) = sp (a * w0) + k \<and> 0 \<le> sp (a * w0 + k) \<and> sp (a * w0 + k) < Q"
        using c x by blast+
    qed
    ultimately show ?thesis by simp
  qed
  have "for_upto ?n (\<lambda>a d. cp E d (P * esz) (dp (a * w0) * esz) (Some bs) (sp (a * w0) * esz) (esz * w0)) d =
        Inr (fold (\<lambda>a. fold ?pe (map (\<lambda>k. a * w0 + k) [0..w0 - 1])) [0..?n - 1] d) \<and>
      length (fold (\<lambda>a. fold ?pe (map (\<lambda>k. a * w0 + k) [0..w0 - 1])) [0..?n - 1] d) = ?L"
    unfolding for_upto_def by (rule for_list_fold [where I = "\<lambda>s. length s = ?L", OF run d])
  moreover have "fold (\<lambda>a. fold ?pe (map (\<lambda>k. a * w0 + k) [0..w0 - 1])) [0..?n - 1] d =
      fold ?pe [0..?n * w0 - 1] d"
    using upto_blocks [of w0 "nat ?n"] w0 n by (simp add: fold_concat_map [symmetric])
  ultimately have head: "for_upto ?n (\<lambda>a d. cp E d (P * esz) (dp (a * w0) * esz) (Some bs)
        (sp (a * w0) * esz) (esz * w0)) d = Inr (fold ?pe [0..?n * w0 - 1] d)"
    and lhead: "length (fold ?pe [0..?n * w0 - 1] d) = ?L" by simp_all
  have tail: "for_upto (w - ?n * w0) (\<lambda>k d. cp E d (P * esz) (dp (?n * w0 + k) * esz) (Some bs)
        (sp (?n * w0 + k) * esz) esz) s = Inr (fold (\<lambda>k. ?pe (?n * w0 + k)) [0..w - ?n * w0 - 1] s)"
    if "length s = ?L" for s
    unfolding for_upto_def
  proof (rule for_list_fold [where I = "\<lambda>s. length s = ?L", OF _ that, THEN conjunct1])
    fix k and s :: "byte list" assume "k \<in> set [0..w - ?n * w0 - 1]" and s: "length s = ?L"
    then have x: "0 \<le> dp (?n * w0 + k)" "dp (?n * w0 + k) < P" "0 \<le> sp (?n * w0 + k)" "sp (?n * w0 + k) < Q"
      using pos [of "?n * w0 + k"] n w0 by auto
    then have "slot P esz s (dp (?n * w0 + k))" using esz s by (simp add: slot_def)
    from cp_slot [OF E this x(3,4) bs] fold_put_elem_length [OF s bs, of "[?n * w0 + k]" dp sp] x
    show "cp E s (P * esz) (dp (?n * w0 + k) * esz) (Some bs) (sp (?n * w0 + k) * esz) esz =
        Inr (?pe (?n * w0 + k) s) \<and> length (?pe (?n * w0 + k) s) = ?L"
      by (simp add: put_elem_def)
  qed
  have "fold (\<lambda>k. ?pe (?n * w0 + k)) [0..w - ?n * w0 - 1] s = fold ?pe [?n * w0..w - 1] s" for s
    by (simp only: upto_shift [of "?n * w0" w, symmetric] fold_map comp_def)
  moreover have "[0..w - 1] = [0..?n * w0 - 1] @ [?n * w0..w - 1]"
    using n w0 by (intro upto_join [symmetric]) auto
  ultimately show ?thesis using head tail [OF lhead] by simp
qed

lemma rows_relayout:
  assumes map: "layout_map D S pick" and dims: "\<forall>d \<in> set D. 0 \<le> d"
    and E: "securec_ok E" and esz: "0 < esz" "esz \<le> 2 ^ 22"
    and buf: "length buf = nat (prod_list D) * nat esz" and bs: "length bs = nat (prod_list S) * nat esz"
    and w: "0 \<le> w" and w0: "0 < w0" and lim: "esz * w0 \<le> SECUREC_MEM_MAX_LEN E"
    and rng: "\<And>r x. r \<in> set rs \<Longrightarrow> 0 \<le> x \<Longrightarrow> x < w \<Longrightarrow> in_range D (dt r x) \<and> pick (dt r x) = Some (st r x)"
    and cont: "\<And>r a k. r \<in> set rs \<Longrightarrow> 0 \<le> a \<Longrightarrow> a < w div w0 \<Longrightarrow> 0 \<le> k \<Longrightarrow> k < w0 \<Longrightarrow>
      lin D (dt r (a * w0 + k)) = lin D (dt r (a * w0)) + k \<and>
      lin S (st r (a * w0 + k)) = lin S (st r (a * w0)) + k"
    and rest: "\<And>i. in_range D i \<Longrightarrow> (\<And>r x. r \<in> set rs \<Longrightarrow> 0 \<le> x \<Longrightarrow> x < w \<Longrightarrow> i \<noteq> dt r x) \<Longrightarrow>
      elem (nat esz) buf (nat (lin D i)) = picked (nat esz) S pick bs i"
    and body: "\<And>r d. r \<in> set rs \<Longrightarrow> body r d =
      rbind (for_upto (w div w0) (\<lambda>a d. cp E d (prod_list D * esz) (lin D (dt r (a * w0)) * esz) (Some bs)
             (lin S (st r (a * w0)) * esz) (esz * w0)) d)
           (for_upto (w - w div w0 * w0) (\<lambda>k d. cp E d (prod_list D * esz)
             (lin D (dt r (w div w0 * w0 + k)) * esz) (Some bs) (lin S (st r (w div w0 * w0 + k)) * esz) esz))"
  shows "for_list rs body buf = Inr (relayout (nat esz) D S pick bs)"
proof -
  let ?L = "nat (prod_list D) * nat esz"
  let ?pe = "\<lambda>r. put_elem (nat esz) bs (\<lambda>x. lin D (dt r x)) (\<lambda>x. lin S (st r x))"
  let ?step = "\<lambda>(r, x). ?pe r x"
  let ?ts = "concat (map (\<lambda>r. map (Pair r) [0..w - 1]) rs)"
  have pos: "0 \<le> lin D (dt r x) \<and> lin D (dt r x) < prod_list D \<and> 0 \<le> lin S (st r x) \<and> lin S (st r x) < prod_list S"
    if "r \<in> set rs" "0 \<le> x" "x < w" for r x
    using rng [OF that] layout_map.pick_range [OF map] lin_bounds by blast
  have "for_list rs body buf = Inr (fold (\<lambda>r. fold (?pe r) [0..w - 1]) rs buf)"
  proof (rule for_list_fold [where I = "\<lambda>s. length s = ?L", OF _ buf, THEN conjunct1])
    fix r and s :: "byte list" assume r: "r \<in> set rs" and s: "length s = ?L"
    have "body r s = Inr (fold (?pe r) [0..w - 1] s)"
      unfolding body [OF r] by (rule row_copy [OF E esz s bs w w0 lim pos [OF r] cont [OF r]])
    moreover have "length (fold (?pe r) [0..w - 1] s) = ?L"
      by (rule fold_put_elem_length [OF s bs]) (use pos [OF r] in auto)
    ultimately show "body r s = Inr (fold (?pe r) [0..w - 1] s) \<and> length (fold (?pe r) [0..w - 1] s) = ?L" ..
  qed
  also have "fold (\<lambda>r. fold (?pe r) [0..w - 1]) rs buf = fold ?step ?ts buf"
    by (simp add: fold_concat_map fold_map comp_def)
  also have "Inr (fold ?step ?ts buf) = for_list ?ts (\<lambda>t s. Inr (?step t s)) buf"
    by (rule for_list_fold [where I = "\<lambda>_. True", THEN conjunct1, symmetric]) simp_all
  also have "\<dots> = Inr (relayout (nat esz) D S pick bs)"
    unfolding relayout_def
  proof (rule for_scatter_over [where tup = "\<lambda>(r, x). dt r x", OF dims _ buf])
    fix t assume "t \<in> set ?ts"
    then obtain r x where t: "t = (r, x)" "r \<in> set rs" "0 \<le> x" "x < w" by auto
    then show "in_range D (case t of (r, x) \<Rightarrow> dt r x)" using rng by simp
    show "Inr (?step t d) =
        Inr (put d (nat (lin D (case t of (r, x) \<Rightarrow> dt r x)) * nat esz)
          (picked (nat esz) S pick bs (case t of (r, x) \<Rightarrow> dt r x)))" for d
      using rng [OF t(2-4)] by (simp add: t put_elem_def picked_def)
  next
    fix i assume i: "in_range D i" and off: "i \<notin> (\<lambda>(r, x). dt r x) ` set ?ts"
    show "elem (nat esz) buf (nat (lin D i)) = picked (nat esz) S pick bs i"
    proof (rule rest [OF i])
      fix r x assume "r \<in> set rs" "0 \<le> x" "x < w"
      then have "dt r x \<in> (\<lambda>(r, x). dt r x) ` set ?ts" by force
      with off show "i \<noteq> dt r x" by metis
    qed
  next
    show "length (picked (nat esz) S pick bs i) = nat esz" if "in_range D i" for i
      by (rule layout_map.length_picked [OF map that bs])
  qed
  finally show ?thesis .
qed

text \<open>The two ways the transfers start: from a zeroed buffer, and from one that the rows fill.\<close>

lemma rows_from:
  assumes map: "layout_map D S pick" and dims: "\<forall>d \<in> set D. 0 \<le> d"
    and ready: "trans_ready E args D S bs"
    and w: "0 \<le> w" and w0: "0 < w0" and lim: "esz * w0 \<le> SECUREC_MEM_MAX_LEN E"
    and esz: "esz = GetSizeByDataType E (arg_src_data_type args)"
    and total: "total_size = prod_list D * esz"
    and rng: "\<And>r x. r \<in> set rs \<Longrightarrow> 0 \<le> x \<Longrightarrow> x < w \<Longrightarrow> in_range D (dt r x) \<and> pick (dt r x) = Some (st r x)"
    and cont: "\<And>r a k. r \<in> set rs \<Longrightarrow> 0 \<le> a \<Longrightarrow> a < w div w0 \<Longrightarrow> 0 \<le> k \<Longrightarrow> k < w0 \<Longrightarrow>
      lin D (dt r (a * w0 + k)) = lin D (dt r (a * w0)) + k \<and>
      lin S (st r (a * w0 + k)) = lin S (st r (a * w0)) + k"
    and run: "\<And>r a d. r \<in> set rs \<Longrightarrow> run r a d =
      cp E d total_size (lin D (dt r (a * w0)) * esz) (arg_data args) (lin S (st r (a * w0)) * esz) (esz * w0)"
    and tail: "\<And>r k d. r \<in> set rs \<Longrightarrow> 0 \<le> k \<Longrightarrow> k < w - w div w0 * w0 \<Longrightarrow> tail r k d =
      cp E d total_size (lin D (dt r (w div w0 * w0 + k)) * esz) (arg_data args)
        (lin S (st r (w div w0 * w0 + k)) * esz) esz"
    and buf: "length buf = nat (prod_list D) * nat esz"
    and rest: "\<And>i. in_range D i \<Longrightarrow> (\<And>r x. r \<in> set rs \<Longrightarrow> 0 \<le> x \<Longrightarrow> x < w \<Longrightarrow> i \<noteq> dt r x) \<Longrightarrow>
      elem (nat esz) buf (nat (lin D i)) = picked (nat esz) S pick bs i"
  shows "for_list rs (\<lambda>r d. rbind (for_upto (w div w0) (run r) d) (for_upto (w - w div w0 * w0) (tail r))) buf =
         Inr (relayout (nat esz) D S pick bs)"
proof (rule rows_relayout [OF map dims _ _ _ buf _ w w0 lim rng cont rest])
  note r = trans_readyD [OF ready, folded esz]
  show "securec_ok E" "0 < esz" "esz \<le> 2 ^ 22" "length bs = nat (prod_list S) * nat esz" by (fact r)+
  fix x d assume x: "x \<in> set rs"
  have tails: "for_upto (w - w div w0 * w0) (tail x) e = for_upto (w - w div w0 * w0) (\<lambda>k d. cp E d (prod_list D * esz)
      (lin D (dt x (w div w0 * w0 + k)) * esz) (Some bs) (lin S (st x (w div w0 * w0 + k)) * esz) esz) e" for e
    unfolding for_upto_def by (rule for_list_cong) (auto simp: tail [OF x] total r)
  have runs: "run x = (\<lambda>a d. cp E d (prod_list D * esz) (lin D (dt x (a * w0)) * esz) (Some bs)
      (lin S (st x (a * w0)) * esz) (esz * w0))"
    by (intro ext) (simp add: run [OF x] total r)
  show "rbind (for_upto (w div w0) (run x) d) (for_upto (w - w div w0 * w0) (tail x)) =
      rbind (for_upto (w div w0) (\<lambda>a d. cp E d (prod_list D * esz) (lin D (dt x (a * w0)) * esz) (Some bs)
             (lin S (st x (a * w0)) * esz) (esz * w0)) d)
           (for_upto (w - w div w0 * w0) (\<lambda>k d. cp E d (prod_list D * esz)
             (lin D (dt x (w div w0 * w0 + k)) * esz) (Some bs) (lin S (st x (w div w0 * w0 + k)) * esz) esz))"
    unfolding runs ext [OF tails] ..
qed

lemma new_rows_relayout:
  assumes map: "layout_map D S pick" and dims: "\<forall>d \<in> set D. 0 \<le> d"
    and ready: "trans_ready E args D S bs"
    and w: "0 \<le> w" and w0: "0 < w0" and lim: "esz * w0 \<le> SECUREC_MEM_MAX_LEN E"
    and esz: "esz = GetSizeByDataType E (arg_src_data_type args)"
    and total: "total_size = prod_list D * esz"
    and rng: "\<And>r x. r \<in> set rs \<Longrightarrow> 0 \<le> x \<Longrightarrow> x < w \<Longrightarrow> in_range D (dt r x) \<and> pick (dt r x) = Some (st r x)"
    and cont: "\<And>r a k. r \<in> set rs \<Longrightarrow> 0 \<le> a \<Longrightarrow> a < w div w0 \<Longrightarrow> 0 \<le> k \<Longrightarrow> k < w0 \<Longrightarrow>
      lin D (dt r (a * w0 + k)) = lin D (dt r (a * w0)) + k \<and>
      lin S (st r (a * w0 + k)) = lin S (st r (a * w0)) + k"
    and run: "\<And>r a d. r \<in> set rs \<Longrightarrow> run r a d =
      cp E d total_size (lin D (dt r (a * w0)) * esz) (arg_data args) (lin S (st r (a * w0)) * esz) (esz * w0)"
    and tail: "\<And>r k d. r \<in> set rs \<Longrightarrow> 0 \<le> k \<Longrightarrow> k < w - w div w0 * w0 \<Longrightarrow> tail r k d =
      cp E d total_size (lin D (dt r (w div w0 * w0 + k)) * esz) (arg_data args)
        (lin S (st r (w div w0 * w0 + k)) * esz) esz"
    and onto: "\<And>i. in_range D i \<Longrightarrow> \<exists>r x. r \<in> set rs \<and> 0 \<le> x \<and> x < w \<and> i = dt r x"
  shows "(case new_uint8 E total_size of
            None \<Rightarrow> err
          | Some dst \<Rightarrow> rbind (for_list rs
              (\<lambda>r d. rbind (for_upto (w div w0) (run r) d) (for_upto (w - w div w0 * w0) (tail r))) dst)
              (\<lambda>dst. Inr (result\<lparr>res_data := Some dst, res_length := total_size\<rparr>))) =
         Inr (trans_output E args D S pick bs result)"
proof -
  obtain buf where buf: "new_uint8 E total_size = Some buf" "int (length buf) = prod_list D * esz"
    using ready esz total by (auto simp: trans_ready_def Let_def alloc_ok_def)
  have len: "length buf = nat (prod_list D) * nat esz"
    using buf(2) prod_list_nonneg [OF dims] by (metis nat_int nat_mult_distrib)
  have "for_list rs (\<lambda>r d. rbind (for_upto (w div w0) (run r) d) (for_upto (w - w div w0 * w0) (tail r))) buf =
      Inr (relayout (nat esz) D S pick bs)"
    by (rule rows_from [OF map dims ready w w0 lim esz total rng cont run tail len]) (meson onto)+
  then show ?thesis using buf esz total by (simp add: trans_output_def Let_def)
qed

lemma new_rows_over_zero:
  assumes map: "layout_map D S pick" and dims: "\<forall>d \<in> set D. 0 \<le> d"
    and ready: "trans_ready E args D S bs"
    and w: "0 \<le> w" and w0: "0 < w0" and lim: "esz * w0 \<le> SECUREC_MEM_MAX_LEN E"
    and esz: "esz = GetSizeByDataType E (arg_src_data_type args)"
    and total: "total_size = prod_list D * esz"
    and rng: "\<And>r x. r \<in> set rs \<Longrightarrow> 0 \<le> x \<Longrightarrow> x < w \<Longrightarrow> in_range D (dt r x) \<and> pick (dt r x) = Some (st r x)"
    and cont: "\<And>r a k. r \<in> set rs \<Longrightarrow> 0 \<le> a \<Longrightarrow> a < w div w0 \<Longrightarrow> 0 \<le> k \<Longrightarrow> k < w0 \<Longrightarrow>
      lin D (dt r (a * w0 + k)) = lin D (dt r (a * w0)) + k \<and>
      lin S (st r (a * w0 + k)) = lin S (st r (a * w0)) + k"
    and run: "\<And>r a d. r \<in> set rs \<Longrightarrow> run r a d =
      cp E d total_size (lin D (dt r (a * w0)) * esz) (arg_data args) (lin S (st r (a * w0)) * esz) (esz * w0)"
    and tail: "\<And>r k d. r \<in> set rs \<Longrightarrow> 0 \<le> k \<Longrightarrow> k < w - w div w0 * w0 \<Longrightarrow> tail r k d =
      cp E d total_size (lin D (dt r (w div w0 * w0 + k)) * esz) (arg_data args)
        (lin S (st r (w div w0 * w0 + k)) * esz) esz"
    and onto: "\<And>i j. in_range D i \<Longrightarrow> pick i = Some j \<Longrightarrow> \<exists>r x. r \<in> set rs \<and> 0 \<le> x \<and> x < w \<and> i = dt r x"
  shows "(case new_uint8_zero E total_size of
            None \<Rightarrow> err
          | Some dst \<Rightarrow> rbind (for_list rs
              (\<lambda>r d. rbind (for_upto (w div w0) (run r) d) (for_upto (w - w div w0 * w0) (tail r))) dst)
              (\<lambda>dst. Inr (result\<lparr>res_data := Some dst, res_length := total_size\<rparr>))) =
         Inr (trans_output E args D S pick bs result)"
proof -
  have buf: "new_uint8_zero E total_size = Some (replicate (nat total_size) 0)"
    using ready esz total by (auto simp: trans_ready_def Let_def intro: new_uint8_zero_alloc)
  have len: "nat total_size = nat (prod_list D) * nat esz"
    using total prod_list_nonneg [OF dims] by (simp add: nat_mult_distrib)
  have "for_list rs (\<lambda>r d. rbind (for_upto (w div w0) (run r) d) (for_upto (w - w div w0 * w0) (tail r)))
      (replicate (nat total_size) 0) = Inr (relayout (nat esz) D S pick bs)"
  proof (rule rows_from [OF map dims ready w w0 lim esz total rng cont run tail])
    fix i assume i: "in_range D i" and off: "\<And>r x. r \<in> set rs \<Longrightarrow> 0 \<le> x \<Longrightarrow> x < w \<Longrightarrow> i \<noteq> dt r x"
    have "pick i = None" using onto [OF i] off by (cases "pick i") auto
    moreover have "nat (lin D i) < nat (prod_list D)" using lin_bounds [OF i] by linarith
    ultimately show "elem (nat esz) (replicate (nat total_size) 0) (nat (lin D i)) = picked (nat esz) S pick bs i"
      by (simp add: picked_def elem_replicate len)
  qed (simp_all add: len)
  then show ?thesis using buf esz total by (simp add: trans_output_def Let_def)
qed

end

end
