(* ===== verification/TransferFracNz.thy ===== *)
theory TransferFracNz
  imports TransferRows
begin

text \<open>
  The matrix layout FRACTAL\_NZ, \<^verbatim>\<open>format_transfer_fractal_nz.cc\<close>.  A tensor of any rank is
  read as \<open>times\<close> matrices of \<open>h\<close> rows and \<open>w\<close> columns; the columns are cut into
  blocks of \<open>w0\<close>, the rows padded to a multiple of 16, and the blocks stored one after the
  other.  The same class serves ND, NCHW and NHWC.
\<close>

section \<open>ND to FRACTAL\_NZ\<close>

definition IsDataTypeSupportForTransShapeToFracNz :: "ge_env \<Rightarrow> DataType \<Rightarrow> bool" where
  "IsDataTypeSupportForTransShapeToFracNz E data_type = (GetSizeByDataType E data_type > 0)"

definition CheckShapeForTransShapeToFracNz :: "Format \<Rightarrow> int list \<Rightarrow> bool" where
  "CheckShapeForTransShapeToFracNz format shape =
     (if format = FORMAT_ND then IsShapeValid shape
      else if format = FORMAT_NCHW \<or> format = FORMAT_NHWC then CheckShapeValid shape 4
      else False)"

text \<open>The result is the pair of \<^verbatim>\<open>dst_shape\<close> and \<^verbatim>\<open>hw_shape\<close>.\<close>

definition TransShapeToFracNz :: "int list \<Rightarrow> int \<Rightarrow> (int list \<times> int list) res" where
  "TransShapeToFracNz src_shape w0 =
     (let h0 = kCubeSize; size = length src_shape in
      if size = 1 then
        rbind (vec_ix src_shape kNhwcN) (\<lambda>n.
          let dst_shape = [Ceil n w0, DIM_DEFAULT_VALUE, h0, w0];
              hw_shape = [DIM_DEFAULT_VALUE, DIM_DEFAULT_VALUE, n] in
          if \<not> IsShapeValid dst_shape then Inl (Ret ACL_ERROR_GE_SHAPE_INVALID)
          else Inr (dst_shape, hw_shape))
      else
        rbind (vec_back src_shape 2) (\<lambda>h.
        rbind (vec_back src_shape 1) (\<lambda>w.
          let lead = take (size - 2) src_shape;
              times = foldl mul64 1 lead;
              dst_shape = lead @ [Ceil w w0, Ceil h h0, h0, w0];
              hw_shape = [times, h, w] in
          if \<not> IsShapeValid dst_shape then Inl (Ret ACL_ERROR_GE_SHAPE_INVALID)
          else Inr (dst_shape, hw_shape))))"

definition CheckShapeRelationForTransShapeToFracNz :: "TransArgs \<Rightarrow> int list res" where
  "CheckShapeRelationForTransShapeToFracNz args =
     rbind (TransShapeToFracNz (arg_dst_shape args) (arg_src_c0_format args))
       (\<lambda>(expect_src_shape, hw_shape).
          if \<not> IsTransShapeSrcCorrect args expect_src_shape then Inl (Ret ACL_ERROR_GE_SHAPE_INVALID)
          else Inr hw_shape)"

definition TransFormatFromNdToFracNz :: "ge_env \<Rightarrow> TransArgs \<Rightarrow> TransResult \<Rightarrow> int list \<Rightarrow> TransResult res" where
  "TransFormatFromNdToFracNz E args result hw_shape =
     (let size = GetSizeByDataType E (arg_src_data_type args);
          dst_size = mul64 (GetItemNumByShape (arg_dst_shape args)) size in
      if dst_size = 0 then Inr (result\<lparr>res_length := dst_size\<rparr>)
      else
        (case new_uint8_zero E dst_size of
           None \<Rightarrow> Inl (Ret ACL_ERROR_GE_MEMORY_ALLOCATION)
         | Some dst \<Rightarrow>
           rbind (vec_at hw_shape kNhwcN) (\<lambda>times.
           rbind (vec_at hw_shape kNhwcH) (\<lambda>h.
           rbind (vec_at hw_shape kNhwcW) (\<lambda>w.
           rbind (vec_back (arg_dst_shape args) 4) (\<lambda>w1.
           rbind (vec_back (arg_dst_shape args) 3) (\<lambda>h1.
           rbind (vec_back (arg_dst_shape args) 2) (\<lambda>h0.
           rbind (vec_back (arg_dst_shape args) 1) (\<lambda>w0.
             if w0 = 0 then Inl Undefined
             else
             let hw = h * w; h1h0 = h1 * h0; h1h0w0 = h1h0 * w0; w1h1h0w0 = w1 * h1h0w0;
                 num_w1 = w sdiv w0 in
             rbind
               (for_upto times (\<lambda>times_idx.
                  let times_head = times_idx * w1h1h0w0; src_times_head = times_idx * hw in
                  for_upto h (\<lambda>h1h0_idx dst.
                    let h1h0_head = times_head + h1h0_idx * w0;
                        src_h_head = src_times_head + h1h0_idx * w in
                    rbind
                      (for_upto num_w1 (\<lambda>w1_idx dst.
                         let dst_offset = (h1h0_head + w1_idx * h1h0w0) * size;
                             src_offset = (src_h_head + w1_idx * w0) * size in
                         copy_elem_raw E dst dst_size dst_offset (arg_data args) src_offset (size * w0)) dst)
                      (\<lambda>dst. let w1_head = num_w1 * w0 in
                        for_upto (w - w1_head) (\<lambda>w0_idx dst.
                          let src_w_idx = w1_head + w0_idx;
                              dst_offset = (h1h0_head + num_w1 * h1h0w0 + w0_idx) * size;
                              src_offset = (src_h_head + src_w_idx) * size in
                          copy_elem_raw E dst dst_size dst_offset (arg_data args) src_offset size) dst))) dst)
               (\<lambda>dst. Inr (result\<lparr>res_data := Some dst, res_length := dst_size\<rparr>)))))))))))"

definition FractalNz_TransFormat :: "ge_env \<Rightarrow> TransArgs \<Rightarrow> TransResult \<Rightarrow> TransResult res" where
  "FractalNz_TransFormat E args result =
     (if \<not> IsDataTypeSupportForTransShapeToFracNz E (arg_src_data_type args)
      then Inl (Ret ACL_ERROR_GE_DATATYPE_INVALID)
      else if \<not> CheckShapeForTransShapeToFracNz (arg_src_primary_format args) (arg_src_shape args) \<or>
              \<not> IsShapeValid (arg_dst_shape args)
      then Inl (Ret ACL_ERROR_GE_SHAPE_INVALID)
      else
        let c0 = GetC0Value E (arg_dst_format args) in
        rbind (TransShapeToFracNz (arg_src_shape args) c0) (\<lambda>(expect_shape, hw_shape).
          if \<not> IsTransShapeDstCorrect args expect_shape then Inl (Ret ACL_ERROR_GE_SHAPE_INVALID)
          else TransFormatFromNdToFracNz E args result hw_shape))"

definition FractalNz_TransShape ::
  "ge_env \<Rightarrow> Format \<Rightarrow> int list \<Rightarrow> DataType \<Rightarrow> Format \<Rightarrow> int list res" where
  "FractalNz_TransShape E src_format src_shape data_type dst_format =
     (let src_primary_format = GetPrimaryFormat E src_format in
      if \<not> IsDataTypeSupportForTransShapeToFracNz E data_type then Inl (Ret ACL_ERROR_GE_DATATYPE_INVALID)
      else if \<not> CheckShapeForTransShapeToFracNz src_primary_format src_shape
      then Inl (Ret ACL_ERROR_GE_SHAPE_INVALID)
      else let w0 = GetC0Value E dst_format in
           rbind (TransShapeToFracNz src_shape w0) (\<lambda>(dst_shape, hw_shape). Inr dst_shape))"

section \<open>FRACTAL\_NZ to ND\<close>

definition TransFormatFromFracNzToNd :: "ge_env \<Rightarrow> TransArgs \<Rightarrow> TransResult \<Rightarrow> int list \<Rightarrow> TransResult res" where
  "TransFormatFromFracNzToNd E args result dst_hw_shape =
     (let size = GetSizeByDataType E (arg_src_data_type args);
          dst_size = mul64 (GetItemNumByShape (arg_dst_shape args)) size in
      if dst_size = 0 then Inr (result\<lparr>res_length := dst_size\<rparr>)
      else
        (case new_uint8 E dst_size of
           None \<Rightarrow> Inl (Ret ACL_ERROR_GE_MEMORY_ALLOCATION)
         | Some dst \<Rightarrow>
           rbind (vec_at dst_hw_shape kNhwcN) (\<lambda>times.
           rbind (vec_at dst_hw_shape kNhwcH) (\<lambda>h.
           rbind (vec_at dst_hw_shape kNhwcW) (\<lambda>w.
           rbind (vec_back (arg_src_shape args) 4) (\<lambda>w1.
           rbind (vec_back (arg_src_shape args) 3) (\<lambda>h1.
           rbind (vec_back (arg_src_shape args) 2) (\<lambda>h0.
           rbind (vec_back (arg_src_shape args) 1) (\<lambda>w0.
             if w0 = 0 then Inl Undefined
             else
             let hw = h * w; h1h0 = h1 * h0; h1h0w0 = h1h0 * w0; w1h1h0w0 = w1 * h1h0w0;
                 num_w1 = w sdiv w0 in
             rbind
               (for_upto times (\<lambda>times_idx.
                  let times_head = times_idx * w1h1h0w0; dst_times_head = times_idx * hw in
                  for_upto h (\<lambda>h1h0_idx dst.
                    let h1h0_head = times_head + h1h0_idx * w0;
                        dst_h_head = dst_times_head + h1h0_idx * w in
                    rbind
                      (for_upto num_w1 (\<lambda>w1_idx dst.
                         let src_offset = (h1h0_head + w1_idx * h1h0w0) * size;
                             dst_offset = (dst_h_head + w1_idx * w0) * size in
                         copy_elem_raw E dst dst_size dst_offset (arg_data args) src_offset (size * w0)) dst)
                      (\<lambda>dst. let w1_head = num_w1 * w0 in
                        for_upto (w - w1_head) (\<lambda>w0_idx dst.
                          let dst_w_idx = w1_head + w0_idx;
                              src_offset = (h1h0_head + num_w1 * h1h0w0 + w0_idx) * size;
                              dst_offset = (dst_h_head + dst_w_idx) * size in
                          copy_elem_raw E dst dst_size dst_offset (arg_data args) src_offset size) dst))) dst)
               (\<lambda>dst. Inr (result\<lparr>res_data := Some dst, res_length := dst_size\<rparr>)))))))))))"

definition FractalNzND_TransFormat :: "ge_env \<Rightarrow> TransArgs \<Rightarrow> TransResult \<Rightarrow> TransResult res" where
  "FractalNzND_TransFormat E args result =
     (if \<not> IsDataTypeSupportForTransShapeToFracNz E (arg_src_data_type args)
      then Inl (Ret ACL_ERROR_GE_DATATYPE_INVALID)
      else if \<not> IsShapeValid (arg_src_shape args) \<or>
              \<not> CheckShapeForTransShapeToFracNz (arg_dst_primary_format args) (arg_dst_shape args)
      then Inl (Ret ACL_ERROR_GE_SHAPE_INVALID)
      else rbind (CheckShapeRelationForTransShapeToFracNz args) (TransFormatFromFracNzToNd E args result))"

definition FractalNzND_TransShape ::
  "ge_env \<Rightarrow> Format \<Rightarrow> int list \<Rightarrow> DataType \<Rightarrow> Format \<Rightarrow> int list res" where
  "FractalNzND_TransShape E src_format src_shape data_type dst_format = Inl (Ret ACL_ERROR_GE_FORMAT_INVALID)"

section \<open>The layout maps\<close>

fun nd_of_nz :: "int \<Rightarrow> int \<Rightarrow> int \<Rightarrow> int list \<Rightarrow> int list option" where
  "nd_of_nz h w w0 [t, a, y, k] = (if y < h \<and> a * w0 + k < w then Some [t, y, a * w0 + k] else None)"
| "nd_of_nz h w w0 _ = None"

fun nz_of_nd :: "int \<Rightarrow> int list \<Rightarrow> int list option" where
  "nz_of_nd w0 [t, y, x] = Some [t, x div w0, y, x mod w0]"
| "nz_of_nd w0 _ = None"

text \<open>The destination as \<open>times\<close> blocks, its rows \<^verbatim>\<open>h1 * h0\<close> counted together.\<close>

definition nz_dims :: "int \<Rightarrow> int \<Rightarrow> int \<Rightarrow> int \<Rightarrow> int list" where
  "nz_dims t h w w0 = [t, Ceil w w0, Ceil h kCubeSize * kCubeSize, w0]"

definition nz_shape :: "int \<Rightarrow> int list \<Rightarrow> int list" where
  "nz_shape w0 s =
     (if length s = 1 then [Ceil (s ! 0) w0, 1, kCubeSize, w0]
      else take (length s - 2) s @ [Ceil (s ! (length s - 1)) w0, Ceil (s ! (length s - 2)) kCubeSize, kCubeSize, w0])"

lemma nz_rows: "0 \<le> h \<Longrightarrow> h \<le> Ceil h kCubeSize * kCubeSize"
  using Ceil_tight [of h 16] by (simp add: kCubeSize_def)

interpretation nz: layout_inverse "nz_dims t h w (max 1 w0)" "[t, h, w]"
  "nd_of_nz h w (max 1 w0)" "nz_of_nd (max 1 w0)"
  for t h w w0 :: int
proof unfold_locales
  fix i j assume "in_range (nz_dims t h w (max 1 w0)) i" "nd_of_nz h w (max 1 w0) i = Some j"
  then show "in_range [t, h, w] j" by (auto simp: nz_dims_def in_range4 split: if_splits)
next
  fix i j assume r: "in_range [t, h, w] i" "nz_of_nd (max 1 w0) i = Some j"
  then have "h \<le> Ceil h kCubeSize * kCubeSize" by (auto simp: in_range3 intro: nz_rows)
  with r show "in_range (nz_dims t h w (max 1 w0)) j"
    by (auto simp: nz_dims_def in_range3 Ceil_covers pos_imp_zdiv_nonneg_iff)
next
  fix j assume "in_range [t, h, w] j"
  then show "\<exists>i. nz_of_nd (max 1 w0) j = Some i \<and> nd_of_nz h w (max 1 w0) i = Some j"
    by (auto simp: in_range3 div_mult_mod_eq)
qed

section \<open>The transfers compute the layout maps\<close>

lemma NdToFracNz_data:
  assumes ready: "trans_ready E args (nz_dims t h w w0) [t, h, w] bs"
    and shape: "arg_dst_shape args = lead @ [Ceil w w0, Ceil h kCubeSize, kCubeSize, w0]"
    and w0: "0 < w0" and lim: "GetSizeByDataType E (arg_src_data_type args) * w0 \<le> SECUREC_MEM_MAX_LEN E"
    and dims: "0 \<le> t" "0 \<le> h" "0 \<le> w"
    and total: "mul64 (GetItemNumByShape (arg_dst_shape args)) (GetSizeByDataType E (arg_src_data_type args)) =
      prod_list (nz_dims t h w w0) * GetSizeByDataType E (arg_src_data_type args)"
    and pos: "0 < prod_list (nz_dims t h w w0)"
  shows "TransFormatFromNdToFracNz E args result [t, h, w] =
         Inr (trans_output E args (nz_dims t h w w0) [t, h, w] (nd_of_nz h w w0) bs result)"
proof -
  have m: "max 1 w0 = w0" and nz: "w0 \<noteq> 0" using w0 by simp_all
  have D: "\<forall>d \<in> set (nz_dims t h w w0). 0 \<le> d"
    using dims w0 by (simp add: nz_dims_def Ceil_nonneg kCubeSize_def)
  note up = nz_rows [OF dims(2)]
  have nz2: "prod_list (nz_dims t h w w0) \<noteq> 0" "GetSizeByDataType E (arg_src_data_type args) \<noteq> 0"
    using pos trans_readyD(2) [OF ready] by simp_all
  note R = guarded_raw_run.new_rows_over_zero
    [where dt = "\<lambda>r x. [r ! 0, x div w0, r ! 1, x mod w0]" and st = "\<lambda>r x. [r ! 0, r ! 1, x]",
      OF nz.fwd.layout_map_axioms [where t = t and h = h and w = w and ?w0.0 = w0, unfolded m]
        D ready dims(3) w0 lim refl refl]
  have onto: "\<exists>r x. r \<in> set (indices [t, h]) \<and> 0 \<le> x \<and> x < w \<and> i = [r ! 0, x div w0, r ! 1, x mod w0]"
    if "in_range (nz_dims t h w w0) i" "nd_of_nz h w w0 i = Some j" for i j
  proof -
    from that(1) obtain p a y k where "i = [p, a, y, k]" "0 \<le> p" "p < t" "0 \<le> a" "0 \<le> y" "0 \<le> k" "k < w0"
      by (auto simp: nz_dims_def in_range4)
    with that(2) show ?thesis
      by (intro exI [of _ "[p, y]"] exI [of _ "a * w0 + k"])
         (auto simp: set_indices in_range2 int_pair_div int_pair_mod w0 split: if_splits)
  qed
  show ?thesis
    unfolding TransFormatFromNdToFracNz_def Let_def total
    apply (simp add: nz nz2 shape vec_at_in for2 sdiv_nonneg dims w0 cong: option.case_cong)
    apply (rule R)
    subgoal using up w0 by (auto simp: set_indices in_range2 nz_dims_def Ceil_covers pos_imp_zdiv_nonneg_iff)
    subgoal by (auto simp: nz_dims_def int_pair_div int_pair_mod nz)
    subgoal by (simp add: nz_dims_def nz algebra_simps)
    subgoal using row_tail [OF w0] by (simp add: nz_dims_def algebra_simps)
    by (rule onto)
qed

lemma FracNzToNd_data:
  assumes ready: "trans_ready E args [t, h, w] (nz_dims t h w w0) bs"
    and shape: "arg_src_shape args = lead @ [Ceil w w0, Ceil h kCubeSize, kCubeSize, w0]"
    and w0: "0 < w0" and lim: "GetSizeByDataType E (arg_src_data_type args) * w0 \<le> SECUREC_MEM_MAX_LEN E"
    and dims: "0 \<le> t" "0 \<le> h" "0 \<le> w"
    and total: "mul64 (GetItemNumByShape (arg_dst_shape args)) (GetSizeByDataType E (arg_src_data_type args)) =
      prod_list [t, h, w] * GetSizeByDataType E (arg_src_data_type args)"
    and pos: "0 < prod_list [t, h, w]"
  shows "TransFormatFromFracNzToNd E args result [t, h, w] =
         Inr (trans_output E args [t, h, w] (nz_dims t h w w0) (nz_of_nd w0) bs result)"
proof -
  have m: "max 1 w0 = w0" and nz: "w0 \<noteq> 0" using w0 by simp_all
  have D: "\<forall>d \<in> set [t, h, w]. 0 \<le> d" using dims by simp
  have nz2: "t \<noteq> 0" "h \<noteq> 0" "w \<noteq> 0" "GetSizeByDataType E (arg_src_data_type args) \<noteq> 0"
    using pos trans_readyD(2) [OF ready] by auto
  note R = guarded_raw_run.new_rows_relayout
    [where dt = "\<lambda>r x. [r ! 0, r ! 1, x]" and st = "\<lambda>r x. [r ! 0, x div w0, r ! 1, x mod w0]",
      OF nz.bwd.layout_map_axioms [where t = t and h = h and w = w and ?w0.0 = w0, unfolded m]
        D ready dims(3) w0 lim refl]
  have onto: "\<exists>r x. r \<in> set (indices [t, h]) \<and> 0 \<le> x \<and> x < w \<and> i = [r ! 0, r ! 1, x]"
    if i: "in_range [t, h, w] i" for i
  proof -
    from i obtain p y x where "i = [p, y, x]" "0 \<le> p" "p < t" "0 \<le> y" "y < h" "0 \<le> x" "x < w"
      by (auto simp: in_range3)
    then show ?thesis
      by (intro exI [of _ "[p, y]"] exI [of _ x]) (simp add: set_indices in_range2)
  qed
  show ?thesis
    unfolding TransFormatFromFracNzToNd_def Let_def total
    apply (simp add: nz nz2 shape vec_at_in for2 sdiv_nonneg dims w0 cong: option.case_cong)
    apply (rule R)
    subgoal by simp
    subgoal by (auto simp: set_indices in_range2)
    subgoal by (auto simp: nz_dims_def int_pair_div int_pair_mod nz)
    subgoal by (simp add: nz_dims_def nz algebra_simps)
    subgoal using row_tail [OF w0] by (simp add: nz_dims_def algebra_simps)
    by (rule onto)
qed

section \<open>Shapes\<close>

lemma nz_shape_view:
  assumes "nd_view s = [t, h, w]" and "s \<noteq> []"
  obtains lead where "nz_shape w0 s = lead @ [Ceil w w0, Ceil h kCubeSize, kCubeSize, w0]"
    and "prod_list lead = t"
  using assms(2)
proof (cases s rule: nd_view_cases)
  case (vector n)
  have "Ceil 1 kCubeSize = 1" by code_simp
  with vector assms(1) show ?thesis by (intro that [of "[]"]) (auto simp: nz_shape_def)
next
  case (matrices lead h w)
  with assms(1) show ?thesis by (intro that [of lead]) (auto simp: nz_shape_def nth_append)
qed

lemma prod_nz_shape:
  "nd_view s = [t, h, w] \<Longrightarrow> s \<noteq> [] \<Longrightarrow> prod_list (nz_shape w0 s) = prod_list (nz_dims t h w w0)"
  by (rule nz_shape_view [of s t h w w0]) (simp_all add: nz_dims_def mult.assoc)

lemma TransShapeToFracNz_valid:
  assumes "IsShapeValid s" and "IsShapeValid (nz_shape w0 s)"
  shows "TransShapeToFracNz s w0 = Inr (nz_shape w0 s, nd_view s)"
  using shape_valid_nonempty [OF assms(1)]
proof (cases s rule: nd_view_cases)
  case (vector n)
  then show ?thesis using assms
    by (simp add: TransShapeToFracNz_def nz_shape_def DIM_DEFAULT_VALUE_def vec_ix_in Let_def)
next
  case (matrices lead h w)
  then show ?thesis using assms shape_valid_lead [of lead "[h, w]"]
    by (simp add: TransShapeToFracNz_def nz_shape_def vec_back_in nth_append Let_def)
qed

section \<open>The whole transfers\<close>

text \<open>What both directions assume of a tensor of shape \<open>s\<close> and its FRACTAL\_NZ image.\<close>

definition nz_request :: "ge_env \<Rightarrow> DataType \<Rightarrow> Format \<Rightarrow> int list \<Rightarrow> int \<Rightarrow> bool" where
  "nz_request E dt format s c0 \<longleftrightarrow>
     CheckShapeForTransShapeToFracNz format s \<and> IsShapeValid (nz_shape c0 s) \<and> 0 < prod_list s \<and>
     0 < c0 \<and> GetSizeByDataType E dt * c0 \<le> SECUREC_MEM_MAX_LEN E"

lemma nz_requestD:
  assumes "nz_request E dt format s c0"
  shows "IsShapeValid s" and "IsShapeValid (nz_shape c0 s)" and "0 < c0" and "s \<noteq> []"
    and "0 < prod_list s" and "GetSizeByDataType E dt * c0 \<le> SECUREC_MEM_MAX_LEN E"
    and "CheckShapeForTransShapeToFracNz format s" and "nz_shape c0 s \<noteq> []"
  using assms
  by (auto simp: nz_request_def CheckShapeForTransShapeToFracNz_def check_shape_valid
      dest: shape_valid_nonempty split: if_splits)

lemma nz_view_dims:
  assumes "nz_request E dt format s c0" and "nd_view s = [t, h, w]"
  shows "0 < t" "0 < h" "0 < w" and "prod_list s = prod_list [t, h, w]"
    and "\<forall>d \<in> set [t, h, w]. 0 \<le> d" and "\<forall>d \<in> set (nz_dims t h w c0). 0 \<le> d"
    and "0 < prod_list (nz_dims t h w c0)"
proof -
  note r = nz_requestD [OF assms(1)]
  show eq: "prod_list s = prod_list [t, h, w]" using prod_nd_view [OF r(4)] assms(2) by simp
  show S: "\<forall>d \<in> set [t, h, w]. 0 \<le> d"
    using nd_view_nonneg [OF shape_valid_nonneg [OF r(1)] r(4)] by (simp only: assms(2))
  have "0 < prod_list [t, h, w]" using r(5) by (simp only: eq)
  from prod_list_posD [OF this S] show p: "0 < t" "0 < h" "0 < w" by simp_all
  have "\<forall>d \<in> set (nz_dims t h w c0). 0 < d"
    using p r(3) by (simp add: nz_dims_def Ceil_gt_0 kCubeSize_def)
  then show "0 < prod_list (nz_dims t h w c0)" "\<forall>d \<in> set (nz_dims t h w c0). 0 \<le> d"
    by (simp_all add: prod_list_pos less_imp_le)
qed

lemma FractalNz_ok:
  assumes req: "nz_request E (arg_src_data_type args) (arg_src_primary_format args) s c0"
    and view: "nd_view s = [t, h, w]"
    and shape: "arg_src_shape args = s" "arg_dst_shape args = nz_shape c0 s"
    and c0: "GetC0Value E (arg_dst_format args) = c0"
    and ready: "trans_ready E args (nz_dims t h w c0) [t, h, w] bs"
  shows "FractalNz_TransFormat E args result =
         Inr (trans_output E args (nz_dims t h w c0) [t, h, w] (nd_of_nz h w c0) bs result)"
proof -
  note q = nz_requestD [OF req] and v = nz_view_dims [OF req view] and r = trans_readyD [OF ready]
  obtain lead where lead: "nz_shape c0 s = lead @ [Ceil w c0, Ceil h kCubeSize, kCubeSize, c0]"
    by (rule nz_shape_view [OF view q(4)])
  have "TransFormatFromNdToFracNz E args result [t, h, w] =
      Inr (trans_output E args (nz_dims t h w c0) [t, h, w] (nd_of_nz h w c0) bs result)"
    by (rule NdToFracNz_data [OF ready _ q(3) q(6)])
       (use v lead shape total_size_valid [OF q(2) r(4)] prod_nz_shape [OF view q(4), of c0] in simp_all)
  then show ?thesis
    using TransShapeToFracNz_valid [OF q(1,2)] q r(2)
    by (simp add: FractalNz_TransFormat_def IsDataTypeSupportForTransShapeToFracNz_def
        IsTransShapeDstCorrect_def shape c0 view)
qed

lemma FractalNzND_ok:
  assumes req: "nz_request E (arg_src_data_type args) (arg_dst_primary_format args) s c0"
    and view: "nd_view s = [t, h, w]"
    and shape: "arg_src_shape args = nz_shape c0 s" "arg_dst_shape args = s"
    and c0: "arg_src_c0_format args = c0"
    and ready: "trans_ready E args [t, h, w] (nz_dims t h w c0) bs"
  shows "FractalNzND_TransFormat E args result =
         Inr (trans_output E args [t, h, w] (nz_dims t h w c0) (nz_of_nd c0) bs result)"
proof -
  note q = nz_requestD [OF req] and v = nz_view_dims [OF req view] and r = trans_readyD [OF ready]
  obtain lead where lead: "nz_shape c0 s = lead @ [Ceil w c0, Ceil h kCubeSize, kCubeSize, c0]"
    by (rule nz_shape_view [OF view q(4)])
  have "TransFormatFromFracNzToNd E args result [t, h, w] =
      Inr (trans_output E args [t, h, w] (nz_dims t h w c0) (nz_of_nd c0) bs result)"
    by (rule FracNzToNd_data [OF ready _ q(3) q(6)])
       (use v lead shape total_size_valid [OF q(1) r(4)] in simp_all)
  then show ?thesis
    using TransShapeToFracNz_valid [OF q(1,2)] q r(2)
    by (simp add: FractalNzND_TransFormat_def IsDataTypeSupportForTransShapeToFracNz_def
        CheckShapeRelationForTransShapeToFracNz_def IsTransShapeSrcCorrect_def shape c0 view)
qed

section \<open>Properties\<close>

text \<open>
  C22: on a tensor of any rank, in ND, NCHW or NHWC, the transfer to FRACTAL\_NZ puts element
  \<open>(t, y, x)\<close> of the matrix view at block column \<open>x / w0\<close>, row \<open>y\<close>, column
  \<open>x mod w0\<close> of matrix \<open>t\<close>, and zero bytes everywhere else.
\<close>

theorem Nd_nz_elements:
  assumes "nz_request E (arg_src_data_type args) (arg_src_primary_format args) s c0"
    and "nd_view s = [t, h, w]"
    and "arg_src_shape args = s" "arg_dst_shape args = nz_shape c0 s"
    and "GetC0Value E (arg_dst_format args) = c0"
    and "trans_ready E args (nz_shape c0 s) s bs"
    and "esz = GetSizeByDataType E (arg_src_data_type args)"
  shows "\<exists>out. FractalNz_TransFormat E args result =
           Inr (result\<lparr>res_data := Some out, res_length := prod_list (nz_shape c0 s) * esz\<rparr>) \<and>
         int (length out) = prod_list (nz_shape c0 s) * esz \<and>
         (\<forall>i. in_range (nz_dims t h w c0) i \<longrightarrow>
            tensor_at (nat esz) (nz_dims t h w c0) out i =
            (case nd_of_nz h w c0 i of
               Some j \<Rightarrow> tensor_at (nat esz) [t, h, w] bs j
             | None \<Rightarrow> replicate (nat esz) 0))"
proof -
  note q = nz_requestD [OF assms(1)] and v = nz_view_dims [OF assms(1,2)]
  have m: "max 1 c0 = c0" using q(3) by simp
  have P: "prod_list (nz_shape c0 s) = prod_list (nz_dims t h w c0)" by (rule prod_nz_shape [OF assms(2) q(4)])
  have ready: "trans_ready E args (nz_dims t h w c0) [t, h, w] bs"
    using assms(6) trans_ready_prod [OF P v(4)] by simp
  show ?thesis
    unfolding P
    by (rule layout_map.trans_output_elements [OF nz.fwd.layout_map_axioms
          [where t = t and h = h and w = w and ?w0.0 = c0, unfolded m]
          FractalNz_ok [OF assms(1-5) ready] ready v(6) assms(7)])
qed

theorem Nd_nz_elements_witness:
  "\<exists>out. FractalNz_TransFormat (ref_env 1 2) (plain_args FORMAT_ND FORMAT_FRACTAL_NZ [2, 3] [2, 1, 16, 2]
            [1, 2, 3, 4, 5, 6]) no_result = Inr \<lparr>res_data = Some out, res_length = 64\<rparr> \<and> length out = 64 \<and>
         tensor_at 1 [1, 2, 16, 2] out [0, 1, 1, 0] = [6] \<and>
         tensor_at 1 [1, 2, 16, 2] out [0, 1, 1, 1] = [0]"
proof -
  let ?args = "plain_args FORMAT_ND FORMAT_FRACTAL_NZ [2, 3] [2, 1, 16, 2] [1, 2, 3, 4, 5, 6]"
  have n: "nz_shape 2 [2, 3] = [2, 1, 16, 2]" "nz_dims 1 2 3 2 = [1, 2, 16, 2]" "nd_view [2, 3] = [1, 2, 3]"
    by code_simp+
  have v: "CheckShapeForTransShapeToFracNz FORMAT_ND [2, 3]" "IsShapeValid [2, 1, 16, 2]" by code_simp+
  have "trans_ready (ref_env 1 2) ?args [2, 1, 16, 2] [2, 3] [1, 2, 3, 4, 5, 6]"
    by (rule trans_ready_ref_env) simp_all
  then obtain out where out: "FractalNz_TransFormat (ref_env 1 2) ?args no_result =
        Inr (no_result\<lparr>res_data := Some out, res_length := 64\<rparr>)" "length out = 64"
      "\<forall>i. in_range [1, 2, 16, 2] i \<longrightarrow> tensor_at (nat 1) [1, 2, 16, 2] out i =
         (case nd_of_nz 2 3 2 i of Some j \<Rightarrow> tensor_at (nat 1) [1, 2, 3] [1, 2, 3, 4, 5, 6] j
          | None \<Rightarrow> replicate (nat 1) 0)"
    using Nd_nz_elements [of "ref_env 1 2" ?args "[2, 3]" 2 1 2 3 "[1, 2, 3, 4, 5, 6]" 1 no_result] v
    by (auto simp: n nz_request_def)
  have "tensor_at 1 [1, 2, 3] [1, 2, 3, 4, 5, 6] [0, 1, 2] = [6]" by code_simp
  with out(3) [rule_format, of "[0, 1, 1, 0]"] out(3) [rule_format, of "[0, 1, 1, 1]"] out(1,2)
  show ?thesis by (intro exI [of _ out]) (simp add: no_result_def)
qed

text \<open>
  C6: a tensor of any rank taken to FRACTAL\_NZ and back is, byte for byte, the tensor it
  was, provided the C0 code in the arguments of the way back agrees with the C0 value of
  the format.
\<close>

theorem Nd_nz_roundtrip:
  assumes "nz_request E (arg_src_data_type args) (arg_src_primary_format args) s c0"
    and "arg_src_shape args = s" "arg_dst_shape args = nz_shape c0 s"
    and "GetC0Value E (arg_dst_format args) = c0" "arg_dst_c0_format args = c0"
    and "trans_ready E args (nz_shape c0 s) s bs"
    and "alloc_ok E (prod_list s * GetSizeByDataType E (arg_src_data_type args))"
  shows "\<exists>nz. FractalNz_TransFormat E args result = Inr nz \<and>
         FractalNzND_TransFormat E (reverse_args args nz) result' =
         Inr (result'\<lparr>res_data := Some bs,
                       res_length := prod_list s * GetSizeByDataType E (arg_src_data_type args)\<rparr>)"
proof -
  obtain t h w where view: "nd_view s = [t, h, w]" by (cases "length s = 1") (simp_all add: nd_view_def)
  note q = nz_requestD [OF assms(1)] and v = nz_view_dims [OF assms(1) view]
  have m: "max 1 c0 = c0" using q(3) by simp
  have P: "prod_list (nz_shape c0 s) = prod_list (nz_dims t h w c0)" by (rule prod_nz_shape [OF view q(4)])
  have ready: "trans_ready E args (nz_dims t h w c0) [t, h, w] bs"
    using assms(6) trans_ready_prod [OF P v(4)] by simp
  show ?thesis
    unfolding v(4)
    using assms view
    by (intro nz.transfer_roundtrip [where t = t and h = h and w = w and ?w0.0 = c0
          and F = FractalNz_TransFormat and B = FractalNzND_TransFormat, unfolded m,
          OF FractalNz_ok [OF assms(1) view assms(2,3,4) ready] ready assms(7) [unfolded v(4)] v(6,5)]
        FractalNzND_ok [where s = s]) simp_all
qed

theorem Nd_nz_roundtrip_witness:
  "\<exists>nz. FractalNz_TransFormat (ref_env 2 2)
            ((plain_args FORMAT_ND FORMAT_FRACTAL_NZ [2, 3] [2, 1, 16, 2] [1, 2, 3, 4, 5, 6, 7, 8, 9, 10, 11, 12])
               \<lparr>arg_dst_c0_format := 2\<rparr>) no_result = Inr nz \<and>
        FractalNzND_TransFormat (ref_env 2 2)
            (reverse_args ((plain_args FORMAT_ND FORMAT_FRACTAL_NZ [2, 3] [2, 1, 16, 2]
               [1, 2, 3, 4, 5, 6, 7, 8, 9, 10, 11, 12])\<lparr>arg_dst_c0_format := 2\<rparr>) nz) no_result =
          Inr \<lparr>res_data = Some [1, 2, 3, 4, 5, 6, 7, 8, 9, 10, 11, 12], res_length = 12\<rparr>"
proof -
  let ?args = "(plain_args FORMAT_ND FORMAT_FRACTAL_NZ [2, 3] [2, 1, 16, 2]
    [1, 2, 3, 4, 5, 6, 7, 8, 9, 10, 11, 12])\<lparr>arg_dst_c0_format := 2\<rparr>"
  have n: "nz_shape 2 [2, 3] = [2, 1, 16, 2]" by code_simp
  have v: "CheckShapeForTransShapeToFracNz FORMAT_ND [2, 3]" "IsShapeValid [2, 1, 16, 2]" by code_simp+
  have "trans_ready (ref_env 2 2) ?args [2, 1, 16, 2] [2, 3] [1, 2, 3, 4, 5, 6, 7, 8, 9, 10, 11, 12]"
    by (rule trans_ready_ref_env) simp_all
  then show ?thesis
    using Nd_nz_roundtrip [of "ref_env 2 2" ?args "[2, 3]" 2 "[1, 2, 3, 4, 5, 6, 7, 8, 9, 10, 11, 12]" no_result no_result] v
    by (simp add: n nz_request_def alloc_ok_ref_env no_result_def)
qed

end
