(* ===== verification/TransferFracZz.thy ===== *)
theory TransferFracZz
  imports TransferRows
begin

text \<open>
  The matrix layout FRACTAL\_ZZ, \<^verbatim>\<open>format_transfer_fractal_zz.cc\<close>.  As in FRACTAL\_NZ a tensor
  of any rank is read as \<open>times\<close> matrices; each matrix is cut into \<open>c0\<close> by \<open>c0\<close>
  tiles, and the tiles are stored row by row.
\<close>

section \<open>ND to FRACTAL\_ZZ\<close>

definition CheckDataTypeSupportForFractalZz :: "ge_env \<Rightarrow> DataType \<Rightarrow> bool" where
  "CheckDataTypeSupportForFractalZz E d_type = (GetSizeByDataType E d_type > 0)"

definition CheckShape :: "Format \<Rightarrow> int list \<Rightarrow> bool" where
  "CheckShape format shape =
     (if format = FORMAT_ND then IsShapeValid shape
      else if format = FORMAT_NCHW \<or> format = FORMAT_NHWC then CheckShapeValid shape 4
      else False)"

text \<open>The result is the pair of \<^verbatim>\<open>dst_shape\<close> and \<^verbatim>\<open>hw_shape\<close>.\<close>

definition TransShapeToFracZz :: "int list \<Rightarrow> int \<Rightarrow> (int list \<times> int list) res" where
  "TransShapeToFracZz src_shape c0 =
     (let w0 = c0; h0 = c0; size = length src_shape in
      if size = 1 then
        rbind (vec_ix src_shape 0) (\<lambda>n.
          let dst_shape = [DIM_DEFAULT_VALUE, Ceil n w0, h0, w0];
              hw_shape = [DIM_DEFAULT_VALUE, DIM_DEFAULT_VALUE, n] in
          if \<not> IsShapeValid dst_shape then Inl (Ret ACL_ERROR_GE_SHAPE_INVALID)
          else Inr (dst_shape, hw_shape))
      else
        rbind (vec_back src_shape 2) (\<lambda>h.
        rbind (vec_back src_shape 1) (\<lambda>w.
          let lead = take (size - 2) src_shape;
              times = foldl mul64 1 lead;
              dst_shape = lead @ [Ceil h h0, Ceil w w0, h0, w0];
              hw_shape = [times, h, w] in
          if \<not> IsShapeValid dst_shape then Inl (Ret ACL_ERROR_GE_SHAPE_INVALID)
          else Inr (dst_shape, hw_shape))))"

definition CheckShapeRelation :: "ge_env \<Rightarrow> TransArgs \<Rightarrow> int list res" where
  "CheckShapeRelation E args =
     (let c0 = GetC0Value E (arg_src_format args) in
      rbind (TransShapeToFracZz (arg_dst_shape args) c0)
        (\<lambda>(expect_src_shape, hw_shape).
           if \<not> IsTransShapeSrcCorrect args expect_src_shape then Inl (Ret ACL_ERROR_GE_SHAPE_INVALID)
           else Inr hw_shape))"

definition TransFormatFromNdToFracZz :: "ge_env \<Rightarrow> TransArgs \<Rightarrow> TransResult \<Rightarrow> int list \<Rightarrow> TransResult res" where
  "TransFormatFromNdToFracZz E args result hw_shape =
     (let size = GetSizeByDataType E (arg_src_data_type args);
          dst_size = mul64 (GetItemNumByShape (arg_dst_shape args)) size in
      if dst_size = 0 then Inr (result\<lparr>res_length := dst_size\<rparr>)
      else
        (case new_uint8_zero E dst_size of
           None \<Rightarrow> Inl (Ret ACL_ERROR_GE_MEMORY_ALLOCATION)
         | Some dst \<Rightarrow>
           rbind (vec_at hw_shape 0) (\<lambda>times.
           rbind (vec_at hw_shape 1) (\<lambda>h.
           rbind (vec_at hw_shape 2) (\<lambda>w.
           rbind (vec_back (arg_dst_shape args) 4) (\<lambda>h1.
           rbind (vec_back (arg_dst_shape args) 3) (\<lambda>w1.
           rbind (vec_back (arg_dst_shape args) 2) (\<lambda>h0.
           rbind (vec_back (arg_dst_shape args) 1) (\<lambda>w0.
             if w0 = 0 then Inl Undefined
             else
             let hw = h * w; h0w0 = h0 * w0; w1h0w0 = w1 * h0w0; h1w1h0w0 = h1 * w1h0w0;
                 num_w1 = w sdiv w0 in
             rbind
               (for_upto times (\<lambda>times_idx.
                  let times_head = times_idx * h1w1h0w0; src_times_head = times_idx * hw in
                  for_upto h1 (\<lambda>h1_idx.
                    let h1_head = times_head + h1_idx * w1h0w0; src_h1_head = h1_idx * h0 in
                    for_upto (min h0 (h - src_h1_head)) (\<lambda>h0_idx dst.
                      let h0_head = h1_head + h0_idx * w0;
                          src_h_head = src_times_head + (src_h1_head + h0_idx) * w in
                      rbind
                        (for_upto num_w1 (\<lambda>w1_idx dst.
                           let src_offset = (src_h_head + w1_idx * w0) * size;
                               dst_offset = (h0_head + w1_idx * h0w0) * size in
                           copy_elem E dst dst_size dst_offset (arg_data args) src_offset (size * w0)) dst)
                        (\<lambda>dst.
                          let w1_head = num_w1 * w0; w0_head = h0_head + num_w1 * h0w0;
                              w0_range = w - w1_head in
                          for_upto w0_range (\<lambda>w0_idx dst.
                            let src_w_idx = w1_head + w0_idx;
                                src_offset = (src_h_head + src_w_idx) * size;
                                dst_offset = (w0_head + w0_idx) * size in
                            copy_elem E dst dst_size dst_offset (arg_data args) src_offset size) dst)))) dst)
               (\<lambda>dst. Inr (result\<lparr>res_data := Some dst, res_length := dst_size\<rparr>)))))))))))"

definition FractalZz_TransFormat :: "ge_env \<Rightarrow> TransArgs \<Rightarrow> TransResult \<Rightarrow> TransResult res" where
  "FractalZz_TransFormat E args result =
     (if \<not> CheckDataTypeSupportForFractalZz E (arg_src_data_type args)
      then Inl (Ret ACL_ERROR_GE_DATATYPE_INVALID)
      else if \<not> CheckShape (arg_src_primary_format args) (arg_src_shape args) \<or>
              \<not> IsShapeValid (arg_dst_shape args)
      then Inl (Ret ACL_ERROR_GE_SHAPE_INVALID)
      else
        let c0 = GetC0Value E (arg_dst_format args) in
        rbind (TransShapeToFracZz (arg_src_shape args) c0) (\<lambda>(expect_shape, hw_shape).
          if \<not> IsTransShapeDstCorrect args expect_shape then Inl (Ret ACL_ERROR_GE_SHAPE_INVALID)
          else TransFormatFromNdToFracZz E args result hw_shape))"

definition FractalZz_TransShape ::
  "ge_env \<Rightarrow> Format \<Rightarrow> int list \<Rightarrow> DataType \<Rightarrow> Format \<Rightarrow> int list res" where
  "FractalZz_TransShape E src_format src_shape data_type dst_format =
     (if \<not> CheckDataTypeSupportForFractalZz E data_type then Inl (Ret ACL_ERROR_GE_DATATYPE_INVALID)
      else
        let src_primary_format = GetPrimaryFormat E src_format in
        if \<not> CheckShape src_primary_format src_shape then Inl (Ret ACL_ERROR_GE_SHAPE_INVALID)
        else let c0 = GetC0Value E dst_format in
             rbind (TransShapeToFracZz src_shape c0) (\<lambda>(dst_shape, hw_shape). Inr dst_shape))"

section \<open>FRACTAL\_ZZ to ND\<close>

definition TransFormatFromFracZzToNd :: "ge_env \<Rightarrow> TransArgs \<Rightarrow> TransResult \<Rightarrow> int list \<Rightarrow> TransResult res" where
  "TransFormatFromFracZzToNd E args result dst_hw_shape =
     (let size = GetSizeByDataType E (arg_src_data_type args);
          dst_size = mul64 (GetItemNumByShape (arg_dst_shape args)) size in
      if dst_size = 0 then Inr (result\<lparr>res_length := dst_size\<rparr>)
      else
        (case new_uint8_zero E dst_size of
           None \<Rightarrow> Inl (Ret ACL_ERROR_GE_MEMORY_ALLOCATION)
         | Some dst \<Rightarrow>
           rbind (vec_at dst_hw_shape 0) (\<lambda>times.
           rbind (vec_at dst_hw_shape 1) (\<lambda>h.
           rbind (vec_at dst_hw_shape 2) (\<lambda>w.
           rbind (vec_back (arg_src_shape args) 4) (\<lambda>h1.
           rbind (vec_back (arg_src_shape args) 3) (\<lambda>w1.
           rbind (vec_back (arg_src_shape args) 2) (\<lambda>h0.
           rbind (vec_back (arg_src_shape args) 1) (\<lambda>w0.
             if w0 = 0 then Inl Undefined
             else
             let hw = h * w; h0w0 = h0 * w0; w1h0w0 = w1 * h0w0; h1w1h0w0 = h1 * w1h0w0;
                 num_w1 = w sdiv w0 in
             rbind
               (for_upto times (\<lambda>times_idx.
                  let times_head = times_idx * h1w1h0w0; dst_times_head = times_idx * hw in
                  for_upto h1 (\<lambda>h1_idx.
                    let h1_head = times_head + h1_idx * w1h0w0; dst_h1_head = h1_idx * h0 in
                    for_upto (min h0 (h - dst_h1_head)) (\<lambda>h0_idx dst.
                      let h0_head = h1_head + h0_idx * w0;
                          dst_h_head = dst_times_head + (dst_h1_head + h0_idx) * w in
                      rbind
                        (for_upto num_w1 (\<lambda>w1_idx dst.
                           let src_offset = (h0_head + w1_idx * h0w0) * size;
                               dst_offset = (dst_h_head + w1_idx * w0) * size in
                           copy_elem E dst dst_size dst_offset (arg_data args) src_offset (size * w0)) dst)
                        (\<lambda>dst.
                          let w1_head = num_w1 * w0; w0_head = h0_head + num_w1 * h0w0;
                              w0_range = w - w1_head in
                          for_upto w0_range (\<lambda>w0_idx dst.
                            let src_offset = (w0_head + w0_idx) * size;
                                dst_w_idx = w1_head + w0_idx;
                                dst_offset = (dst_h_head + dst_w_idx) * size in
                            copy_elem E dst dst_size dst_offset (arg_data args) src_offset size) dst)))) dst)
               (\<lambda>dst. Inr (result\<lparr>res_data := Some dst, res_length := dst_size\<rparr>)))))))))))"

definition FractalZzND_TransFormat :: "ge_env \<Rightarrow> TransArgs \<Rightarrow> TransResult \<Rightarrow> TransResult res" where
  "FractalZzND_TransFormat E args result =
     (if \<not> CheckDataTypeSupportForFractalZz E (arg_src_data_type args)
      then Inl (Ret ACL_ERROR_GE_DATATYPE_INVALID)
      else if \<not> IsShapeValid (arg_src_shape args) \<or>
              \<not> CheckShape (arg_dst_primary_format args) (arg_dst_shape args)
      then Inl (Ret ACL_ERROR_GE_SHAPE_INVALID)
      else rbind (CheckShapeRelation E args) (TransFormatFromFracZzToNd E args result))"

definition FractalZzND_TransShape ::
  "ge_env \<Rightarrow> Format \<Rightarrow> int list \<Rightarrow> DataType \<Rightarrow> Format \<Rightarrow> int list res" where
  "FractalZzND_TransShape E src_format src_shape data_type dst_format = Inl (Ret ACL_ERROR_GE_FORMAT_INVALID)"

section \<open>The layout maps\<close>

fun nd_of_zz :: "int \<Rightarrow> int \<Rightarrow> int \<Rightarrow> int list \<Rightarrow> int list option" where
  "nd_of_zz h w c0 [t, a, b, y, k] =
     (if a * c0 + y < h \<and> b * c0 + k < w then Some [t, a * c0 + y, b * c0 + k] else None)"
| "nd_of_zz h w c0 _ = None"

fun zz_of_nd :: "int \<Rightarrow> int list \<Rightarrow> int list option" where
  "zz_of_nd c0 [t, y, x] = Some [t, y div c0, x div c0, y mod c0, x mod c0]"
| "zz_of_nd c0 _ = None"

definition zz_dims :: "int \<Rightarrow> int \<Rightarrow> int \<Rightarrow> int \<Rightarrow> int list" where
  "zz_dims t h w c0 = [t, Ceil h c0, Ceil w c0, c0, c0]"

definition zz_shape :: "int \<Rightarrow> int list \<Rightarrow> int list" where
  "zz_shape c0 s =
     (if length s = 1 then [1, Ceil (s ! 0) c0, c0, c0]
      else take (length s - 2) s @ [Ceil (s ! (length s - 2)) c0, Ceil (s ! (length s - 1)) c0, c0, c0])"

interpretation zz: layout_inverse "zz_dims t h w (max 1 c0)" "[t, h, w]"
  "nd_of_zz h w (max 1 c0)" "zz_of_nd (max 1 c0)"
  for t h w c0 :: int
proof unfold_locales
  fix i j assume "in_range (zz_dims t h w (max 1 c0)) i" "nd_of_zz h w (max 1 c0) i = Some j"
  then show "in_range [t, h, w] j" by (auto simp: zz_dims_def in_range5 split: if_splits)
next
  fix i j assume r: "in_range [t, h, w] i" "zz_of_nd (max 1 c0) i = Some j"
  then show "in_range (zz_dims t h w (max 1 c0)) j"
    by (auto simp: zz_dims_def in_range3 Ceil_covers pos_imp_zdiv_nonneg_iff)
next
  fix j assume "in_range [t, h, w] j"
  then show "\<exists>i. zz_of_nd (max 1 c0) j = Some i \<and> nd_of_zz h w (max 1 c0) i = Some j"
    by (auto simp: in_range3 div_mult_mod_eq)
qed

section \<open>The rows of the loop nest\<close>

text \<open>The rows \<^verbatim>\<open>(times_idx, h1_idx, h0_idx)\<close> that the guard of the third loop lets through.\<close>

definition zz_rows :: "int \<Rightarrow> int \<Rightarrow> int \<Rightarrow> int \<Rightarrow> int list list" where
  "zz_rows t h1 h0 h =
     concat (map (\<lambda>p. concat (map (\<lambda>a. map (\<lambda>b. [p, a, b]) [0..min h0 (h - a * h0) - 1]) [0..h1 - 1])) [0..t - 1])"

lemma for_zz_rows:
  "for_upto t (\<lambda>p. for_upto h1 (\<lambda>a. for_upto (min h0 (h - a * h0)) (B p a))) =
   for_list (zz_rows t h1 h0 h) (\<lambda>r. B (r ! 0) (r ! 1) (r ! 2))"
  by (simp add: for_upto_def zz_rows_def for_list_concat for_list_map)

lemma set_zz_rows:
  "r \<in> set (zz_rows t h1 h0 h) \<longleftrightarrow>
   (\<exists>p a b. r = [p, a, b] \<and> 0 \<le> p \<and> p < t \<and> 0 \<le> a \<and> a < h1 \<and> 0 \<le> b \<and> b < h0 \<and> a * h0 + b < h)"
proof
  assume "\<exists>p a b. r = [p, a, b] \<and> 0 \<le> p \<and> p < t \<and> 0 \<le> a \<and> a < h1 \<and> 0 \<le> b \<and> b < h0 \<and> a * h0 + b < h"
  then obtain p a b where r: "r = [p, a, b]" "p \<in> {0..t - 1}" "a \<in> {0..h1 - 1}" "b \<in> {0..min h0 (h - a * h0) - 1}"
    by auto
  show "r \<in> set (zz_rows t h1 h0 h)"
    unfolding r(1) zz_rows_def set_concat set_map set_upto image_image
    by (rule UN_I [OF r(2)], rule UN_I [OF r(3)], rule imageI [OF r(4)])
qed (auto simp: zz_rows_def)

section \<open>The transfers compute the layout maps\<close>

lemma NdToFracZz_data:
  assumes ready: "trans_ready E args (zz_dims t h w c0) [t, h, w] bs"
    and shape: "arg_dst_shape args = lead @ [Ceil h c0, Ceil w c0, c0, c0]"
    and c0: "0 < c0" and lim: "GetSizeByDataType E (arg_src_data_type args) * c0 \<le> SECUREC_MEM_MAX_LEN E"
    and dims: "0 \<le> t" "0 \<le> h" "0 \<le> w"
    and total: "mul64 (GetItemNumByShape (arg_dst_shape args)) (GetSizeByDataType E (arg_src_data_type args)) =
      prod_list (zz_dims t h w c0) * GetSizeByDataType E (arg_src_data_type args)"
    and pos: "0 < prod_list (zz_dims t h w c0)"
  shows "TransFormatFromNdToFracZz E args result [t, h, w] =
         Inr (trans_output E args (zz_dims t h w c0) [t, h, w] (nd_of_zz h w c0) bs result)"
proof -
  have m: "max 1 c0 = c0" and nz: "c0 \<noteq> 0" using c0 by simp_all
  have D: "\<forall>d \<in> set (zz_dims t h w c0). 0 \<le> d" using dims c0 by (simp add: zz_dims_def Ceil_nonneg)
  have nz2: "prod_list (zz_dims t h w c0) \<noteq> 0" "GetSizeByDataType E (arg_src_data_type args) \<noteq> 0"
    using pos trans_readyD(2) [OF ready] by simp_all
  note R = guarded_run.new_rows_over_zero
    [where dt = "\<lambda>r x. [r ! 0, r ! 1, x div c0, r ! 2, x mod c0]" and st = "\<lambda>r x. [r ! 0, r ! 1 * c0 + r ! 2, x]",
      OF zz.fwd.layout_map_axioms [where t = t and h = h and w = w and ?c0.0 = c0, unfolded m]
        D ready dims(3) c0 lim refl refl]
  have onto: "\<exists>r x. r \<in> set (zz_rows t (Ceil h c0) c0 h) \<and> 0 \<le> x \<and> x < w \<and>
      i = [r ! 0, r ! 1, x div c0, r ! 2, x mod c0]"
    if "in_range (zz_dims t h w c0) i" "nd_of_zz h w c0 i = Some j" for i j
  proof -
    from that(1) obtain p a b y k where "i = [p, a, b, y, k]" "0 \<le> p" "p < t" "0 \<le> a" "a < Ceil h c0" "0 \<le> b"
        "0 \<le> y" "y < c0" "0 \<le> k" "k < c0"
      by (auto simp: zz_dims_def in_range5)
    with that(2) show ?thesis
      by (intro exI [of _ "[p, a, y]"] exI [of _ "b * c0 + k"])
         (auto simp: set_zz_rows int_pair_div int_pair_mod c0 split: if_splits)
  qed
  show ?thesis
    unfolding TransFormatFromNdToFracZz_def Let_def total
    apply (simp add: nz nz2 shape vec_at_in for_zz_rows sdiv_nonneg dims c0 cong: option.case_cong)
    apply (rule R)
    subgoal using c0 by (auto simp: set_zz_rows zz_dims_def Ceil_covers pos_imp_zdiv_nonneg_iff)
    subgoal by (auto simp: zz_dims_def int_pair_div int_pair_mod nz)
    subgoal by (simp add: zz_dims_def nz algebra_simps)
    subgoal using row_tail [OF c0] by (simp add: zz_dims_def algebra_simps)
    by (rule onto)
qed

lemma FracZzToNd_data:
  assumes ready: "trans_ready E args [t, h, w] (zz_dims t h w c0) bs"
    and shape: "arg_src_shape args = lead @ [Ceil h c0, Ceil w c0, c0, c0]"
    and c0: "0 < c0" and lim: "GetSizeByDataType E (arg_src_data_type args) * c0 \<le> SECUREC_MEM_MAX_LEN E"
    and dims: "0 \<le> t" "0 \<le> h" "0 \<le> w"
    and total: "mul64 (GetItemNumByShape (arg_dst_shape args)) (GetSizeByDataType E (arg_src_data_type args)) =
      prod_list [t, h, w] * GetSizeByDataType E (arg_src_data_type args)"
    and pos: "0 < prod_list [t, h, w]"
  shows "TransFormatFromFracZzToNd E args result [t, h, w] =
         Inr (trans_output E args [t, h, w] (zz_dims t h w c0) (zz_of_nd c0) bs result)"
proof -
  have m: "max 1 c0 = c0" and nz: "c0 \<noteq> 0" using c0 by simp_all
  have D: "\<forall>d \<in> set [t, h, w]. 0 \<le> d" using dims by simp
  have nz2: "t \<noteq> 0" "h \<noteq> 0" "w \<noteq> 0" "GetSizeByDataType E (arg_src_data_type args) \<noteq> 0"
    using pos trans_readyD(2) [OF ready] by auto
  note R = guarded_run.new_rows_over_zero
    [where dt = "\<lambda>r x. [r ! 0, r ! 1 * c0 + r ! 2, x]" and st = "\<lambda>r x. [r ! 0, r ! 1, x div c0, r ! 2, x mod c0]",
      OF zz.bwd.layout_map_axioms [where t = t and h = h and w = w and ?c0.0 = c0, unfolded m]
        D ready dims(3) c0 lim refl]
  have onto: "\<exists>r x. r \<in> set (zz_rows t (Ceil h c0) c0 h) \<and> 0 \<le> x \<and> x < w \<and> i = [r ! 0, r ! 1 * c0 + r ! 2, x]"
    if i: "in_range [t, h, w] i" for i
  proof -
    from i obtain p y x where "i = [p, y, x]" "0 \<le> p" "p < t" "0 \<le> y" "y < h" "0 \<le> x" "x < w"
      by (auto simp: in_range3)
    then show ?thesis
      by (intro exI [of _ "[p, y div c0, y mod c0]"] exI [of _ x])
         (auto simp: set_zz_rows Ceil_covers pos_imp_zdiv_nonneg_iff c0)
  qed
  show ?thesis
    unfolding TransFormatFromFracZzToNd_def Let_def total
    apply (simp add: nz nz2 shape vec_at_in for_zz_rows sdiv_nonneg dims c0 cong: option.case_cong)
    apply (rule R)
    subgoal by simp
    subgoal using c0 by (auto simp: set_zz_rows int_pair_div int_pair_mod)
    subgoal by (auto simp: zz_dims_def int_pair_div int_pair_mod nz)
    subgoal by (simp add: zz_dims_def nz algebra_simps)
    subgoal using row_tail [OF c0] by (simp add: zz_dims_def algebra_simps)
    by (rule onto)
qed

section \<open>Shapes\<close>

lemma zz_shape_view:
  assumes "nd_view s = [t, h, w]" and "s \<noteq> []" and "0 < c0"
  obtains lead where "zz_shape c0 s = lead @ [Ceil h c0, Ceil w c0, c0, c0]" and "prod_list lead = t"
  using assms(2)
proof (cases s rule: nd_view_cases)
  case (vector n)
  have "Ceil 1 c0 = 1" using assms(3) by (simp add: Ceil_pos)
  with vector assms(1) show ?thesis by (intro that [of "[]"]) (auto simp: zz_shape_def)
next
  case (matrices lead h w)
  with assms(1) show ?thesis by (intro that [of lead]) (auto simp: zz_shape_def nth_append)
qed

lemma prod_zz_shape:
  "nd_view s = [t, h, w] \<Longrightarrow> s \<noteq> [] \<Longrightarrow> 0 < c0 \<Longrightarrow> prod_list (zz_shape c0 s) = prod_list (zz_dims t h w c0)"
  by (rule zz_shape_view [of s t h w c0]) (simp_all add: zz_dims_def mult.assoc)

lemma TransShapeToFracZz_valid:
  assumes "IsShapeValid s" and "IsShapeValid (zz_shape c0 s)"
  shows "TransShapeToFracZz s c0 = Inr (zz_shape c0 s, nd_view s)"
  using shape_valid_nonempty [OF assms(1)]
proof (cases s rule: nd_view_cases)
  case (vector n)
  then show ?thesis using assms
    by (simp add: TransShapeToFracZz_def zz_shape_def DIM_DEFAULT_VALUE_def vec_ix_in Let_def)
next
  case (matrices lead h w)
  then show ?thesis using assms shape_valid_lead [of lead "[h, w]"]
    by (simp add: TransShapeToFracZz_def zz_shape_def vec_back_in nth_append Let_def)
qed

section \<open>The whole transfers\<close>

text \<open>What both directions assume of a tensor of shape \<open>s\<close> and its FRACTAL\_ZZ image.\<close>

definition zz_request :: "ge_env \<Rightarrow> DataType \<Rightarrow> Format \<Rightarrow> int list \<Rightarrow> int \<Rightarrow> bool" where
  "zz_request E dt format s c0 \<longleftrightarrow>
     CheckShape format s \<and> IsShapeValid (zz_shape c0 s) \<and> 0 < prod_list s \<and>
     0 < c0 \<and> GetSizeByDataType E dt * c0 \<le> SECUREC_MEM_MAX_LEN E"

lemma zz_requestD:
  assumes "zz_request E dt format s c0"
  shows "IsShapeValid s" and "IsShapeValid (zz_shape c0 s)" and "0 < c0" and "s \<noteq> []"
    and "0 < prod_list s" and "GetSizeByDataType E dt * c0 \<le> SECUREC_MEM_MAX_LEN E"
    and "CheckShape format s" and "zz_shape c0 s \<noteq> []"
  using assms
  by (auto simp: zz_request_def CheckShape_def check_shape_valid
      dest: shape_valid_nonempty split: if_splits)

lemma zz_view_dims:
  assumes "zz_request E dt format s c0" and "nd_view s = [t, h, w]"
  shows "0 < t" "0 < h" "0 < w" and "prod_list s = prod_list [t, h, w]"
    and "\<forall>d \<in> set [t, h, w]. 0 \<le> d" and "\<forall>d \<in> set (zz_dims t h w c0). 0 \<le> d"
    and "0 < prod_list (zz_dims t h w c0)"
proof -
  note r = zz_requestD [OF assms(1)]
  show eq: "prod_list s = prod_list [t, h, w]" using prod_nd_view [OF r(4)] assms(2) by simp
  show S: "\<forall>d \<in> set [t, h, w]. 0 \<le> d"
    using nd_view_nonneg [OF shape_valid_nonneg [OF r(1)] r(4)] by (simp only: assms(2))
  have "0 < prod_list [t, h, w]" using r(5) by (simp only: eq)
  from prod_list_posD [OF this S] show p: "0 < t" "0 < h" "0 < w" by simp_all
  have "\<forall>d \<in> set (zz_dims t h w c0). 0 < d"
    using p r(3) by (simp add: zz_dims_def Ceil_gt_0)
  then show "0 < prod_list (zz_dims t h w c0)" "\<forall>d \<in> set (zz_dims t h w c0). 0 \<le> d"
    by (simp_all add: prod_list_pos less_imp_le)
qed

lemma FractalZz_ok:
  assumes req: "zz_request E (arg_src_data_type args) (arg_src_primary_format args) s c0"
    and view: "nd_view s = [t, h, w]"
    and shape: "arg_src_shape args = s" "arg_dst_shape args = zz_shape c0 s"
    and c0: "GetC0Value E (arg_dst_format args) = c0"
    and ready: "trans_ready E args (zz_dims t h w c0) [t, h, w] bs"
  shows "FractalZz_TransFormat E args result =
         Inr (trans_output E args (zz_dims t h w c0) [t, h, w] (nd_of_zz h w c0) bs result)"
proof -
  note q = zz_requestD [OF req] and v = zz_view_dims [OF req view] and r = trans_readyD [OF ready]
  obtain lead where lead: "zz_shape c0 s = lead @ [Ceil h c0, Ceil w c0, c0, c0]"
    by (rule zz_shape_view [OF view q(4,3)])
  have "TransFormatFromNdToFracZz E args result [t, h, w] =
      Inr (trans_output E args (zz_dims t h w c0) [t, h, w] (nd_of_zz h w c0) bs result)"
    by (rule NdToFracZz_data [OF ready _ q(3) q(6)])
       (use v lead shape total_size_valid [OF q(2) r(4)] prod_zz_shape [OF view q(4,3)] in simp_all)
  then show ?thesis
    using TransShapeToFracZz_valid [OF q(1,2)] q r(2)
    by (simp add: FractalZz_TransFormat_def CheckDataTypeSupportForFractalZz_def
        IsTransShapeDstCorrect_def shape c0 view)
qed

lemma FractalZzND_ok:
  assumes req: "zz_request E (arg_src_data_type args) (arg_dst_primary_format args) s c0"
    and view: "nd_view s = [t, h, w]"
    and shape: "arg_src_shape args = zz_shape c0 s" "arg_dst_shape args = s"
    and c0: "GetC0Value E (arg_src_format args) = c0"
    and ready: "trans_ready E args [t, h, w] (zz_dims t h w c0) bs"
  shows "FractalZzND_TransFormat E args result =
         Inr (trans_output E args [t, h, w] (zz_dims t h w c0) (zz_of_nd c0) bs result)"
proof -
  note q = zz_requestD [OF req] and v = zz_view_dims [OF req view] and r = trans_readyD [OF ready]
  obtain lead where lead: "zz_shape c0 s = lead @ [Ceil h c0, Ceil w c0, c0, c0]"
    by (rule zz_shape_view [OF view q(4,3)])
  have "TransFormatFromFracZzToNd E args result [t, h, w] =
      Inr (trans_output E args [t, h, w] (zz_dims t h w c0) (zz_of_nd c0) bs result)"
    by (rule FracZzToNd_data [OF ready _ q(3) q(6)])
       (use v lead shape total_size_valid [OF q(1) r(4)] in simp_all)
  then show ?thesis
    using TransShapeToFracZz_valid [OF q(1,2)] q r(2)
    by (simp add: FractalZzND_TransFormat_def CheckDataTypeSupportForFractalZz_def
        CheckShapeRelation_def IsTransShapeSrcCorrect_def shape c0 view)
qed

section \<open>Properties\<close>

text \<open>
  C23: on a tensor of any rank, in ND, NCHW or NHWC, the transfer to FRACTAL\_ZZ puts element
  \<open>(t, y, x)\<close> of the matrix view into tile \<open>(y / c0, x / c0)\<close> of matrix \<open>t\<close>, at
  \<open>(y mod c0, x mod c0)\<close>, and zero bytes everywhere else.
\<close>

theorem Nd_zz_elements:
  assumes "zz_request E (arg_src_data_type args) (arg_src_primary_format args) s c0"
    and "nd_view s = [t, h, w]"
    and "arg_src_shape args = s" "arg_dst_shape args = zz_shape c0 s"
    and "GetC0Value E (arg_dst_format args) = c0"
    and "trans_ready E args (zz_shape c0 s) s bs"
    and "esz = GetSizeByDataType E (arg_src_data_type args)"
  shows "\<exists>out. FractalZz_TransFormat E args result =
           Inr (result\<lparr>res_data := Some out, res_length := prod_list (zz_shape c0 s) * esz\<rparr>) \<and>
         int (length out) = prod_list (zz_shape c0 s) * esz \<and>
         (\<forall>i. in_range (zz_dims t h w c0) i \<longrightarrow>
            tensor_at (nat esz) (zz_dims t h w c0) out i =
            (case nd_of_zz h w c0 i of
               Some j \<Rightarrow> tensor_at (nat esz) [t, h, w] bs j
             | None \<Rightarrow> replicate (nat esz) 0))"
proof -
  note q = zz_requestD [OF assms(1)] and v = zz_view_dims [OF assms(1,2)]
  have m: "max 1 c0 = c0" using q(3) by simp
  have P: "prod_list (zz_shape c0 s) = prod_list (zz_dims t h w c0)" by (rule prod_zz_shape [OF assms(2) q(4,3)])
  have ready: "trans_ready E args (zz_dims t h w c0) [t, h, w] bs"
    using assms(6) trans_ready_prod [OF P v(4)] by simp
  show ?thesis
    unfolding P
    by (rule layout_map.trans_output_elements [OF zz.fwd.layout_map_axioms
          [where t = t and h = h and w = w and ?c0.0 = c0, unfolded m]
          FractalZz_ok [OF assms(1-5) ready] ready v(6) assms(7)])
qed

theorem Nd_zz_elements_witness:
  "\<exists>out. FractalZz_TransFormat (ref_env 1 2) (plain_args FORMAT_ND FORMAT_FRACTAL_ZZ [2, 3] [1, 2, 2, 2]
            [1, 2, 3, 4, 5, 6]) no_result = Inr \<lparr>res_data = Some out, res_length = 8\<rparr> \<and> length out = 8 \<and>
         tensor_at 1 [1, 1, 2, 2, 2] out [0, 0, 1, 1, 0] = [6] \<and>
         tensor_at 1 [1, 1, 2, 2, 2] out [0, 0, 1, 1, 1] = [0]"
proof -
  let ?args = "plain_args FORMAT_ND FORMAT_FRACTAL_ZZ [2, 3] [1, 2, 2, 2] [1, 2, 3, 4, 5, 6]"
  have n: "zz_shape 2 [2, 3] = [1, 2, 2, 2]" "zz_dims 1 2 3 2 = [1, 1, 2, 2, 2]" "nd_view [2, 3] = [1, 2, 3]"
    by code_simp+
  have v: "CheckShape FORMAT_ND [2, 3]" "IsShapeValid [1, 2, 2, 2]" by code_simp+
  have "trans_ready (ref_env 1 2) ?args [1, 2, 2, 2] [2, 3] [1, 2, 3, 4, 5, 6]"
    by (rule trans_ready_ref_env) simp_all
  then obtain out where out: "FractalZz_TransFormat (ref_env 1 2) ?args no_result =
        Inr (no_result\<lparr>res_data := Some out, res_length := 8\<rparr>)" "length out = 8"
      "\<forall>i. in_range [1, 1, 2, 2, 2] i \<longrightarrow> tensor_at (nat 1) [1, 1, 2, 2, 2] out i =
         (case nd_of_zz 2 3 2 i of Some j \<Rightarrow> tensor_at (nat 1) [1, 2, 3] [1, 2, 3, 4, 5, 6] j
          | None \<Rightarrow> replicate (nat 1) 0)"
    using Nd_zz_elements [of "ref_env 1 2" ?args "[2, 3]" 2 1 2 3 "[1, 2, 3, 4, 5, 6]" 1 no_result] v
    by (auto simp: n zz_request_def)
  have "tensor_at 1 [1, 2, 3] [1, 2, 3, 4, 5, 6] [0, 1, 2] = [6]" by code_simp
  with out(3) [rule_format, of "[0, 0, 1, 1, 0]"] out(3) [rule_format, of "[0, 0, 1, 1, 1]"] out(1,2)
  show ?thesis by (intro exI [of _ out]) (simp add: no_result_def)
qed

text \<open>
  C21: a tensor of any rank taken to FRACTAL\_ZZ and back is, byte for byte, the tensor it
  was.
\<close>

theorem Nd_zz_roundtrip:
  assumes "zz_request E (arg_src_data_type args) (arg_src_primary_format args) s c0"
    and "arg_src_shape args = s" "arg_dst_shape args = zz_shape c0 s"
    and "GetC0Value E (arg_dst_format args) = c0"
    and "trans_ready E args (zz_shape c0 s) s bs"
    and "alloc_ok E (prod_list s * GetSizeByDataType E (arg_src_data_type args))"
  shows "\<exists>zz. FractalZz_TransFormat E args result = Inr zz \<and>
         FractalZzND_TransFormat E (reverse_args args zz) result' =
         Inr (result'\<lparr>res_data := Some bs,
                       res_length := prod_list s * GetSizeByDataType E (arg_src_data_type args)\<rparr>)"
proof -
  obtain t h w where view: "nd_view s = [t, h, w]" by (cases "length s = 1") (simp_all add: nd_view_def)
  note q = zz_requestD [OF assms(1)] and v = zz_view_dims [OF assms(1) view]
  have m: "max 1 c0 = c0" using q(3) by simp
  have P: "prod_list (zz_shape c0 s) = prod_list (zz_dims t h w c0)" by (rule prod_zz_shape [OF view q(4,3)])
  have ready: "trans_ready E args (zz_dims t h w c0) [t, h, w] bs"
    using assms(5) trans_ready_prod [OF P v(4)] by simp
  show ?thesis
    unfolding v(4)
    using assms view
    by (intro zz.transfer_roundtrip [where t = t and h = h and w = w and ?c0.0 = c0
          and F = FractalZz_TransFormat and B = FractalZzND_TransFormat, unfolded m,
          OF FractalZz_ok [OF assms(1) view assms(2,3,4) ready] ready assms(6) [unfolded v(4)] v(6,5)]
        FractalZzND_ok [where s = s]) simp_all
qed

theorem Nd_zz_roundtrip_witness:
  "\<exists>zz. FractalZz_TransFormat (ref_env 2 2)
            ((plain_args FORMAT_ND FORMAT_FRACTAL_ZZ [2, 3] [1, 2, 2, 2] [1, 2, 3, 4, 5, 6, 7, 8, 9, 10, 11, 12])
               ) no_result = Inr zz \<and>
        FractalZzND_TransFormat (ref_env 2 2)
            (reverse_args ((plain_args FORMAT_ND FORMAT_FRACTAL_ZZ [2, 3] [1, 2, 2, 2]
               [1, 2, 3, 4, 5, 6, 7, 8, 9, 10, 11, 12])) zz) no_result =
          Inr \<lparr>res_data = Some [1, 2, 3, 4, 5, 6, 7, 8, 9, 10, 11, 12], res_length = 12\<rparr>"
proof -
  let ?args = "(plain_args FORMAT_ND FORMAT_FRACTAL_ZZ [2, 3] [1, 2, 2, 2]
    [1, 2, 3, 4, 5, 6, 7, 8, 9, 10, 11, 12])"
  have n: "zz_shape 2 [2, 3] = [1, 2, 2, 2]" by code_simp
  have v: "CheckShape FORMAT_ND [2, 3]" "IsShapeValid [1, 2, 2, 2]" by code_simp+
  have "trans_ready (ref_env 2 2) ?args [1, 2, 2, 2] [2, 3] [1, 2, 3, 4, 5, 6, 7, 8, 9, 10, 11, 12]"
    by (rule trans_ready_ref_env) simp_all
  then show ?thesis
    using Nd_zz_roundtrip [of "ref_env 2 2" ?args "[2, 3]" 2 "[1, 2, 3, 4, 5, 6, 7, 8, 9, 10, 11, 12]" no_result no_result] v
    by (simp add: n zz_request_def alloc_ok_ref_env no_result_def)
qed

end
