(* ===== verification/TransferFracZ3D.thy ===== *)
theory TransferFracZ3D
  imports TransferBase
begin

text \<open>
  Weights of three-dimensional convolutions: DHWCN to FRACTAL\_Z\_3D
  (\<^verbatim>\<open>format_transfer_dhwcn_fractal_z_3D.cc\<close>) and DHWNC to FRACTAL\_Z\_3D\_TRANSPOSE
  (\<^verbatim>\<open>format_transfer_dhwnc_fractal_z_3D_transpose.cc\<close>).  The second exchanges the roles of
  the last two axes and then runs the same loop nest.
\<close>

abbreviation (input) "kDhwcnD \<equiv> 0 :: nat"
abbreviation (input) "kDhwcnH \<equiv> 1 :: nat"
abbreviation (input) "kDhwcnW \<equiv> 2 :: nat"
abbreviation (input) "kDhwcnC \<equiv> 3 :: nat"
abbreviation (input) "kDhwcnN \<equiv> 4 :: nat"
abbreviation (input) "kDhwcnDimsNum \<equiv> 5 :: int"

abbreviation (input) "kDhwncD \<equiv> 0 :: nat"
abbreviation (input) "kDhwncH \<equiv> 1 :: nat"
abbreviation (input) "kDhwncW \<equiv> 2 :: nat"
abbreviation (input) "kDhwncN \<equiv> 3 :: nat"
abbreviation (input) "kDhwncC \<equiv> 4 :: nat"
abbreviation (input) "kDhwncDimsNum \<equiv> 5 :: int"

section \<open>DHWCN to FRACTAL\_Z\_3D\<close>

definition CheckDataTypeSupportForDhwcnFractalZ3D :: "ge_env \<Rightarrow> DataType \<Rightarrow> unit res" where
  "CheckDataTypeSupportForDhwcnFractalZ3D E dtype =
     (if 0 < GetSizeByDataType E dtype then Inr () else Inl (Ret UNSUPPORTED))"

definition TransShapeToFzForDhwcnFractalZ3D :: "int \<Rightarrow> int \<Rightarrow> int \<Rightarrow> int \<Rightarrow> int \<Rightarrow> int \<Rightarrow> int list res" where
  "TransShapeToFzForDhwcnFractalZ3D d n c h w c0 =
     (if c0 \<le> 0 then Inl (Ret ACL_ERROR_GE_DATATYPE_INVALID)
      else let c1 = Ceil c c0; no = Ceil n kNiSize in
           Inr [mul64 (mul64 (mul64 d c1) h) w, no, kNiSize, c0])"

definition TransShapeDhwckToFz3D :: "ge_env \<Rightarrow> int list \<Rightarrow> Format \<Rightarrow> int list res" where
  "TransShapeDhwckToFz3D E src_shape dst_format =
     (if \<not> CheckShapeValid src_shape kDhwcnDimsNum then Inl (Ret ACL_ERROR_GE_SHAPE_INVALID)
      else
     rbind (vec_at (src_shape) kDhwcnD) (\<lambda>d.
     rbind (vec_at (src_shape) kDhwcnH) (\<lambda>h.
     rbind (vec_at (src_shape) kDhwcnW) (\<lambda>w.
     rbind (vec_at (src_shape) kDhwcnC) (\<lambda>c.
     rbind (vec_at (src_shape) kDhwcnN) (\<lambda>n.
       let c0 = GetC0Value E dst_format in TransShapeToFzForDhwcnFractalZ3D d n c h w c0))))))"

definition TransFormatDhwckToFz3D :: "ge_env \<Rightarrow> TransArgs \<Rightarrow> TransResult \<Rightarrow> TransResult res" where
  "TransFormatDhwckToFz3D E args result =
     (if \<not> CheckShapeValid (arg_src_shape args) kDhwcnDimsNum then Inl (Ret ACL_ERROR_GE_SHAPE_INVALID)
      else
     rbind (vec_ix (arg_src_shape args) kDhwcnD) (\<lambda>d.
     rbind (vec_ix (arg_src_shape args) kDhwcnH) (\<lambda>h.
     rbind (vec_ix (arg_src_shape args) kDhwcnW) (\<lambda>w.
     rbind (vec_ix (arg_src_shape args) kDhwcnC) (\<lambda>c.
     rbind (vec_ix (arg_src_shape args) kDhwcnN) (\<lambda>n.
       let n1n0 = Ceil n kNiSize * kNiSize;
           c0 = GetC0Value E (arg_dst_format args);
           c1 = Ceil c c0;
           cn = c * n; wcn = w * cn; hwcn = h * wcn;
           n1n0c0 = n1n0 * c0; wn1n0c0 = w * n1n0c0; hwn1n0c0 = h * wn1n0c0; c1hwn1n0c0 = c1 * hwn1n0c0;
           data_size = GetSizeByDataType E (arg_src_data_type args);
           dst_size = mul64 (foldl mul64 1 (arg_dst_shape args)) data_size in
       if dst_size = 0 then Inr (result\<lparr>res_length := dst_size\<rparr>)
       else
         case new_uint8 E dst_size of
           None \<Rightarrow> Inl (Ret ACL_ERROR_GE_MEMORY_ALLOCATION)
         | Some dst \<Rightarrow>
           rbind
             (for_upto d (\<lambda>di. for_upto c1 (\<lambda>c1i. for_upto h (\<lambda>hi. for_upto w (\<lambda>wi. for_upto n1n0 (\<lambda>n1n0i.
                for_upto c0 (\<lambda>c0i dst.
                  let dst_idx = di * c1hwn1n0c0 + c1i * hwn1n0c0 + hi * wn1n0c0 + wi * n1n0c0 + n1n0i * c0 + c0i;
                      dst_offset = dst_idx * data_size;
                      pad_zero = (c \<le> c1i * c0 + c0i \<or> n \<le> n1n0i) in
                  if pad_zero then zero_elem_as ACL_ERROR_GE_MEMORY_OPERATE_FAILED E dst dst_size dst_offset data_size
                  else
                    let src_idx = di * hwcn + hi * wcn + wi * cn + (c1i * c0 + c0i) * n + n1n0i in
                    copy_elem_as ACL_ERROR_GE_MEMORY_OPERATE_FAILED E dst dst_size dst_offset
                      (arg_data args) (src_idx * data_size) data_size)))))) dst)
             (\<lambda>dst. Inr (result\<lparr>res_data := Some dst, res_length := dst_size\<rparr>))))))))"

definition DhwcnFractalZ3D_TransShape ::
  "ge_env \<Rightarrow> Format \<Rightarrow> int list \<Rightarrow> DataType \<Rightarrow> Format \<Rightarrow> int list res" where
  "DhwcnFractalZ3D_TransShape E src_format src_shape data_type dst_format =
     (if CheckDataTypeSupportForDhwcnFractalZ3D E data_type \<noteq> Inr () then Inl (Ret ACL_ERROR_GE_DATATYPE_INVALID)
      else
        let src_primary_format = GetPrimaryFormat E src_format;
            dst_primary_format = GetPrimaryFormat E dst_format in
        if src_primary_format = FORMAT_DHWCN \<and> dst_primary_format = FORMAT_FRACTAL_Z_3D
        then TransShapeDhwckToFz3D E src_shape dst_format
        else Inl (Ret ACL_ERROR_GE_FORMAT_INVALID))"

definition DhwcnFractalZ3D_TransFormat :: "ge_env \<Rightarrow> TransArgs \<Rightarrow> TransResult \<Rightarrow> TransResult res" where
  "DhwcnFractalZ3D_TransFormat E args result =
     rbind (DhwcnFractalZ3D_TransShape E (arg_src_format args) (arg_src_shape args)
              (arg_src_data_type args) (arg_dst_format args)) (\<lambda>expect_shape.
       if \<not> IsTransShapeDstCorrect args expect_shape then Inl (Ret ACL_ERROR_GE_SHAPE_INVALID)
       else if arg_src_primary_format args = FORMAT_DHWCN \<and> arg_dst_primary_format args = FORMAT_FRACTAL_Z_3D
       then TransFormatDhwckToFz3D E args result
       else Inl (Ret ACL_ERROR_GE_FORMAT_INVALID))"

section \<open>DHWNC to FRACTAL\_Z\_3D\_TRANSPOSE\<close>

definition CheckDataTypeSupportForDhwncToFz3DT :: "ge_env \<Rightarrow> DataType \<Rightarrow> unit res" where
  "CheckDataTypeSupportForDhwncToFz3DT E dtype =
     (if 0 < GetSizeByDataType E dtype then Inr () else Inl (Ret UNSUPPORTED))"

definition TransShapeToFzForDhwncToFz3DT :: "int \<Rightarrow> int \<Rightarrow> int \<Rightarrow> int \<Rightarrow> int \<Rightarrow> int \<Rightarrow> int list res" where
  "TransShapeToFzForDhwncToFz3DT d n c h w c0 =
     (if c0 \<le> 0 then Inl (Ret ACL_ERROR_GE_DATATYPE_INVALID)
      else let c1 = Ceil c c0; no = Ceil n kNiSize in
           Inr [mul64 (mul64 (mul64 d c1) h) w, no, kNiSize, c0])"

definition TransShapeDhwncToFz3DTranspose :: "ge_env \<Rightarrow> int list \<Rightarrow> Format \<Rightarrow> int list res" where
  "TransShapeDhwncToFz3DTranspose E src_shape dst_format =
     (if \<not> CheckShapeValid src_shape kDhwncDimsNum then Inl (Ret ACL_ERROR_GE_SHAPE_INVALID)
      else
     rbind (vec_at (src_shape) kDhwncD) (\<lambda>d.
     rbind (vec_at (src_shape) kDhwncH) (\<lambda>h.
     rbind (vec_at (src_shape) kDhwncW) (\<lambda>w.
     rbind (vec_at (src_shape) kDhwncN) (\<lambda>n.
     rbind (vec_at (src_shape) kDhwncC) (\<lambda>c.
       let c0 = GetC0Value E dst_format in TransShapeToFzForDhwncToFz3DT d c n h w c0))))))"

definition TransFormatDhwncToFz3DTranspose :: "ge_env \<Rightarrow> TransArgs \<Rightarrow> TransResult \<Rightarrow> TransResult res" where
  "TransFormatDhwncToFz3DTranspose E args result =
     (if \<not> CheckShapeValid (arg_src_shape args) kDhwncDimsNum then Inl (Ret ACL_ERROR_GE_SHAPE_INVALID)
      else
     rbind (vec_ix (arg_src_shape args) kDhwncD) (\<lambda>d.
     rbind (vec_ix (arg_src_shape args) kDhwncH) (\<lambda>h.
     rbind (vec_ix (arg_src_shape args) kDhwncW) (\<lambda>w.
     rbind (vec_ix (arg_src_shape args) kDhwncN) (\<lambda>c.
     rbind (vec_ix (arg_src_shape args) kDhwncC) (\<lambda>n.
       let n1n0 = Ceil n kNiSize * kNiSize;
           c0 = GetC0Value E (arg_dst_format args);
           c1 = Ceil c c0;
           cn = c * n; wcn = w * cn; hwcn = h * wcn;
           n1n0c0 = n1n0 * c0; wn1n0c0 = w * n1n0c0; hwn1n0c0 = h * wn1n0c0; c1hwn1n0c0 = c1 * hwn1n0c0;
           data_size = GetSizeByDataType E (arg_src_data_type args);
           dst_size = mul64 (foldl mul64 1 (arg_dst_shape args)) data_size in
       if dst_size = 0 then Inr (result\<lparr>res_length := dst_size\<rparr>)
       else
         case new_uint8 E dst_size of
           None \<Rightarrow> Inl (Ret ACL_ERROR_GE_MEMORY_ALLOCATION)
         | Some dst \<Rightarrow>
           rbind
             (for_upto d (\<lambda>di. for_upto c1 (\<lambda>c1i. for_upto h (\<lambda>hi. for_upto w (\<lambda>wi. for_upto n1n0 (\<lambda>n1n0i.
                for_upto c0 (\<lambda>c0i dst.
                  let dst_idx = di * c1hwn1n0c0 + c1i * hwn1n0c0 + hi * wn1n0c0 + wi * n1n0c0 + n1n0i * c0 + c0i;
                      dst_offset = dst_idx * data_size;
                      pad_zero = (c \<le> c1i * c0 + c0i \<or> n \<le> n1n0i) in
                  if pad_zero then zero_elem_as ACL_ERROR_GE_MEMORY_OPERATE_FAILED E dst dst_size dst_offset data_size
                  else
                    let src_idx = di * hwcn + hi * wcn + wi * cn + (c1i * c0 + c0i) * n + n1n0i in
                    copy_elem_as ACL_ERROR_GE_MEMORY_OPERATE_FAILED E dst dst_size dst_offset
                      (arg_data args) (src_idx * data_size) data_size)))))) dst)
             (\<lambda>dst. Inr (result\<lparr>res_data := Some dst, res_length := dst_size\<rparr>))))))))"

definition DhwncFractalZ3DTranspose_TransShape ::
  "ge_env \<Rightarrow> Format \<Rightarrow> int list \<Rightarrow> DataType \<Rightarrow> Format \<Rightarrow> int list res" where
  "DhwncFractalZ3DTranspose_TransShape E src_format src_shape data_type dst_format =
     (if CheckDataTypeSupportForDhwncToFz3DT E data_type \<noteq> Inr () then Inl (Ret ACL_ERROR_GE_DATATYPE_INVALID)
      else
        let src_primary_format = GetPrimaryFormat E src_format;
            dst_primary_format = GetPrimaryFormat E dst_format in
        if src_primary_format = FORMAT_DHWNC \<and> dst_primary_format = FORMAT_FRACTAL_Z_3D_TRANSPOSE
        then TransShapeDhwncToFz3DTranspose E src_shape dst_format
        else Inl (Ret ACL_ERROR_GE_FORMAT_INVALID))"

definition DhwncFractalZ3DTranspose_TransFormat :: "ge_env \<Rightarrow> TransArgs \<Rightarrow> TransResult \<Rightarrow> TransResult res" where
  "DhwncFractalZ3DTranspose_TransFormat E args result =
     rbind (DhwncFractalZ3DTranspose_TransShape E (arg_src_format args) (arg_src_shape args)
              (arg_src_data_type args) (arg_dst_format args)) (\<lambda>expect_shape.
       if \<not> IsTransShapeDstCorrect args expect_shape then Inl (Ret ACL_ERROR_GE_SHAPE_INVALID)
       else if arg_src_primary_format args = FORMAT_DHWNC \<and> arg_dst_primary_format args = FORMAT_FRACTAL_Z_3D_TRANSPOSE
       then TransFormatDhwncToFz3DTranspose E args result
       else Inl (Ret ACL_ERROR_GE_FORMAT_INVALID))"

section \<open>The layout map\<close>

fun dhwcn_of_fz3 :: "int \<Rightarrow> int \<Rightarrow> int \<Rightarrow> int list \<Rightarrow> int list option" where
  "dhwcn_of_fz3 n c c0 [d, c1, h, w, ni, k] =
     (if c1 * c0 + k < c \<and> ni < n then Some [d, h, w, c1 * c0 + k, ni] else None)"
| "dhwcn_of_fz3 n c c0 _ = None"

definition fz3_dims :: "int \<Rightarrow> int \<Rightarrow> int \<Rightarrow> int \<Rightarrow> int \<Rightarrow> int \<Rightarrow> int list" where
  "fz3_dims d n c h w c0 = [d, Ceil c c0, h, w, Ceil n 16 * 16, c0]"

definition fz3_shape :: "int \<Rightarrow> int \<Rightarrow> int \<Rightarrow> int \<Rightarrow> int \<Rightarrow> int \<Rightarrow> int list" where
  "fz3_shape d n c h w c0 = [d * Ceil c c0 * h * w, Ceil n 16, 16, c0]"

interpretation fz3: layout_map "fz3_dims d n c h w c0" "[d, h, w, c, n]" "dhwcn_of_fz3 n c c0"
  for d n c h w c0 :: int
  by unfold_locales (auto simp: fz3_dims_def in_range6 split: if_splits)

section \<open>The transfers compute the layout map\<close>

lemma fz3_sizes:
  assumes dims: "\<forall>x \<in> set [d, h, w, c, n]. 0 < x" and c0: "0 < c0" and esz: "0 < esz"
    and fits: "prod_list (fz3_shape d n c h w c0) * esz < 2 ^ 63"
  shows "mul64 (mul64 (mul64 d (Ceil c c0)) h) w = d * Ceil c c0 * h * w"
    and "mul64 (foldl mul64 1 (fz3_shape d n c h w c0)) esz = prod_list (fz3_dims d n c h w c0) * esz"
    and "prod_list (fz3_dims d n c h w c0) \<noteq> 0"
    and "prod_list (fz3_shape d n c h w c0) = prod_list (fz3_dims d n c h w c0)"
    and "\<forall>x \<in> set (fz3_dims d n c h w c0). 0 \<le> x"
proof -
  have p: "0 < Ceil c c0" "0 < Ceil n 16" using dims c0 by (simp_all add: Ceil_gt_0)
  show eq: "prod_list (fz3_shape d n c h w c0) = prod_list (fz3_dims d n c h w c0)"
    by (simp add: fz3_shape_def fz3_dims_def ac_simps)
  show "prod_list (fz3_dims d n c h w c0) \<noteq> 0" using p dims c0 by (simp add: fz3_dims_def)
  show "\<forall>x \<in> set (fz3_dims d n c h w c0). 0 \<le> x" using p dims c0 by (simp add: fz3_dims_def)
  have pos: "\<forall>x \<in> set (fz3_shape d n c h w c0). 0 < x" using p dims c0 by (simp add: fz3_shape_def)
  have shape: "foldl mul64 1 (fz3_shape d n c h w c0 @ [esz]) = prod_list (fz3_shape d n c h w c0 @ [esz])"
    using foldl_mul64_pos [of 1 "fz3_shape d n c h w c0 @ [esz]"] pos esz fits by auto
  then show "mul64 (foldl mul64 1 (fz3_shape d n c h w c0)) esz = prod_list (fz3_dims d n c h w c0) * esz"
    by (simp add: eq)
  have "foldl mul64 d [Ceil c c0, h, w] = d * prod_list [Ceil c c0, h, w]"
  proof (rule foldl_mul64_pos)
    have "d * prod_list [Ceil c c0, h, w] * 1 \<le> d * prod_list [Ceil c c0, h, w] * (Ceil n 16 * 16 * c0 * esz)"
      using p dims c0 esz by (intro mult_left_mono) (auto simp: int_one_le_iff_zero_less)
    then show "d * prod_list [Ceil c c0, h, w] < 2 ^ 63" using fits by (simp add: fz3_shape_def ac_simps)
  qed (use p dims in auto)
  then show "mul64 (mul64 (mul64 d (Ceil c c0)) h) w = d * Ceil c c0 * h * w" by (simp add: ac_simps)
qed

lemma TransFormatDhwckToFz3D_data:
  assumes ready: "trans_ready E args (fz3_dims d n c h w c0) [d, h, w, c, n] bs"
    and shape: "arg_src_shape args = [d, h, w, c, n]" and valid: "IsShapeValid [d, h, w, c, n]"
    and c0: "GetC0Value E (arg_dst_format args) = c0" "0 < c0"
    and total: "mul64 (foldl mul64 1 (arg_dst_shape args)) (GetSizeByDataType E (arg_src_data_type args)) =
      prod_list (fz3_dims d n c h w c0) * GetSizeByDataType E (arg_src_data_type args)"
    and pos: "prod_list (fz3_dims d n c h w c0) \<noteq> 0"
  shows "TransFormatDhwckToFz3D E args result =
         Inr (trans_output E args (fz3_dims d n c h w c0) [d, h, w, c, n] (dhwcn_of_fz3 n c c0) bs result)"
proof -
  note r = trans_readyD [OF ready]
  have dims: "0 \<le> d" "0 \<le> h" "0 \<le> w" "0 \<le> c" "0 \<le> n" using shape_valid_nonneg [OF valid] by auto
  have D: "\<forall>x \<in> set (fz3_dims d n c h w c0). 0 \<le> x" using dims c0 by (simp add: fz3_dims_def Ceil_nonneg)
  note R = unguarded.new_relayout_elem
    [OF fz3.layout_map_axioms [where d = d and n = n and c = c and h = h and w = w and ?c0.0 = c0]
       ready D in_range_indices refl refl]
  have nz: "prod_list (fz3_dims d n c h w c0) \<noteq> 0" "GetSizeByDataType E (arg_src_data_type args) \<noteq> 0"
    using pos r(2) by simp_all
  show ?thesis
    unfolding TransFormatDhwckToFz3D_def
    by (simp add: shape valid check_shape_valid c0 total nz kNiSize_def Let_def for6 vec_ix_in fz3_dims_def [symmetric]
          cong: option.case_cong if_cong; rule R)
       (auto simp: fz3_dims_def in_range6 algebra_simps)
qed

lemma DhwcnFractalZ3D_shape:
  assumes "formats_are E args FORMAT_DHWCN FORMAT_FRACTAL_Z_3D" and "0 < GetSizeByDataType E (arg_src_data_type args)"
    and "GetC0Value E (arg_dst_format args) = c0" "0 < c0" and "IsShapeValid [d, h, w, c, n]"
    and "mul64 (mul64 (mul64 d (Ceil c c0)) h) w = d * Ceil c c0 * h * w"
  shows "DhwcnFractalZ3D_TransShape E (arg_src_format args) [d, h, w, c, n] (arg_src_data_type args)
           (arg_dst_format args) = Inr (fz3_shape d n c h w c0)"
  using assms
  by (simp add: DhwcnFractalZ3D_TransShape_def TransShapeDhwckToFz3D_def TransShapeToFzForDhwcnFractalZ3D_def
      CheckDataTypeSupportForDhwcnFractalZ3D_def check_shape_valid vec_at_in fz3_shape_def kNiSize_def
      formats_are_def format_defs Let_def)

lemma DhwcnFractalZ3D_ok:
  assumes fmt: "formats_are E args FORMAT_DHWCN FORMAT_FRACTAL_Z_3D"
    and shape: "arg_src_shape args = [d, h, w, c, n]" "arg_dst_shape args = fz3_shape d n c h w c0"
    and c0: "GetC0Value E (arg_dst_format args) = c0" "0 < c0"
    and valid: "IsShapeValid [d, h, w, c, n]" and pos: "0 < prod_list [d, h, w, c, n]"
    and fits: "prod_list (fz3_shape d n c h w c0) * GetSizeByDataType E (arg_src_data_type args) < 2 ^ 63"
    and ready: "trans_ready E args (fz3_dims d n c h w c0) [d, h, w, c, n] bs"
  shows "DhwcnFractalZ3D_TransFormat E args result =
         Inr (trans_output E args (fz3_dims d n c h w c0) [d, h, w, c, n] (dhwcn_of_fz3 n c c0) bs result)"
proof -
  note r = trans_readyD [OF ready]
  note s = fz3_sizes [OF prod_list_posD [OF pos shape_valid_nonneg [OF valid]] c0(2) r(2) fits]
  show ?thesis
    using TransFormatDhwckToFz3D_data [OF ready shape(1) valid c0] s(2,3) fmt
      DhwcnFractalZ3D_shape [OF fmt r(2) c0 valid s(1)]
    by (simp add: DhwcnFractalZ3D_TransFormat_def IsTransShapeDstCorrect_def formats_are_def shape format_defs)
qed

lemma TransFormatDhwncToFz3DTranspose_data:
  assumes ready: "trans_ready E args (fz3_dims d n c h w c0) [d, h, w, c, n] bs"
    and shape: "arg_src_shape args = [d, h, w, c, n]" and valid: "IsShapeValid [d, h, w, c, n]"
    and c0: "GetC0Value E (arg_dst_format args) = c0" "0 < c0"
    and total: "mul64 (foldl mul64 1 (arg_dst_shape args)) (GetSizeByDataType E (arg_src_data_type args)) =
      prod_list (fz3_dims d n c h w c0) * GetSizeByDataType E (arg_src_data_type args)"
    and pos: "prod_list (fz3_dims d n c h w c0) \<noteq> 0"
  shows "TransFormatDhwncToFz3DTranspose E args result =
         Inr (trans_output E args (fz3_dims d n c h w c0) [d, h, w, c, n] (dhwcn_of_fz3 n c c0) bs result)"
proof -
  note r = trans_readyD [OF ready]
  have dims: "0 \<le> d" "0 \<le> h" "0 \<le> w" "0 \<le> c" "0 \<le> n" using shape_valid_nonneg [OF valid] by auto
  have D: "\<forall>x \<in> set (fz3_dims d n c h w c0). 0 \<le> x" using dims c0 by (simp add: fz3_dims_def Ceil_nonneg)
  note R = unguarded.new_relayout_elem
    [OF fz3.layout_map_axioms [where d = d and n = n and c = c and h = h and w = w and ?c0.0 = c0]
       ready D in_range_indices refl refl]
  have nz: "prod_list (fz3_dims d n c h w c0) \<noteq> 0" "GetSizeByDataType E (arg_src_data_type args) \<noteq> 0"
    using pos r(2) by simp_all
  show ?thesis
    unfolding TransFormatDhwncToFz3DTranspose_def
    by (simp add: shape valid check_shape_valid c0 total nz kNiSize_def Let_def for6 vec_ix_in fz3_dims_def [symmetric]
          cong: option.case_cong if_cong; rule R)
       (auto simp: fz3_dims_def in_range6 algebra_simps)
qed

lemma DhwncFractalZ3DTranspose_shape:
  assumes "formats_are E args FORMAT_DHWNC FORMAT_FRACTAL_Z_3D_TRANSPOSE" and "0 < GetSizeByDataType E (arg_src_data_type args)"
    and "GetC0Value E (arg_dst_format args) = c0" "0 < c0" and "IsShapeValid [d, h, w, c, n]"
    and "mul64 (mul64 (mul64 d (Ceil c c0)) h) w = d * Ceil c c0 * h * w"
  shows "DhwncFractalZ3DTranspose_TransShape E (arg_src_format args) [d, h, w, c, n] (arg_src_data_type args)
           (arg_dst_format args) = Inr (fz3_shape d n c h w c0)"
  using assms
  by (simp add: DhwncFractalZ3DTranspose_TransShape_def TransShapeDhwncToFz3DTranspose_def TransShapeToFzForDhwncToFz3DT_def
      CheckDataTypeSupportForDhwncToFz3DT_def check_shape_valid vec_at_in fz3_shape_def kNiSize_def
      formats_are_def format_defs Let_def)

lemma DhwncFractalZ3DTranspose_ok:
  assumes fmt: "formats_are E args FORMAT_DHWNC FORMAT_FRACTAL_Z_3D_TRANSPOSE"
    and shape: "arg_src_shape args = [d, h, w, c, n]" "arg_dst_shape args = fz3_shape d n c h w c0"
    and c0: "GetC0Value E (arg_dst_format args) = c0" "0 < c0"
    and valid: "IsShapeValid [d, h, w, c, n]" and pos: "0 < prod_list [d, h, w, c, n]"
    and fits: "prod_list (fz3_shape d n c h w c0) * GetSizeByDataType E (arg_src_data_type args) < 2 ^ 63"
    and ready: "trans_ready E args (fz3_dims d n c h w c0) [d, h, w, c, n] bs"
  shows "DhwncFractalZ3DTranspose_TransFormat E args result =
         Inr (trans_output E args (fz3_dims d n c h w c0) [d, h, w, c, n] (dhwcn_of_fz3 n c c0) bs result)"
proof -
  note r = trans_readyD [OF ready]
  note s = fz3_sizes [OF prod_list_posD [OF pos shape_valid_nonneg [OF valid]] c0(2) r(2) fits]
  show ?thesis
    using TransFormatDhwncToFz3DTranspose_data [OF ready shape(1) valid c0] s(2,3) fmt
      DhwncFractalZ3DTranspose_shape [OF fmt r(2) c0 valid s(1)]
    by (simp add: DhwncFractalZ3DTranspose_TransFormat_def IsTransShapeDstCorrect_def formats_are_def shape format_defs)
qed

section \<open>Properties\<close>

text \<open>
  C28: a valid non-empty DHWCN weight becomes the FRACTAL\_Z\_3D tensor of the shape that
  \<open>DhwcnFractalZ3D_TransShape\<close> derives: at depth \<open>d\<close>, channel block \<open>c1\<close>, position
  \<open>(h, w)\<close>, output channel \<open>ni\<close> and lane \<open>k\<close> it holds element
  \<open>(d, h, w, c1 * c0 + k, ni)\<close> of the weight, or zero bytes past the end of an axis.
\<close>

theorem Dhwcn_fz3_elements:
  assumes "formats_are E args FORMAT_DHWCN FORMAT_FRACTAL_Z_3D"
    and "arg_src_shape args = [d, h, w, c, n]" "arg_dst_shape args = fz3_shape d n c h w c0"
    and "GetC0Value E (arg_dst_format args) = c0" "0 < c0"
    and "IsShapeValid [d, h, w, c, n]" and "0 < prod_list [d, h, w, c, n]"
    and "esz = GetSizeByDataType E (arg_src_data_type args)"
    and "prod_list (fz3_shape d n c h w c0) * esz < 2 ^ 63"
    and "trans_ready E args (fz3_shape d n c h w c0) [d, h, w, c, n] bs"
  shows "DhwcnFractalZ3D_TransShape E (arg_src_format args) [d, h, w, c, n] (arg_src_data_type args)
           (arg_dst_format args) = Inr (fz3_shape d n c h w c0) \<and>
         (\<exists>out. DhwcnFractalZ3D_TransFormat E args result =
            Inr (result\<lparr>res_data := Some out, res_length := prod_list (fz3_shape d n c h w c0) * esz\<rparr>) \<and>
          int (length out) = prod_list (fz3_shape d n c h w c0) * esz \<and>
          (\<forall>i. in_range (fz3_dims d n c h w c0) i \<longrightarrow>
             tensor_at (nat esz) (fz3_dims d n c h w c0) out i =
             (case dhwcn_of_fz3 n c c0 i of
                Some j \<Rightarrow> tensor_at (nat esz) [d, h, w, c, n] bs j
              | None \<Rightarrow> replicate (nat esz) 0)))"
proof -
  have esz: "0 < esz" using trans_readyD(2) [OF assms(10)] by (simp add: assms(8))
  note s = fz3_sizes [OF prod_list_posD [OF assms(7) shape_valid_nonneg [OF assms(6)]] assms(5) esz assms(9)]
  have ready: "trans_ready E args (fz3_dims d n c h w c0) [d, h, w, c, n] bs"
    using assms(10) s(4) by (simp add: trans_ready_def)
  note ok = DhwcnFractalZ3D_ok [OF assms(1-7) assms(9) [unfolded assms(8)] ready]
  show ?thesis
  proof
    show "DhwcnFractalZ3D_TransShape E (arg_src_format args) [d, h, w, c, n] (arg_src_data_type args)
        (arg_dst_format args) = Inr (fz3_shape d n c h w c0)"
      using DhwcnFractalZ3D_shape [OF assms(1) _ assms(4,5,6) s(1)] esz assms(8) by simp
  qed (use layout_map.trans_output_elements [OF fz3.layout_map_axioms ok ready s(5) assms(8)] s(4) in simp)
qed

theorem Dhwcn_fz3_elements_witness:
  "\<exists>out. DhwcnFractalZ3D_TransFormat (ref_env 1 2) (plain_args FORMAT_DHWCN FORMAT_FRACTAL_Z_3D
            [1, 1, 1, 3, 1] [2, 1, 16, 2] [1, 2, 3]) no_result = Inr \<lparr>res_data = Some out, res_length = 64\<rparr> \<and>
         length out = 64 \<and>
         tensor_at 1 [1, 2, 1, 1, 16, 2] out [0, 1, 0, 0, 0, 0] = [3] \<and>
         tensor_at 1 [1, 2, 1, 1, 16, 2] out [0, 1, 0, 0, 0, 1] = [0]"
proof -
  let ?args = "plain_args FORMAT_DHWCN FORMAT_FRACTAL_Z_3D [1, 1, 1, 3, 1] [2, 1, 16, 2] [1, 2, 3]"
  have n: "fz3_shape 1 1 3 1 1 2 = [2, 1, 16, 2]" "fz3_dims 1 1 3 1 1 2 = [1, 2, 1, 1, 16, 2]" by code_simp+
  have v: "IsShapeValid [1, 1, 1, 3, 1]" by code_simp
  have "trans_ready (ref_env 1 2) ?args [2, 1, 16, 2] [1, 1, 1, 3, 1] [1, 2, 3]"
    by (rule trans_ready_ref_env) simp_all
  then obtain out where out: "DhwcnFractalZ3D_TransFormat (ref_env 1 2) ?args no_result =
        Inr (no_result\<lparr>res_data := Some out, res_length := 64\<rparr>)" "length out = 64"
      "\<forall>i. in_range [1, 2, 1, 1, 16, 2] i \<longrightarrow> tensor_at (nat 1) [1, 2, 1, 1, 16, 2] out i =
         (case dhwcn_of_fz3 1 3 2 i of Some j \<Rightarrow> tensor_at (nat 1) [1, 1, 1, 3, 1] [1, 2, 3] j
          | None \<Rightarrow> replicate (nat 1) 0)"
    using Dhwcn_fz3_elements [of "ref_env 1 2" ?args 1 1 1 3 1 2 1 "[1, 2, 3]" no_result] v
    by (auto simp: n formats_are_def format_defs)
  have "tensor_at 1 [1, 1, 1, 3, 1] [1, 2, 3] [0, 0, 0, 2, 0] = [3]" by code_simp
  with out(3) [rule_format, of "[0, 1, 0, 0, 0, 0]"] out(3) [rule_format, of "[0, 1, 0, 0, 0, 1]"] out(1,2)
  show ?thesis by (intro exI [of _ out]) (simp add: no_result_def)
qed

text \<open>
  C29: a valid non-empty DHWNC weight becomes the FRACTAL\_Z\_3D\_TRANSPOSE tensor: its N
  axis is cut into blocks of \<open>c0\<close> where DHWCN cuts its channels, so output and
  input channels have exchanged their roles.
\<close>

theorem Dhwnc_fz3_elements:
  assumes "formats_are E args FORMAT_DHWNC FORMAT_FRACTAL_Z_3D_TRANSPOSE"
    and "arg_src_shape args = [d, h, w, c, n]" "arg_dst_shape args = fz3_shape d n c h w c0"
    and "GetC0Value E (arg_dst_format args) = c0" "0 < c0"
    and "IsShapeValid [d, h, w, c, n]" and "0 < prod_list [d, h, w, c, n]"
    and "esz = GetSizeByDataType E (arg_src_data_type args)"
    and "prod_list (fz3_shape d n c h w c0) * esz < 2 ^ 63"
    and "trans_ready E args (fz3_shape d n c h w c0) [d, h, w, c, n] bs"
  shows "DhwncFractalZ3DTranspose_TransShape E (arg_src_format args) [d, h, w, c, n] (arg_src_data_type args)
           (arg_dst_format args) = Inr (fz3_shape d n c h w c0) \<and>
         (\<exists>out. DhwncFractalZ3DTranspose_TransFormat E args result =
            Inr (result\<lparr>res_data := Some out, res_length := prod_list (fz3_shape d n c h w c0) * esz\<rparr>) \<and>
          int (length out) = prod_list (fz3_shape d n c h w c0) * esz \<and>
          (\<forall>i. in_range (fz3_dims d n c h w c0) i \<longrightarrow>
             tensor_at (nat esz) (fz3_dims d n c h w c0) out i =
             (case dhwcn_of_fz3 n c c0 i of
                Some j \<Rightarrow> tensor_at (nat esz) [d, h, w, c, n] bs j
              | None \<Rightarrow> replicate (nat esz) 0)))"
proof -
  have esz: "0 < esz" using trans_readyD(2) [OF assms(10)] by (simp add: assms(8))
  note s = fz3_sizes [OF prod_list_posD [OF assms(7) shape_valid_nonneg [OF assms(6)]] assms(5) esz assms(9)]
  have ready: "trans_ready E args (fz3_dims d n c h w c0) [d, h, w, c, n] bs"
    using assms(10) s(4) by (simp add: trans_ready_def)
  note ok = DhwncFractalZ3DTranspose_ok [OF assms(1-7) assms(9) [unfolded assms(8)] ready]
  show ?thesis
  proof
    show "DhwncFractalZ3DTranspose_TransShape E (arg_src_format args) [d, h, w, c, n] (arg_src_data_type args)
        (arg_dst_format args) = Inr (fz3_shape d n c h w c0)"
      using DhwncFractalZ3DTranspose_shape [OF assms(1) _ assms(4,5,6) s(1)] esz assms(8) by simp
  qed (use layout_map.trans_output_elements [OF fz3.layout_map_axioms ok ready s(5) assms(8)] s(4) in simp)
qed

theorem Dhwnc_fz3_elements_witness:
  "\<exists>out. DhwncFractalZ3DTranspose_TransFormat (ref_env 1 2) (plain_args FORMAT_DHWNC FORMAT_FRACTAL_Z_3D_TRANSPOSE
            [1, 1, 1, 3, 1] [2, 1, 16, 2] [1, 2, 3]) no_result = Inr \<lparr>res_data = Some out, res_length = 64\<rparr> \<and>
         length out = 64 \<and>
         tensor_at 1 [1, 2, 1, 1, 16, 2] out [0, 1, 0, 0, 0, 0] = [3] \<and>
         tensor_at 1 [1, 2, 1, 1, 16, 2] out [0, 1, 0, 0, 0, 1] = [0]"
proof -
  let ?args = "plain_args FORMAT_DHWNC FORMAT_FRACTAL_Z_3D_TRANSPOSE [1, 1, 1, 3, 1] [2, 1, 16, 2] [1, 2, 3]"
  have n: "fz3_shape 1 1 3 1 1 2 = [2, 1, 16, 2]" "fz3_dims 1 1 3 1 1 2 = [1, 2, 1, 1, 16, 2]" by code_simp+
  have v: "IsShapeValid [1, 1, 1, 3, 1]" by code_simp
  have "trans_ready (ref_env 1 2) ?args [2, 1, 16, 2] [1, 1, 1, 3, 1] [1, 2, 3]"
    by (rule trans_ready_ref_env) simp_all
  then obtain out where out: "DhwncFractalZ3DTranspose_TransFormat (ref_env 1 2) ?args no_result =
        Inr (no_result\<lparr>res_data := Some out, res_length := 64\<rparr>)" "length out = 64"
      "\<forall>i. in_range [1, 2, 1, 1, 16, 2] i \<longrightarrow> tensor_at (nat 1) [1, 2, 1, 1, 16, 2] out i =
         (case dhwcn_of_fz3 1 3 2 i of Some j \<Rightarrow> tensor_at (nat 1) [1, 1, 1, 3, 1] [1, 2, 3] j
          | None \<Rightarrow> replicate (nat 1) 0)"
    using Dhwnc_fz3_elements [of "ref_env 1 2" ?args 1 1 1 3 1 2 1 "[1, 2, 3]" no_result] v
    by (auto simp: n formats_are_def format_defs)
  have "tensor_at 1 [1, 1, 1, 3, 1] [1, 2, 3] [0, 0, 0, 2, 0] = [3]" by code_simp
  with out(3) [rule_format, of "[0, 1, 0, 0, 0, 0]"] out(3) [rule_format, of "[0, 1, 0, 0, 0, 1]"] out(1,2)
  show ?thesis by (intro exI [of _ out]) (simp add: no_result_def)
qed

end
