(* ===== verification/TransferTranspose.thy ===== *)
theory TransferTranspose
  imports TransferBase
begin

text \<open>
  Axis permutations, \<^verbatim>\<open>format_transfer_transpose.cc\<close>: the transfers among NCHW, NHWC, HWCN and
  CHWN, and the general \<^verbatim>\<open>Transpose\<close> that the FRACTAL\_Z\_C04 transfer calls as well.  The loop
  walks the destination in order and keeps the current index tuple in a little odometer,
  \<^verbatim>\<open>AddOne\<close>.
\<close>

section \<open>The code\<close>

definition perm_args :: "(Format \<times> (Format \<times> int list) list) list" where
  "perm_args =
     [(FORMAT_NCHW, [(FORMAT_NHWC, [0, 2, 3, 1]), (FORMAT_HWCN, [2, 3, 1, 0]), (FORMAT_CHWN, [1, 2, 3, 0])]),
      (FORMAT_NHWC, [(FORMAT_NCHW, [0, 3, 1, 2]), (FORMAT_CHWN, [3, 1, 2, 0]), (FORMAT_HWCN, [1, 2, 3, 0])]),
      (FORMAT_HWCN, [(FORMAT_NCHW, [3, 2, 0, 1]), (FORMAT_NHWC, [3, 0, 1, 2]), (FORMAT_CHWN, [2, 0, 1, 3])]),
      (FORMAT_CHWN, [(FORMAT_NCHW, [3, 0, 1, 2]), (FORMAT_NHWC, [3, 1, 2, 0]), (FORMAT_HWCN, [1, 2, 0, 3])])]"

text \<open>The second loop of \<open>IsShapeArgValid\<close>, with its vector \<^verbatim>\<open>exists\<close> of counters.\<close>

fun perm_loop :: "int list \<Rightarrow> int list \<Rightarrow> bool" where
  "perm_loop [] exists = True"
| "perm_loop (perm # perms) exists =
     (if perm < 0 \<or> int (length exists) \<le> perm \<or> 0 < exists ! nat perm then False
      else perm_loop perms (exists[nat perm := exists ! nat perm + 1]))"

definition IsShapeArgValid :: "int list \<Rightarrow> int list \<Rightarrow> bool" where
  "IsShapeArgValid src_shape perm_arg =
     (if src_shape = [] then False
      else if list_ex (\<lambda>dim. dim < 0) src_shape then False
      else if length perm_arg \<noteq> length src_shape then False
      else perm_loop perm_arg (replicate (length perm_arg) 0))"

definition IsTransposeArgValid :: "ge_env \<Rightarrow> byte list option \<Rightarrow> int list \<Rightarrow> DataType \<Rightarrow> int list \<Rightarrow> bool" where
  "IsTransposeArgValid E src src_shape src_data_type perm_arg =
     (if src = None then False
      else if GetSizeByDataType E src_data_type < 0 then False
      else IsShapeArgValid src_shape perm_arg)"

text \<open>The loop of \<^verbatim>\<open>GenHeads\<close> fills the strides from the last axis to the first.\<close>

fun GenHeads :: "int list \<Rightarrow> int list" where
  "GenHeads [] = []"
| "GenHeads [_] = [1]"
| "GenHeads (_ # dim # shape) = (let heads = GenHeads (dim # shape) in mul64 dim (hd heads) # heads)"

definition GenOffset :: "int list \<Rightarrow> int list \<Rightarrow> int" where
  "GenOffset offsets indexes = foldl (\<lambda>offset i. offset + offsets ! i * indexes ! i) 0 [0..<length indexes]"

fun AddOne_loop :: "int list \<Rightarrow> nat \<Rightarrow> int list \<Rightarrow> int list" where
  "AddOne_loop shape 0 indexes = indexes"
| "AddOne_loop shape (Suc previous_i) indexes =
     (if shape ! Suc previous_i \<le> indexes ! Suc previous_i
      then AddOne_loop shape previous_i
             (indexes[Suc previous_i := 0, previous_i := indexes ! previous_i + 1])
      else indexes)"

definition AddOne :: "int list \<Rightarrow> int list \<Rightarrow> int list" where
  "AddOne shape indexes =
     (let i = length indexes - 1 in AddOne_loop shape i (indexes[i := indexes ! i + 1]))"

text \<open>Called with a valid permutation of the axes only, so that every read is in range.\<close>

definition TransShapeByPerm :: "int list \<Rightarrow> int list \<Rightarrow> int list" where
  "TransShapeByPerm src_shape perm_arg = map (\<lambda>p. src_shape ! nat p) perm_arg"

text \<open>
  The destination pointer is not checked: when the allocation fails, \<^verbatim>\<open>PtrAdd\<close> passes the
  null pointer on to \<^verbatim>\<open>memcpy_s\<close>.
\<close>

definition Transpose ::
  "ge_env \<Rightarrow> byte list option \<Rightarrow> int list \<Rightarrow> DataType \<Rightarrow> int list \<Rightarrow> TransResult \<Rightarrow> TransResult res" where
  "Transpose E src src_shape src_data_type perm_arg result =
     (if \<not> IsTransposeArgValid E src src_shape src_data_type perm_arg
      then Inl (Ret ACL_ERROR_GE_PARAM_INVALID)
      else
        let dst_shape = TransShapeByPerm src_shape perm_arg;
            src_origin_ordered_heads = GenHeads src_shape;
            src_heads = TransShapeByPerm src_origin_ordered_heads perm_arg;
            dst_ele_num = GetItemNumByShape dst_shape;
            data_size = GetSizeByDataType E src_data_type;
            dst_size = mul64 data_size dst_ele_num in
        if dst_ele_num = 0 then Inr (result\<lparr>res_length := dst_size\<rparr>)
        else
          let new = new_uint8 E dst_size;
              dst = (case new of None \<Rightarrow> [] | Some block \<Rightarrow> block) in
          rbind
            (for_upto dst_ele_num (\<lambda>dst_index (dst, dst_indexes).
               let src_offset = GenOffset src_heads dst_indexes * data_size;
                   dst_offset_bytes = dst_index * data_size;
                   p = protected_size E dst_size dst_offset_bytes in
               rbind (if p < 0 then Inl (Ret PARAM_INVALID)
                      else memcpy_checked E ACL_ERROR_GE_MEMORY_OPERATE_FAILED dst
                             (if new = None then None else PtrAdd E dst_size dst_offset_bytes)
                             p src src_offset data_size)
                 (\<lambda>dst. Inr (dst, AddOne dst_shape dst_indexes)))
               (dst, replicate (length dst_shape) 0))
            (\<lambda>(dst, dst_indexes).
               Inr (result\<lparr>res_data := map_option (\<lambda>_. dst) new, res_length := dst_size\<rparr>)))"

text \<open>The mismatch of shapes is reported, but the transposition goes on.\<close>

definition TransposeWithShapeCheck ::
  "ge_env \<Rightarrow> byte list option \<Rightarrow> int list \<Rightarrow> int list \<Rightarrow> DataType \<Rightarrow> int list \<Rightarrow> TransResult \<Rightarrow> TransResult res" where
  "TransposeWithShapeCheck E src src_shape dst_shape src_data_type perm_arg result =
     (if \<not> IsTransposeArgValid E src src_shape src_data_type perm_arg
      then Inl (Ret ACL_ERROR_GE_PARAM_INVALID)
      else Transpose E src src_shape src_data_type perm_arg result)"

definition GetPermByForamt :: "Format \<Rightarrow> Format \<Rightarrow> int list res" where
  "GetPermByForamt src_format dst_format =
     (case map_of perm_args src_format of
        None \<Rightarrow> Inl (Ret ACL_ERROR_GE_FORMAT_INVALID)
      | Some dst_iter \<Rightarrow>
          (case map_of dst_iter dst_format of
             None \<Rightarrow> Inl (Ret ACL_ERROR_GE_FORMAT_INVALID)
           | Some perm \<Rightarrow> Inr perm))"

definition Transpose_TransShape ::
  "ge_env \<Rightarrow> Format \<Rightarrow> int list \<Rightarrow> DataType \<Rightarrow> Format \<Rightarrow> int list res" where
  "Transpose_TransShape E src_format src_shape data_type dst_format =
     (let src_primary_format = GetPrimaryFormat E src_format;
          dst_primary_format = GetPrimaryFormat E dst_format in
      rbind (GetPermByForamt src_primary_format dst_primary_format) (\<lambda>perm_arg.
        if \<not> IsShapeArgValid src_shape perm_arg then Inl (Ret ACL_ERROR_GE_SHAPE_INVALID)
        else Inr (TransShapeByPerm src_shape perm_arg)))"

text \<open>
  \<^verbatim>\<open>perm_args[src][dst]\<close> yields an empty permutation for a pair outside the table.  The
  registry builds this transfer for pairs of the table only, so that the entry which
  \<^verbatim>\<open>operator[]\<close> would insert never appears.
\<close>

definition Transpose_TransFormat :: "ge_env \<Rightarrow> TransArgs \<Rightarrow> TransResult \<Rightarrow> TransResult res" where
  "Transpose_TransFormat E args result =
     rbind (Transpose_TransShape E (arg_src_format args) (arg_src_shape args) (arg_src_data_type args)
              (arg_dst_format args)) (\<lambda>expected_shape.
       if \<not> IsTransShapeDstCorrect args expected_shape then Inl (Ret ACL_ERROR_GE_SHAPE_INVALID)
       else
         let perm = (case map_of perm_args (arg_src_primary_format args) of
                       None \<Rightarrow> []
                     | Some row \<Rightarrow> (case map_of row (arg_dst_primary_format args) of None \<Rightarrow> [] | Some p \<Rightarrow> p)) in
         Transpose E (arg_data args) (arg_src_shape args) (arg_src_data_type args) perm result)"

section \<open>The odometer\<close>

text \<open>The strides of a shape; \<open>lin\<close> is the weighted sum of an index tuple.\<close>

definition strides :: "int list \<Rightarrow> int list" where
  "strides D = map (\<lambda>i. prod_list (drop (Suc i) D)) [0..<length D]"

lemma strides_Cons: "strides (d # D) = prod_list D # strides D"
  by (simp add: strides_def upt_conv_Cons map_Suc_upt [symmetric] del: upt_Suc)

lemma length_strides [simp]: "length (strides D) = length D"
  by (simp add: strides_def)

lemma strides_step: "Suc i < length D \<Longrightarrow> strides D ! i = D ! Suc i * strides D ! Suc i"
  by (simp add: strides_def Cons_nth_drop_Suc [symmetric])

lemma lin_strides: "length i = length D \<Longrightarrow> lin D i = (\<Sum>k<length D. strides D ! k * i ! k)"
proof (induction D i rule: list_induct2')
  case (4 d D k i)
  then show ?case
    by (simp add: strides_Cons sum.lessThan_Suc_shift ac_simps del: sum.lessThan_Suc)
qed (simp_all add: strides_def)

lemma GenHeads_strides:
  assumes "\<forall>d \<in> set D. 0 < d" and "prod_list D < 2 ^ 63"
  shows "GenHeads D = strides D"
  using assms
proof (induction D rule: GenHeads.induct)
  case (3 x d D)
  have p: "0 < prod_list (d # D)" using 3(2) by (intro prod_list_pos) auto
  have "1 * prod_list (d # D) \<le> x * prod_list (d # D)"
    using 3(2) p by (intro mult_right_mono) (auto simp: int_one_le_iff_zero_less)
  then have lt: "prod_list (d # D) < 2 ^ 63" using 3(3) by simp
  then have "mul64 d (prod_list D) = d * prod_list D" using p by (intro mul64_id is_int64_bound) auto
  then show ?case using 3 lt by (simp add: strides_Cons Let_def)
qed (simp_all add: strides_def)

lemma lin_update:
  assumes "length i = length D" and "k < length D"
  shows "lin D (i[k := v]) = lin D i + strides D ! k * (v - i ! k)"
proof -
  have "(\<Sum>m<length D. strides D ! m * i[k := v] ! m) =
      (\<Sum>m<length D. strides D ! m * i ! m + (if m = k then strides D ! k * (v - i ! k) else 0))"
    using assms by (intro sum.cong) (auto simp: nth_list_update algebra_simps)
  also have "\<dots> = (\<Sum>m<length D. strides D ! m * i ! m) + strides D ! k * (v - i ! k)"
    using assms by (simp add: sum.distrib)
  finally show ?thesis using assms by (simp add: lin_strides)
qed

lemma lin_carry:
  assumes "length i = length D" and "Suc k < length D" and "i ! Suc k = D ! Suc k"
  shows "lin D (i[Suc k := 0, k := i ! k + 1]) = lin D i"
  using assms lin_update [of "i[Suc k := 0]" D k "i ! k + 1"] lin_update [of i D "Suc k" 0] strides_step [of k D]
  by (simp add: algebra_simps)

lemma in_range_nth: "in_range D i \<longleftrightarrow> length i = length D \<and> (\<forall>k < length D. 0 \<le> i ! k \<and> i ! k < D ! k)"
  by (auto simp: in_range_def list_all2_conv_all_nth)

lemma AddOne_loop_digits:
  assumes "length i = length D" and "k < length D" and "\<forall>m < length D. 0 < D ! m"
    and "\<forall>m < length D. 0 \<le> i ! m \<and> i ! m \<le> D ! m \<and> (m \<noteq> k \<longrightarrow> i ! m < D ! m)"
  shows "length (AddOne_loop D k i) = length D \<and> lin D (AddOne_loop D k i) = lin D i \<and>
         (\<forall>m < length D. 0 \<le> AddOne_loop D k i ! m \<and> AddOne_loop D k i ! m \<le> D ! m \<and>
            (m \<noteq> 0 \<longrightarrow> AddOne_loop D k i ! m < D ! m))"
  using assms
proof (induction k arbitrary: i)
  case (Suc k)
  show ?case
  proof (cases "D ! Suc k \<le> i ! Suc k")
    case True
    let ?i = "i[Suc k := 0, k := i ! k + 1]"
    have top: "i ! Suc k = D ! Suc k" using True Suc.prems(2,4) by force
    have "i ! k < D ! k" using Suc.prems(2,4) by simp
    then have k: "i ! k + 1 \<le> D ! k" by linarith
    have "\<forall>m < length D. 0 \<le> ?i ! m \<and> ?i ! m \<le> D ! m \<and> (m \<noteq> k \<longrightarrow> ?i ! m < D ! m)"
    proof (intro allI impI)
      fix m assume m: "m < length D"
      with Suc.prems k show "0 \<le> ?i ! m \<and> ?i ! m \<le> D ! m \<and> (m \<noteq> k \<longrightarrow> ?i ! m < D ! m)"
        by (cases "m = k"; cases "m = Suc k") auto
    qed
    then show ?thesis
      using Suc.IH [of ?i] Suc.prems(1-3) lin_carry [OF Suc.prems(1,2) top] True by simp
  next
    case False
    have "i ! m < D ! m" if "m < length D" for m
      using that False Suc.prems(4) by (cases "m = Suc k") auto
    with False Suc.prems show ?thesis by auto
  qed
qed simp

lemma AddOne_next:
  assumes i: "in_range D i" and more: "lin D i + 1 < prod_list D" and D: "D \<noteq> []"
  shows "in_range D (AddOne D i)" and "lin D (AddOne D i) = lin D i + 1"
proof -
  let ?l = "length D - 1"
  let ?i = "i[?l := i ! ?l + 1]"
  have len: "length i = length D" and l: "?l < length D" using i D by (auto simp: in_range_nth)
  have pos: "\<forall>m < length D. 0 < D ! m" using in_range_dims_pos [OF i] by simp
  have "\<forall>m < length D. 0 \<le> ?i ! m \<and> ?i ! m \<le> D ! m \<and> (m \<noteq> ?l \<longrightarrow> ?i ! m < D ! m)"
    using i len by (auto simp: in_range_nth nth_list_update)
  note r = AddOne_loop_digits [OF _ l pos this]
  have A: "AddOne D i = AddOne_loop D ?l ?i" by (simp add: AddOne_def len Let_def)
  have "strides D ! ?l = 1" using D by (simp add: strides_def)
  then show step: "lin D (AddOne D i) = lin D i + 1"
    using r len l lin_update [OF len l] by (simp add: A)
  have lenA: "length (AddOne D i) = length D" using r len by (simp add: A)
  have "AddOne D i ! 0 < D ! 0"
  proof (rule ccontr)
    assume "\<not> ?thesis"
    moreover have "strides D ! 0 * D ! 0 = prod_list D" using D by (cases D) (simp_all add: strides_Cons)
    moreover have "0 \<le> strides D ! 0"
      using D in_range_dims_pos [OF i] by (cases D) (auto simp: strides_Cons intro!: prod_list_nonneg)
    ultimately have "prod_list D \<le> strides D ! 0 * AddOne D i ! 0" by (metis mult_left_mono not_less)
    also have "\<dots> \<le> (\<Sum>k<length D. strides D ! k * AddOne D i ! k)"
      using D r len pos by (intro member_le_sum) (auto simp: A strides_def intro!: mult_nonneg_nonneg prod_list_nonneg
        dest: in_set_dropD in_range_dims_pos [OF i, rule_format, THEN less_imp_le])
    also have "\<dots> = lin D (AddOne D i)" by (rule lin_strides [OF lenA, symmetric])
    finally show False using step more by simp
  qed
  then show "in_range D (AddOne D i)"
    using r len unfolding in_range_nth A by (metis length_list_update neq0_conv)
qed

lemma zeros_first:
  assumes "\<forall>d \<in> set D. 0 < d"
  shows "in_range D (replicate (length D) 0)" and "lin D (replicate (length D) 0) = 0"
  using assms by (induction D) simp_all

lemma AddOne_indices:
  assumes D: "\<forall>d \<in> set D. 0 < d" and ne: "D \<noteq> []"
  shows "map (\<lambda>k. (AddOne D ^^ k) (replicate (length D) 0)) [0..<length (indices D)] = indices D"
proof -
  have walk: "in_range D ((AddOne D ^^ k) (replicate (length D) 0)) \<and>
      lin D ((AddOne D ^^ k) (replicate (length D) 0)) = int k" if "int k < prod_list D" for k
    using that
  proof (induction k)
    case (Suc k)
    let ?t = "(AddOne D ^^ k) (replicate (length D) 0)"
    have "in_range D ?t" "lin D ?t = int k" using Suc by auto
    then show ?case using AddOne_next [of D ?t] Suc.prems ne by simp
  qed (use zeros_first [OF D] in simp)
  have N: "int (length (indices D)) = prod_list D" by (rule length_indices [OF dims_nonneg [OF D]])
  show ?thesis
  proof (rule nth_equalityI)
    fix k assume "k < length (map (\<lambda>k. (AddOne D ^^ k) (replicate (length D) 0)) [0..<length (indices D)])"
    then have k: "k < length (indices D)" by simp
    with N walk [of k] nth_indices_lin(2) [of D "(AddOne D ^^ k) (replicate (length D) 0)"]
    show "map (\<lambda>k. (AddOne D ^^ k) (replicate (length D) 0)) [0..<length (indices D)] ! k = indices D ! k" by simp
  qed simp
qed

text \<open>A loop that carries a second state of its own is a loop over the pairs of both.\<close>

lemma for_list_counter:
  "for_list xs (\<lambda>x (d, c). rbind (f x c d) (\<lambda>d. Inr (d, g c))) (d, c) =
   rbind (for_list (zip xs (map (\<lambda>k. (g ^^ k) c) [0..<length xs])) (\<lambda>(x, c). f x c) d)
     (\<lambda>d. Inr (d, (g ^^ length xs) c))"
proof (induction xs arbitrary: d c)
  case (Cons x xs)
  have shift: "map (\<lambda>k. (g ^^ k) c) [0..<length (x # xs)] = c # map (\<lambda>k. (g ^^ k) (g c)) [0..<length xs]"
    by (simp add: upt_conv_Cons map_Suc_upt [symmetric] funpow_swap1 del: upt_Suc)
  show ?case
    unfolding shift by (cases "f x c d") (simp_all add: Cons.IH funpow_swap1)
qed simp

lemma odometer_loop:
  assumes D: "\<forall>d \<in> set D. 0 < d" and ne: "D \<noteq> []"
  shows "\<exists>last. for_upto (prod_list D) (\<lambda>x (d, c). rbind (f x c d) (\<lambda>d. Inr (d, AddOne D c)))
           (d, replicate (length D) 0) =
         rbind (for_list (indices D) (\<lambda>t. f (lin D t) t) d) (\<lambda>d. Inr (d, last))"
proof -
  have N: "[0..prod_list D - 1] = map (lin D) (indices D)" by (rule map_lin_indices [OF dims_nonneg [OF D], symmetric])
  have "zip (map (lin D) (indices D)) (indices D) = map (\<lambda>t. (lin D t, t)) (indices D)"
    by (simp add: zip_map1 zip_same_conv_map)
  then show ?thesis
    unfolding for_upto_def N for_list_counter
    by (intro exI) (simp add: AddOne_indices [OF D ne] for_list_map)
qed

section \<open>Permutations of the axes\<close>

text \<open>\<open>valid_perm n perm\<close>: \<open>perm\<close> lists the axes \<open>0, ..., n - 1\<close>, each once.\<close>

definition valid_perm :: "nat \<Rightarrow> int list \<Rightarrow> bool" where
  "valid_perm n perm \<longleftrightarrow> length perm = n \<and> distinct perm \<and> (\<forall>p \<in> set perm. 0 \<le> p \<and> p < int n)"

lemma perm_loop_iff:
  "\<forall>k < length ex. 0 \<le> ex ! k \<Longrightarrow>
   perm_loop perm ex \<longleftrightarrow>
     distinct perm \<and> (\<forall>p \<in> set perm. 0 \<le> p \<and> p < int (length ex) \<and> ex ! nat p = 0)"
proof (induction perm arbitrary: ex)
  case (Cons p perm)
  show ?case
  proof (cases "0 \<le> p \<and> p < int (length ex) \<and> ex ! nat p = 0")
    case True
    then have p: "nat p < length ex" by linarith
    have "\<forall>k < length (ex[nat p := 1]). 0 \<le> ex[nat p := 1] ! k"
      using Cons.prems p by (simp add: nth_list_update)
    note IH = Cons.IH [OF this]
    have upd: "(0 \<le> q \<and> q < int (length ex) \<and> ex[nat p := 1] ! nat q = 0) \<longleftrightarrow>
        q \<noteq> p \<and> 0 \<le> q \<and> q < int (length ex) \<and> ex ! nat q = 0" for q
      using True p by (cases "q = p") (auto simp: nth_list_update)
    have "perm_loop (p # perm) ex \<longleftrightarrow> perm_loop perm (ex[nat p := 1])" using True by simp
    also have "\<dots> \<longleftrightarrow> distinct perm \<and>
        (\<forall>q \<in> set perm. q \<noteq> p \<and> 0 \<le> q \<and> q < int (length ex) \<and> ex ! nat q = 0)"
      unfolding IH length_list_update upd ..
    finally show ?thesis using True by auto
  next
    case False
    have "\<not> perm_loop (p # perm) ex"
    proof (cases "0 \<le> p \<and> p < int (length ex)")
      case True
      then have "nat p < length ex" by linarith
      then have "0 \<le> ex ! nat p" using Cons.prems by simp
      with False True have "0 < ex ! nat p" by linarith
      then show ?thesis by simp
    qed auto
    with False show ?thesis by auto
  qed
qed simp

lemma IsShapeArgValid_iff:
  "IsShapeArgValid S perm \<longleftrightarrow> S \<noteq> [] \<and> (\<forall>d \<in> set S. 0 \<le> d) \<and> valid_perm (length S) perm"
proof -
  have zero: "(0 \<le> p \<and> p < int n \<and> replicate n (0 :: int) ! nat p = 0) = (0 \<le> p \<and> p < int n)" for p n
    by (auto simp: nat_less_iff)
  have loop: "perm_loop perm (replicate (length perm) 0) \<longleftrightarrow>
      distinct perm \<and> (\<forall>p \<in> set perm. 0 \<le> p \<and> p < int (length perm))"
    using perm_loop_iff [of "replicate (length perm) 0" perm] by (simp only: length_replicate zero) simp
  have nonneg: "(\<not> list_ex (\<lambda>dim. dim < 0) S) \<longleftrightarrow> (\<forall>d \<in> set S. 0 \<le> d)" by (auto simp: list_ex_iff not_less)
  show ?thesis unfolding IsShapeArgValid_def valid_perm_def loop using nonneg by auto
qed

text \<open>The source tuple of a destination tuple: axis \<open>perm ! k\<close> of the source is axis \<open>k\<close> of the destination.\<close>

definition unperm :: "int list \<Rightarrow> int list \<Rightarrow> int list" where
  "unperm perm i = map (\<lambda>m. the (map_of (zip perm i) (int m))) [0..<length perm]"

lemma length_unperm [simp]: "length (unperm perm i) = length perm"
  by (simp add: unperm_def)

lemma valid_perm_nth:
  assumes "valid_perm n perm" and "k < n"
  shows "nat (perm ! k) < n" and "int (nat (perm ! k)) = perm ! k"
proof -
  have "0 \<le> perm ! k \<and> perm ! k < int n" using assms by (simp add: valid_perm_def)
  then show "nat (perm ! k) < n" "int (nat (perm ! k)) = perm ! k" by auto
qed

lemma valid_perm_bij: "valid_perm n perm \<Longrightarrow> bij_betw (\<lambda>k. nat (perm ! k)) {..<n} {..<n}"
proof -
  assume v: "valid_perm n perm"
  have inj: "inj_on (\<lambda>k. nat (perm ! k)) {..<n}"
  proof (rule inj_onI)
    fix j k assume jk: "j \<in> {..<n}" "k \<in> {..<n}" "nat (perm ! j) = nat (perm ! k)"
    then have "perm ! j = perm ! k" using valid_perm_nth(2) [OF v] by (metis lessThan_iff)
    then show "j = k" using jk v by (simp add: valid_perm_def nth_eq_iff_index_eq)
  qed
  moreover have "(\<lambda>k. nat (perm ! k)) ` {..<n} \<subseteq> {..<n}" using valid_perm_nth(1) [OF v] by auto
  ultimately show ?thesis by (simp add: bij_betw_def endo_inj_surj)
qed

lemma unperm_nth:
  assumes v: "valid_perm n perm" and "length i = n" and "k < n"
  shows "unperm perm i ! nat (perm ! k) = i ! k"
proof -
  have "map_of (zip perm i) (perm ! k) = Some (i ! k)"
    using assms by (intro map_of_zip_nth) (auto simp: valid_perm_def)
  then show ?thesis using valid_perm_nth [OF v assms(3)] v by (simp add: unperm_def valid_perm_def)
qed

lemma TransShapeByPerm_nth:
  "valid_perm n perm \<Longrightarrow> k < n \<Longrightarrow> TransShapeByPerm xs perm ! k = xs ! nat (perm ! k)"
  by (simp add: TransShapeByPerm_def valid_perm_def)

lemma length_TransShapeByPerm [simp]: "length (TransShapeByPerm xs perm) = length perm"
  by (simp add: TransShapeByPerm_def)

lemma set_TransShapeByPerm:
  assumes "valid_perm (length S) perm"
  shows "set (TransShapeByPerm S perm) = set S"
proof -
  have "set (TransShapeByPerm S perm) = (\<lambda>k. S ! nat (perm ! k)) ` {..<length S}"
  proof -
    have "set perm = (\<lambda>k. perm ! k) ` {..<length S}" using assms by (auto simp: valid_perm_def set_conv_nth)
    then show ?thesis by (simp add: TransShapeByPerm_def image_image)
  qed
  also have "\<dots> = (\<lambda>k. S ! k) ` {..<length S}"
    using bij_betw_imp_surj_on [OF valid_perm_bij [OF assms]] by (metis image_image)
  finally show ?thesis by (auto simp: set_conv_nth)
qed

lemma prod_TransShapeByPerm:
  assumes v: "valid_perm (length S) perm"
  shows "prod_list (TransShapeByPerm S perm) = prod_list S"
proof -
  have len: "length perm = length S" using v by (simp add: valid_perm_def)
  have prod: "prod_list xs = (\<Prod>k<length xs. xs ! k)" for xs :: "int list"
    by (induction xs) (simp_all add: prod.lessThan_Suc_shift del: prod.lessThan_Suc)
  have "prod_list (TransShapeByPerm S perm) = (\<Prod>k<length S. S ! nat (perm ! k))"
    by (simp add: prod len TransShapeByPerm_nth [OF v])
  also have "\<dots> = (\<Prod>k<length S. S ! k)"
    by (rule prod.reindex_bij_betw [OF valid_perm_bij [OF v]])
  finally show ?thesis by (simp add: prod)
qed

lemma unperm_range:
  assumes v: "valid_perm (length S) perm" and i: "in_range (TransShapeByPerm S perm) i"
  shows "in_range S (unperm perm i)"
proof -
  have len: "length perm = length S" "length i = length S" using v i by (auto simp: valid_perm_def in_range_nth)
  have "0 \<le> unperm perm i ! m \<and> unperm perm i ! m < S ! m" if m: "m < length S" for m
  proof -
    obtain k where k: "k < length S" "m = nat (perm ! k)"
      using bij_betw_imp_surj_on [OF valid_perm_bij [OF v]] m by blast
    then show ?thesis
      using i unperm_nth [OF v len(2) k(1)] TransShapeByPerm_nth [OF v k(1), of S]
      by (auto simp: in_range_nth len)
  qed
  then show ?thesis by (simp add: in_range_nth len)
qed

lemma GenOffset_sum: "GenOffset hs i = (\<Sum>k<length i. hs ! k * i ! k)"
proof -
  have "foldl (\<lambda>offset k. offset + hs ! k * i ! k) 0 [0..<n] = (\<Sum>k<n. hs ! k * i ! k)" for n
    by (induction n) simp_all
  then show ?thesis by (simp add: GenOffset_def)
qed

lemma GenOffset_lin:
  assumes v: "valid_perm (length S) perm" and len: "length i = length S"
  shows "GenOffset (TransShapeByPerm (strides S) perm) i = lin S (unperm perm i)"
proof -
  have lu: "length (unperm perm i) = length S" using v by (simp add: valid_perm_def)
  have "GenOffset (TransShapeByPerm (strides S) perm) i = (\<Sum>k<length S. strides S ! nat (perm ! k) * unperm perm i ! nat (perm ! k))"
    unfolding GenOffset_sum len
    by (intro sum.cong) (auto simp: TransShapeByPerm_nth [OF v] unperm_nth [OF v len])
  also have "\<dots> = (\<Sum>k<length S. strides S ! k * unperm perm i ! k)"
    by (rule sum.reindex_bij_betw [OF valid_perm_bij [OF v]])
  finally show ?thesis by (simp add: lin_strides [OF lu])
qed

section \<open>Transpose computes the permutation\<close>

lemma transpose_layout:
  "valid_perm (length S) perm \<Longrightarrow> layout_map (TransShapeByPerm S perm) S (\<lambda>i. Some (unperm perm i))"
  by unfold_locales (auto dest: unperm_range)

text \<open>What a transposition of a non-empty tensor relies on.\<close>

definition transpose_ready :: "ge_env \<Rightarrow> DataType \<Rightarrow> int list \<Rightarrow> int list \<Rightarrow> byte list \<Rightarrow> bool" where
  "transpose_ready E dt S perm bs \<longleftrightarrow>
     securec_ok E \<and> size_ok E dt \<and> valid_perm (length S) perm \<and> S \<noteq> [] \<and> (\<forall>d \<in> set S. 0 < d) \<and>
     prod_list S * GetSizeByDataType E dt < 2 ^ 63 \<and> alloc_ok E (prod_list S * GetSizeByDataType E dt) \<and>
     length bs = nat (prod_list S) * nat (GetSizeByDataType E dt)"

lemma transpose_sizes:
  assumes "transpose_ready E dt S perm bs" and "esz = GetSizeByDataType E dt"
  shows "GetItemNumByShape (TransShapeByPerm S perm) = prod_list S"
    and "mul64 esz (prod_list S) = prod_list S * esz"
    and "GenHeads S = strides S" and "0 < prod_list S" and "0 < esz"
proof -
  from assms have v: "valid_perm (length S) perm" and pos: "\<forall>d \<in> set S. 0 < d" and esz: "0 < esz"
    and fits: "prod_list S * esz < 2 ^ 63" by (auto simp: transpose_ready_def size_ok_def)
  show p: "0 < prod_list S" by (rule prod_list_pos [OF pos])
  show "0 < esz" by (rule esz)
  have "prod_list S * 1 \<le> prod_list S * esz" using p esz by (intro mult_left_mono) auto
  then have lt: "prod_list S < 2 ^ 63" using fits by simp
  show "GenHeads S = strides S" by (rule GenHeads_strides [OF pos lt])
  show "mul64 esz (prod_list S) = prod_list S * esz"
    using p esz fits by (subst mul64_id) (auto intro!: is_int64_bound simp: mult.commute)
  show "GetItemNumByShape (TransShapeByPerm S perm) = prod_list S"
    using foldl_mul64_pos [of 1 "TransShapeByPerm S perm"] pos lt
    by (simp add: GetItemNumByShape_def set_TransShapeByPerm [OF v] prod_TransShapeByPerm [OF v])
qed

lemma Transpose_ok:
  assumes ready: "transpose_ready E dt S perm bs" and esz: "esz = GetSizeByDataType E dt"
  shows "Transpose E (Some bs) S dt perm result =
         Inr (result\<lparr>res_data := Some (relayout (nat esz) (TransShapeByPerm S perm) S (\<lambda>i. Some (unperm perm i)) bs),
                      res_length := prod_list S * esz\<rparr>)"
proof -
  let ?D = "TransShapeByPerm S perm"
  let ?hs = "TransShapeByPerm (strides S) perm"
  note z = transpose_sizes [OF ready esz]
  from ready have E: "securec_ok E" and v: "valid_perm (length S) perm" and ne: "S \<noteq> []"
    and pos: "\<forall>d \<in> set S. 0 < d" and le: "esz \<le> 2 ^ 22" and bs: "length bs = nat (prod_list S) * nat esz"
    using esz by (auto simp: transpose_ready_def size_ok_def)
  obtain buf where buf: "new_uint8 E (prod_list S * esz) = Some buf" "int (length buf) = prod_list ?D * esz"
    using ready esz by (auto simp: transpose_ready_def alloc_ok_def prod_TransShapeByPerm)
  have posD: "\<forall>d \<in> set ?D. 0 < d" using pos by (simp add: set_TransShapeByPerm [OF v])
  have neD: "?D \<noteq> []" using ne v by (auto simp: TransShapeByPerm_def valid_perm_def)
  have P: "prod_list ?D = prod_list S" by (rule prod_TransShapeByPerm [OF v])
  obtain last where loop: "for_upto (prod_list ?D) (\<lambda>x (d, c). rbind (copy_elem E d (prod_list S * esz) (x * esz)
        (Some bs) (GenOffset ?hs c * esz) esz) (\<lambda>d. Inr (d, AddOne ?D c))) (buf, replicate (length ?D) 0) =
      rbind (for_list (indices ?D) (\<lambda>t d. copy_elem E d (prod_list S * esz) (lin ?D t * esz)
        (Some bs) (GenOffset ?hs t * esz) esz) buf) (\<lambda>d. Inr (d, last))"
    using odometer_loop [OF posD neD, of "\<lambda>x c d. copy_elem E d (prod_list S * esz) (x * esz) (Some bs)
        (GenOffset ?hs c * esz) esz" buf] by blast
  have "for_list (indices ?D) (\<lambda>t d. copy_elem E d (prod_list S * esz) (lin ?D t * esz)
        (Some bs) (GenOffset ?hs t * esz) esz) buf =
      Inr (relayout (nat esz) ?D S (\<lambda>i. Some (unperm perm i)) bs)"
  proof (rule layout_map.relayout_loop [OF transpose_layout [OF v] dims_nonneg [OF posD] in_range_indices z(5) le buf(2) bs])
    fix t d j assume t: "t \<in> set (indices ?D)" and s: "slot (prod_list ?D) esz d (lin ?D (id t))"
      and j: "Some (unperm perm (id t)) = Some j" "0 \<le> lin S j" "lin S j < prod_list S"
    have len: "length t = length S" using t v by (simp add: set_indices in_range_nth valid_perm_def)
    show "copy_elem E d (prod_list S * esz) (lin ?D t * esz) (Some bs) (GenOffset ?hs t * esz) esz =
        Inr (put d (nat (lin ?D (id t)) * nat esz) (elem (nat esz) bs (nat (lin S j))))"
      using guarded.cp_slot [OF E s j(2,3) bs] j(1) by (simp add: GenOffset_lin [OF v len] P)
  qed simp
  with loop z buf esz show ?thesis
    by (simp add: Transpose_def IsTransposeArgValid_def IsShapeArgValid_iff ne pos less_imp_le v P
        Let_def copy_elem_def case_prod_unfold cong: if_cong)
qed

section \<open>Inverse permutations\<close>

definition inverse_perm :: "int list \<Rightarrow> int list \<Rightarrow> bool" where
  "inverse_perm p q \<longleftrightarrow> (\<forall>k < length p. p ! nat (q ! k) = int k)"

lemma inverse_shape:
  assumes "valid_perm (length S) p" and "valid_perm (length S) q" and "inverse_perm p q"
  shows "TransShapeByPerm (TransShapeByPerm S p) q = S"
proof (rule nth_equalityI)
  fix k assume "k < length (TransShapeByPerm (TransShapeByPerm S p) q)"
  then have k: "k < length S" using assms(2) by (simp add: valid_perm_def)
  have "p ! nat (q ! k) = int k" using k assms(1,3) by (simp add: inverse_perm_def valid_perm_def)
  then show "TransShapeByPerm (TransShapeByPerm S p) q ! k = S ! k"
    using TransShapeByPerm_nth [OF assms(2) k] TransShapeByPerm_nth [OF assms(1) valid_perm_nth(1) [OF assms(2) k]]
    by simp
qed (use assms(2) in \<open>simp add: valid_perm_def\<close>)

lemma unperm_undo:
  assumes "valid_perm n p" and "valid_perm n q" and "inverse_perm p q" and "length j = n"
  shows "unperm p (unperm q j) = j"
proof (rule nth_equalityI)
  have len: "length p = n" "length q = n" using assms by (auto simp: valid_perm_def)
  then show "length (unperm p (unperm q j)) = length j" using assms(4) by simp
  fix k assume "k < length (unperm p (unperm q j))"
  then have k: "k < n" by (simp add: len)
  have pk: "p ! nat (q ! k) = int k" using k assms(3) by (simp add: inverse_perm_def len)
  show "unperm p (unperm q j) ! k = j ! k"
    using unperm_nth [OF assms(1), of "unperm q j" "nat (q ! k)"] valid_perm_nth(1) [OF assms(2) k]
      unperm_nth [OF assms(2,4) k] by (simp add: pk len)
qed

lemma transpose_inverse:
  assumes "valid_perm (length S) p" and "valid_perm (length S) q" and "inverse_perm p q"
  shows "layout_inverse (TransShapeByPerm S p) S (\<lambda>i. Some (unperm p i)) (\<lambda>i. Some (unperm q i))"
proof -
  have len: "length (TransShapeByPerm S p) = length S" using assms(1) by (simp add: valid_perm_def)
  have bwd: "layout_map S (TransShapeByPerm S p) (\<lambda>i. Some (unperm q i))"
    using transpose_layout [of "TransShapeByPerm S p" q] assms(2) inverse_shape [OF assms] len by simp
  show ?thesis
    by (rule layout_inverse.intro [OF transpose_layout [OF assms(1)] bwd], unfold_locales)
       (use unperm_undo [OF assms] in \<open>simp add: in_range_nth\<close>)
qed

lemma transpose_ready_back:
  assumes ready: "transpose_ready E dt S p bs" and q: "valid_perm (length S) q"
    and len: "length bs' = length bs"
  shows "transpose_ready E dt (TransShapeByPerm S p) q bs'"
proof -
  from ready have v: "valid_perm (length S) p" by (simp add: transpose_ready_def)
  then have "length p = length S" by (simp add: valid_perm_def)
  moreover have "TransShapeByPerm S p \<noteq> []" using ready calculation by (auto simp: TransShapeByPerm_def transpose_ready_def)
  ultimately show ?thesis
    using ready q len by (simp add: transpose_ready_def prod_TransShapeByPerm [OF v] set_TransShapeByPerm [OF v])
qed

lemma Transpose_back:
  assumes ready: "transpose_ready E dt S p bs" and q: "valid_perm (length S) q" and inv: "inverse_perm p q"
    and esz: "esz = GetSizeByDataType E dt"
  shows "\<exists>mid. Transpose E (Some bs) S dt p result = Inr mid \<and>
         Transpose E (res_data mid) (TransShapeByPerm S p) dt q result' =
         Inr (result'\<lparr>res_data := Some bs, res_length := prod_list S * esz\<rparr>)"
proof -
  from ready have p: "valid_perm (length S) p" and pos: "\<forall>d \<in> set S. 0 < d"
    and bs: "length bs = nat (prod_list S) * nat esz" using esz by (auto simp: transpose_ready_def)
  let ?mid = "relayout (nat esz) (TransShapeByPerm S p) S (\<lambda>i. Some (unperm p i)) bs"
  note P = prod_TransShapeByPerm [OF p] and I = transpose_inverse [OF p q inv]
  have D: "\<forall>d \<in> set (TransShapeByPerm S p). 0 \<le> d" using dims_nonneg [OF pos] by (simp add: set_TransShapeByPerm [OF p])
  have "length ?mid = length bs"
    using layout_map.length_relayout [OF transpose_layout [OF p] D bs] by (simp add: P bs)
  note ret = Transpose_ok [OF transpose_ready_back [OF ready q this] esz]
  have "relayout (nat esz) S (TransShapeByPerm S p) (\<lambda>i. Some (unperm q i)) ?mid = bs"
    by (rule layout_inverse.roundtrip [OF I D dims_nonneg [OF pos] bs])
  then show ?thesis
    using Transpose_ok [OF ready esz, of result] ret [of result'] by (simp add: inverse_shape [OF p q inv] P)
qed

text \<open>The table of permutations is closed under inverses.\<close>

lemma perm_args_inverse:
  assumes "GetPermByForamt sf df = Inr p"
  shows "\<exists>q. GetPermByForamt df sf = Inr q \<and> valid_perm 4 p \<and> valid_perm 4 q \<and> inverse_perm p q"
  using assms
  by (auto simp: GetPermByForamt_def perm_args_def format_defs valid_perm_def inverse_perm_def
      less_Suc_eq numeral_nat split: if_splits option.splits)

lemma Transpose_TransFormat_perm:
  assumes "formats_are E args sf df" and "GetPermByForamt sf df = Inr p"
    and "IsShapeArgValid (arg_src_shape args) p"
    and "arg_dst_shape args = TransShapeByPerm (arg_src_shape args) p"
  shows "Transpose_TransFormat E args result =
         Transpose E (arg_data args) (arg_src_shape args) (arg_src_data_type args) p result"
  using assms
  by (auto simp: Transpose_TransFormat_def Transpose_TransShape_def IsTransShapeDstCorrect_def formats_are_def
      GetPermByForamt_def split: option.splits)

lemma Transpose_format_back:
  assumes "formats_are E args sf df" and "GetPermByForamt sf df = Inr p"
    and "arg_src_shape args = S" and "arg_dst_shape args = TransShapeByPerm S p"
    and "length S = 4" and "arg_data args = Some bs"
    and "transpose_ready E (arg_src_data_type args) S p bs"
  shows "\<exists>mid. Transpose_TransFormat E args result = Inr mid \<and>
         Transpose_TransFormat E (reverse_args args mid) result' =
         Inr (result'\<lparr>res_data := Some bs,
                       res_length := prod_list S * GetSizeByDataType E (arg_src_data_type args)\<rparr>)"
proof -
  obtain q where q: "GetPermByForamt df sf = Inr q" "valid_perm 4 p" "valid_perm 4 q" "inverse_perm p q"
    using perm_args_inverse [OF assms(2)] by blast
  have pos: "S \<noteq> []" "\<forall>d \<in> set S. 0 \<le> d" using assms(7) by (auto simp: transpose_ready_def less_imp_le)
  obtain mid where mid: "Transpose E (Some bs) S (arg_src_data_type args) p result = Inr mid"
      "Transpose E (res_data mid) (TransShapeByPerm S p) (arg_src_data_type args) q result' =
       Inr (result'\<lparr>res_data := Some bs, res_length := prod_list S * GetSizeByDataType E (arg_src_data_type args)\<rparr>)"
    using Transpose_back [OF assms(7) _ q(4) refl] q(3) assms(5) by auto
  have len: "length p = 4" using q(2) by (simp add: valid_perm_def)
  have ne: "TransShapeByPerm S p \<noteq> []" using len by (auto simp: TransShapeByPerm_def)
  have "Transpose_TransFormat E args result = Inr mid"
    using Transpose_TransFormat_perm [OF assms(1,2), of result] mid(1) assms pos q(2)
    by (simp add: IsShapeArgValid_iff)
  moreover have "Transpose_TransFormat E (reverse_args args mid) result' =
      Transpose E (res_data mid) (TransShapeByPerm S p) (arg_src_data_type args) q result'"
    using Transpose_TransFormat_perm [OF _ q(1), of E "reverse_args args mid" result'] assms(1-5) pos q ne len
    by (simp add: formats_are_def IsShapeArgValid_iff set_TransShapeByPerm inverse_shape)
  ultimately show ?thesis using mid(2) by simp
qed

section \<open>Properties\<close>

text \<open>
  C12: \<^verbatim>\<open>Transpose\<close> of a non-empty tensor of any rank by any permutation of its axes succeeds,
  and element \<open>i\<close> of the result is the source element whose axis \<open>perm ! k\<close> has index
  \<open>i ! k\<close>; the odometer, the permuted strides and the byte offsets fit together.
\<close>

theorem Transpose_elements:
  assumes "transpose_ready E dt S perm bs" and "esz = GetSizeByDataType E dt"
  shows "\<exists>out. Transpose E (Some bs) S dt perm result =
           Inr (result\<lparr>res_data := Some out, res_length := prod_list S * esz\<rparr>) \<and>
         int (length out) = prod_list S * esz \<and>
         (\<forall>i. in_range (TransShapeByPerm S perm) i \<longrightarrow> (\<forall>j. length j = length S \<longrightarrow>
            (\<forall>k < length S. j ! nat (perm ! k) = i ! k) \<longrightarrow>
            tensor_at (nat esz) (TransShapeByPerm S perm) out i = tensor_at (nat esz) S bs j))"
proof -
  let ?D = "TransShapeByPerm S perm"
  let ?out = "relayout (nat esz) ?D S (\<lambda>i. Some (unperm perm i)) bs"
  from assms have v: "valid_perm (length S) perm" and pos: "\<forall>d \<in> set S. 0 < d"
    and bs: "length bs = nat (prod_list S) * nat esz" by (auto simp: transpose_ready_def)
  note L = transpose_layout [OF v] and z = transpose_sizes [OF assms]
  have D: "\<forall>d \<in> set ?D. 0 \<le> d" using dims_nonneg [OF pos] by (simp add: set_TransShapeByPerm [OF v])
  have "int (length ?out) = prod_list S * esz"
    using layout_map.length_relayout [OF L D bs] z(4,5) by (simp add: prod_TransShapeByPerm [OF v])
  moreover have "tensor_at (nat esz) ?D ?out i = tensor_at (nat esz) S bs j"
    if i: "in_range ?D i" and j: "length j = length S" "\<forall>k < length S. j ! nat (perm ! k) = i ! k" for i j
  proof -
    have len: "length i = length S" using i v by (simp add: in_range_nth valid_perm_def)
    have "j = unperm perm i"
    proof (rule nth_equalityI)
      fix m assume "m < length j"
      then obtain k where k: "k < length S" "m = nat (perm ! k)"
        using bij_betw_imp_surj_on [OF valid_perm_bij [OF v]] j(1) by (metis image_iff lessThan_iff)
      then show "j ! m = unperm perm i ! m" using j(2) unperm_nth [OF v len k(1)] by simp
    qed (use j(1) v in \<open>simp add: valid_perm_def\<close>)
    then show ?thesis using layout_map.relayout_at [OF L i bs] by (simp add: picked_def tensor_at_def)
  qed
  ultimately show ?thesis using Transpose_ok [OF assms, of result] by blast
qed

theorem Transpose_elements_witness:
  "\<exists>out. Transpose (ref_env 1 16) (Some [1, 2, 3, 4, 5, 6]) [2, 3] DT_FLOAT16 [1, 0] no_result =
           Inr \<lparr>res_data = Some out, res_length = 6\<rparr> \<and> length out = 6 \<and>
         tensor_at 1 [3, 2] out [2, 0] = [3]"
proof -
  let ?bs = "[1, 2, 3, 4, 5, 6] :: byte list"
  have "transpose_ready (ref_env 1 16) DT_FLOAT16 [2, 3] [1, 0] ?bs"
    by (simp add: transpose_ready_def securec_ok_ref_env size_ok_ref_env alloc_ok_ref_env valid_perm_def)
  from Transpose_elements [OF this refl, of no_result]
  obtain out where out: "Transpose (ref_env 1 16) (Some ?bs) [2, 3] DT_FLOAT16 [1, 0] no_result =
        Inr (no_result\<lparr>res_data := Some out, res_length := 6\<rparr>)" "length out = 6"
      "\<forall>i. in_range [3, 2] i \<longrightarrow> (\<forall>j. length j = 2 \<longrightarrow> (\<forall>k < 2. j ! nat ([1, 0] ! k) = i ! k) \<longrightarrow>
         tensor_at (nat 1) [3, 2] out i = tensor_at (nat 1) [2, 3] ?bs j)"
    by (auto simp: TransShapeByPerm_def)
  have k: "[0, 2] ! nat ([1, 0] ! k) = [2, 0 :: int] ! k" if "k < 2" for k
    using that by (auto simp: less_Suc_eq numeral_nat)
  have "tensor_at 1 [2, 3] ?bs [0, 2] = [3]" by code_simp
  then show ?thesis
    using out(3) [rule_format, of "[2, 0]" "[0, 2]", OF _ _ k] out(1,2)
    by (intro exI [of _ out]) (simp add: no_result_def)
qed

text \<open>
  C25: the check of the arguments accepts exactly the transpositions that make sense: a
  source, a known element size, at least one axis, no negative dimension, and a
  permutation that lists every axis once.  Everything else is
  \<^verbatim>\<open>ACL_ERROR_GE_PARAM_INVALID\<close>.
\<close>

theorem Transpose_args_spec:
  "IsTransposeArgValid E src S dt perm \<longleftrightarrow>
     src \<noteq> None \<and> 0 \<le> GetSizeByDataType E dt \<and> S \<noteq> [] \<and> (\<forall>d \<in> set S. 0 \<le> d) \<and>
     length perm = length S \<and> set perm = {0..<int (length S)}"
proof -
  have "valid_perm n perm \<longleftrightarrow> length perm = n \<and> set perm = {0..<int n}" for n
  proof
    assume v: "valid_perm n perm"
    then have "set perm \<subseteq> {0..<int n}" "card (set perm) = n" by (auto simp: valid_perm_def distinct_card)
    then have "set perm = {0..<int n}" by (intro card_subset_eq) auto
    with v show "length perm = n \<and> set perm = {0..<int n}" by (simp add: valid_perm_def)
  next
    assume a: "length perm = n \<and> set perm = {0..<int n}"
    then have "card (set perm) = length perm" by simp
    then have "distinct perm" by (rule card_distinct)
    with a show "valid_perm n perm" by (auto simp: valid_perm_def)
  qed
  then show ?thesis by (auto simp: IsTransposeArgValid_def IsShapeArgValid_iff)
qed

theorem Transpose_args_spec_witness:
  "IsTransposeArgValid (ref_env 1 16) (Some [7]) [1, 1, 1] DT_FLOAT16 [2, 0, 1] \<and>
   \<not> IsTransposeArgValid (ref_env 1 16) (Some [7]) [1, 1, 1] DT_FLOAT16 [2, 0, 2]"
proof -
  have "set [2, 0, 1] = {0..<3 :: int}" by auto
  moreover have "1 \<in> {0..<3 :: int}" "1 \<notin> set [2, 0, 2 :: int]" by simp_all
  then have "set [2, 0, 2] \<noteq> {0..<3 :: int}" by metis
  ultimately show ?thesis
    unfolding Transpose_args_spec by simp
qed



end
