(* ===== verification/TransferFrame.thy ===== *)
theory TransferFrame
  imports TransferNc1hwc0 TransferC1hwncoc0 TransferFracZBack TransferFracZGroup TransferFracNz TransferFracZz
    TransferFracZ3D TransferTranspose
begin

text \<open>
  What every transfer promises on every input, valid or not: when it reports success, the
  length it reports is the number of bytes of the buffer it hands out, or it handed out none
  and reports 0.  Only the frame of the memory functions is needed for that.
\<close>

section \<open>Loops keep the length of the buffer\<close>

definition securec_frame :: "ge_env \<Rightarrow> bool" where
  "securec_frame E \<longleftrightarrow>
     (\<forall>dst p dmax src soff cnt. length (snd (memcpy_s E dst p dmax src soff cnt)) = length dst) \<and>
     (\<forall>dst p dmax v cnt. length (snd (memset_s E dst p dmax v cnt)) = length dst) \<and>
     (\<forall>dst dmax src soff cnt. fst (memcpy_s E dst None dmax src soff cnt) \<noteq> EOK) \<and>
     (\<forall>n block. new_uint8 E n = Some block \<longrightarrow> int (length block) = n)"

definition keeps :: "nat \<Rightarrow> byte list res \<Rightarrow> bool" where
  "keeps n m \<longleftrightarrow> (case m of Inl _ \<Rightarrow> True | Inr d \<Rightarrow> length d = n)"

lemma keeps_simps [simp]: "keeps n (Inl e)" "keeps n (Inr d) \<longleftrightarrow> length d = n"
  by (simp_all add: keeps_def)

lemma keeps_rbind:
  "keeps n m \<Longrightarrow> (\<And>d. length d = n \<Longrightarrow> keeps n (k d)) \<Longrightarrow> keeps n (rbind m k)"
  by (cases m) simp_all

lemma keeps_for_list: "(\<And>i d. length d = n \<Longrightarrow> keeps n (body i d)) \<Longrightarrow> length d = n \<Longrightarrow> keeps n (for_list xs body d)"
  by (induction xs arbitrary: d) (auto intro: keeps_rbind)

lemma keeps_for_upto:
  "(\<And>i d. length d = n \<Longrightarrow> keeps n (body i d)) \<Longrightarrow> length d = n \<Longrightarrow> keeps n (for_upto k body d)"
  by (simp add: for_upto_def keeps_for_list)

lemma keeps_if: "(c \<Longrightarrow> keeps n a) \<Longrightarrow> (\<not> c \<Longrightarrow> keeps n b) \<Longrightarrow> keeps n (if c then a else b)"
  by simp

lemma keeps_memcpy: "securec_frame E \<Longrightarrow> length d = n \<Longrightarrow> keeps n (memcpy_checked E err d p dmax src off cnt)"
  by (auto simp: memcpy_checked_def securec_frame_def split: prod.split)
     (metis snd_conv)

lemma keeps_memset: "securec_frame E \<Longrightarrow> length d = n \<Longrightarrow> keeps n (memset_checked E err d p dmax cnt)"
  by (auto simp: memset_checked_def securec_frame_def split: prod.split)
     (metis snd_conv)

lemma keeps_elem:
  assumes "securec_frame E" and "length d = n"
  shows "keeps n (copy_elem E d tot off src soff esz)" "keeps n (zero_elem E d tot off esz)"
    "keeps n (copy_elem_raw E d tot off src soff esz)" "keeps n (zero_elem_raw E d tot off esz)"
    "keeps n (copy_elem_as err E d tot off src soff esz)" "keeps n (zero_elem_as err E d tot off esz)"
  using assms
  by (simp_all add: copy_elem_def zero_elem_def copy_elem_raw_def zero_elem_raw_def copy_elem_as_def
      zero_elem_as_def keeps_memcpy keeps_memset Let_def)

lemma keeps_copy_bytes: "length d = n \<Longrightarrow> keeps n (copy_bytes d off src soff esz)"
  unfolding copy_bytes_def by (rule keeps_for_upto) (auto simp: copy_byte_def split: option.split)

lemma keeps_elem_bytes: "length d = n \<Longrightarrow> keeps n (copy_elem_bytes E d tot off src soff esz)"
  by (simp add: copy_elem_bytes_def keeps_copy_bytes Let_def)

section \<open>Well-formed results\<close>

definition result_ok :: "TransResult \<Rightarrow> TransResult \<Rightarrow> bool" where
  "result_ok r0 r \<longleftrightarrow>
     res_data r = res_data r0 \<and> res_length r = 0 \<or>
     (\<exists>block. res_data r = Some block \<and> int (length block) = res_length r)"

definition wf_result :: "TransResult \<Rightarrow> TransResult res \<Rightarrow> bool" where
  "wf_result r0 m \<longleftrightarrow> (case m of Inl _ \<Rightarrow> True | Inr r \<Rightarrow> result_ok r0 r)"

lemma wf_fault: "wf_result r0 (Inl e)"
  by (simp add: wf_result_def)

lemma wf_empty: "n = 0 \<Longrightarrow> wf_result r0 (Inr (r0\<lparr>res_length := n\<rparr>))"
  by (simp add: wf_result_def result_ok_def)

lemma wf_store:
  "keeps n m \<Longrightarrow> int n = len \<Longrightarrow> wf_result r0 (rbind m (\<lambda>d. Inr (r0\<lparr>res_data := Some d, res_length := len\<rparr>)))"
  by (cases m) (simp_all add: wf_result_def result_ok_def)

lemma wf_memset:
  "securec_frame E \<Longrightarrow> (\<And>d. length d = length dst \<Longrightarrow> wf_result r0 (k d)) \<Longrightarrow>
   wf_result r0 (rbind (memset_checked E err dst p m c) k)"
  using keeps_memset [of E dst "length dst" err p m c]
  by (cases "memset_checked E err dst p m c") (simp_all add: wf_result_def)

lemma wf_rbind: "(\<And>x. wf_result r0 (k x)) \<Longrightarrow> wf_result r0 (rbind m k)"
  by (cases m) (simp_all add: wf_result_def)

lemma wf_if: "(c \<Longrightarrow> wf_result r0 a) \<Longrightarrow> (\<not> c \<Longrightarrow> wf_result r0 b) \<Longrightarrow> wf_result r0 (if c then a else b)"
  by simp

lemma wf_new:
  "securec_frame E \<Longrightarrow> wf_result r0 a \<Longrightarrow> (\<And>d. int (length d) = n \<Longrightarrow> wf_result r0 (f d)) \<Longrightarrow>
   wf_result r0 (case new_uint8 E n of None \<Rightarrow> a | Some d \<Rightarrow> f d)"
  by (auto simp: securec_frame_def split: option.split)

lemma wf_new_zero:
  "securec_frame E \<Longrightarrow> wf_result r0 a \<Longrightarrow> (\<And>d. int (length d) = n \<Longrightarrow> wf_result r0 (f d)) \<Longrightarrow>
   wf_result r0 (case new_uint8_zero E n of None \<Rightarrow> a | Some d \<Rightarrow> f d)"
  by (auto simp: securec_frame_def new_uint8_zero_def split: option.split)

lemmas wf_intros = wf_store wf_memset wf_rbind wf_if wf_new wf_new_zero wf_empty wf_fault
  keeps_rbind keeps_for_upto keeps_if keeps_elem keeps_elem_bytes keeps_copy_bytes

section \<open>Every transfer\<close>

lemma NchwNc1hwc0_wf: "securec_frame E \<Longrightarrow> wf_result r0 (NchwNc1hwc0_TransFormat E args r0)"
  unfolding NchwNc1hwc0_TransFormat_def GetDstDataAfterTransOfNchw2Nc1hwc0_def Let_def
  by (intro wf_intros) simp_all

lemma Nc1hwc0Nchw_wf: "securec_frame E \<Longrightarrow> wf_result r0 (Nc1hwc0Nchw_TransFormat E args r0)"
  unfolding Nc1hwc0Nchw_TransFormat_def GetDstDataAfterTransForNc1hwc0ToNchw_def Let_def case_prod_unfold
  by (intro wf_intros) simp_all

lemma NhwcNc1hwc0_wf: "securec_frame E \<Longrightarrow> wf_result r0 (NhwcNc1hwc0_TransFormat E args r0)"
  unfolding NhwcNc1hwc0_TransFormat_def GetDstDataAfterTransNhwcToNc1hwc0_def Let_def case_prod_unfold
  by (intro wf_intros) simp_all

lemma Nc1hwc0Nhwc_wf: "securec_frame E \<Longrightarrow> wf_result r0 (Nc1hwc0Nhwc_TransFormat E args r0)"
  unfolding Nc1hwc0Nhwc_TransFormat_def GetDstDataForNc1hwc0ToNhwc_def Let_def case_prod_unfold
  by (intro wf_intros) simp_all

lemma HwcnC1hwncoc0_wf: "securec_frame E \<Longrightarrow> wf_result r0 (HwcnC1hwncoc0_TransFormat E args r0)"
  unfolding HwcnC1hwncoc0_TransFormat_def GetDstDataAfterTransForTransShapeHwcnToC1hwncoc0_def Let_def case_prod_unfold
  by (intro wf_intros) simp_all

lemma C1hwncoc0Hwcn_wf: "securec_frame E \<Longrightarrow> wf_result r0 (C1hwncoc0Hwcn_TransFormat E args r0)"
  unfolding C1hwncoc0Hwcn_TransFormat_def GetDstDataAfterTransForC1hwncoc0ToHwcn_def Let_def case_prod_unfold
  by (intro wf_intros) simp_all

lemma FractalZ_wf: "securec_frame E \<Longrightarrow> wf_result r0 (FractalZ_TransFormat E args r0)"
  unfolding FractalZ_TransFormat_def TransFormatFromNchwToFz_def TransFormatHwcnToFzWithGroups_def TransFormatHwcnToFz_def TransFormatNhwcToFz_def Let_def case_prod_unfold
  by (intro wf_intros) simp_all

lemma FractalZTbe_wf: "securec_frame E \<Longrightarrow> wf_result r0 (FractalZTbe_TransFormat E args r0)"
  unfolding FractalZTbe_TransFormat_def TransFormatNdToFz_def Let_def case_prod_unfold
  by (intro wf_intros) simp_all

lemma FracZNchw_wf: "securec_frame E \<Longrightarrow> wf_result r0 (FracZNchw_TransFormat E args r0)"
  unfolding FracZNchw_TransFormat_def GetDstDataAfterTransForFracZToNchw_def Let_def case_prod_unfold
  by (intro wf_intros) simp_all

lemma FracZHwcn_wf: "securec_frame E \<Longrightarrow> wf_result r0 (FracZHwcn_TransFormat E args r0)"
  unfolding FracZHwcn_TransFormat_def GetDstDataAfterTransForFracZToHwcn_def Let_def case_prod_unfold
  by (intro wf_intros) simp_all

lemma FracZNhwc_wf: "securec_frame E \<Longrightarrow> wf_result r0 (FracZNhwc_TransFormat E args r0)"
  unfolding FracZNhwc_TransFormat_def GetDstDataAfterTransForFracZToNhwc_def Let_def case_prod_unfold
  by (intro wf_intros) simp_all

lemma FractalNz_wf: "securec_frame E \<Longrightarrow> wf_result r0 (FractalNz_TransFormat E args r0)"
  unfolding FractalNz_TransFormat_def TransFormatFromNdToFracNz_def Let_def case_prod_unfold
  by (intro wf_intros) simp_all

lemma FractalNzND_wf: "securec_frame E \<Longrightarrow> wf_result r0 (FractalNzND_TransFormat E args r0)"
  unfolding FractalNzND_TransFormat_def TransFormatFromFracNzToNd_def Let_def case_prod_unfold
  by (intro wf_intros) simp_all

lemma FractalZz_wf: "securec_frame E \<Longrightarrow> wf_result r0 (FractalZz_TransFormat E args r0)"
  unfolding FractalZz_TransFormat_def TransFormatFromNdToFracZz_def Let_def case_prod_unfold
  by (intro wf_intros) simp_all

lemma FractalZzND_wf: "securec_frame E \<Longrightarrow> wf_result r0 (FractalZzND_TransFormat E args r0)"
  unfolding FractalZzND_TransFormat_def TransFormatFromFracZzToNd_def Let_def case_prod_unfold
  by (intro wf_intros) simp_all

lemma DhwcnFractalZ3D_wf: "securec_frame E \<Longrightarrow> wf_result r0 (DhwcnFractalZ3D_TransFormat E args r0)"
  unfolding DhwcnFractalZ3D_TransFormat_def TransFormatDhwckToFz3D_def Let_def case_prod_unfold
  by (intro wf_intros) simp_all

lemma DhwncFractalZ3DTranspose_wf: "securec_frame E \<Longrightarrow> wf_result r0 (DhwncFractalZ3DTranspose_TransFormat E args r0)"
  unfolding DhwncFractalZ3DTranspose_TransFormat_def TransFormatDhwncToFz3DTranspose_def Let_def case_prod_unfold
  by (intro wf_intros) simp_all

section \<open>Transposition\<close>

lemma wrap64_mod: "wrap64 x mod 2 ^ 64 = x mod 2 ^ 64"
  unfolding wrap64_def by (metis add_diff_cancel_right' mod_diff_left_eq)

lemma wrap64_cong: "a mod 2 ^ 64 = b mod 2 ^ 64 \<Longrightarrow> wrap64 a = wrap64 b"
  unfolding wrap64_def by (metis mod_add_left_eq)

lemma foldl_mul64_wrap: "foldl mul64 (wrap64 a) xs = wrap64 (a * prod_list xs)"
proof (induction xs arbitrary: a)
  case (Cons x xs)
  have "mul64 (wrap64 a) x = wrap64 (a * x)"
    unfolding mul64_def by (rule wrap64_cong) (metis mod_mult_left_eq wrap64_mod)
  then show ?case using Cons.IH [of "a * x"] by (simp add: mult.assoc)
qed simp

lemma GetItemNumByShape_wrap: "GetItemNumByShape S = wrap64 (prod_list S)"
  using foldl_mul64_wrap [of 1 S] wrap64_id [of 1] by (simp add: GetItemNumByShape_def is_int64_def)

definition keeps_fst :: "nat \<Rightarrow> (byte list \<times> int list) res \<Rightarrow> bool" where
  "keeps_fst n m \<longleftrightarrow> (case m of Inl _ \<Rightarrow> True | Inr (d, c) \<Rightarrow> length d = n)"

lemma keeps_fst_fault [simp]: "keeps_fst n (Inl e)"
  by (simp add: keeps_fst_def)

lemma keeps_fst_step: "keeps n m \<Longrightarrow> keeps_fst n (rbind m (\<lambda>d. Inr (d, c)))"
  by (cases m) (simp_all add: keeps_fst_def)

lemma keeps_fst_for_upto:
  assumes "\<And>x d c. length d = n \<Longrightarrow> keeps_fst n (body x (d, c))" and "length d = n"
  shows "keeps_fst n (for_upto k body (d, c))"
  unfolding for_upto_def
proof (cases "for_list [0..k - 1] body (d, c)")
  case (Inr s)
  have "(\<lambda>(d, c). length d = n) s"
  proof (rule for_list_inv [OF Inr, of "\<lambda>(d, c). length d = n"])
    fix x t t' assume "case t of (d, c) \<Rightarrow> length d = n" "body x t = Inr t'"
    then show "case t' of (d, c) \<Rightarrow> length d = n"
      using assms(1) [of "fst t" x "snd t"] by (simp add: keeps_fst_def split: prod.splits)
  qed (simp add: assms(2))
  then show "keeps_fst n (for_list [0..k - 1] body (d, c))" by (simp add: Inr keeps_fst_def split: prod.splits)
qed (simp add: keeps_fst_def)

lemma wf_store_fst:
  "keeps_fst n m \<Longrightarrow> int n = len \<Longrightarrow>
   wf_result r0 (rbind m (\<lambda>(d, c). Inr (r0\<lparr>res_data := Some d, res_length := len\<rparr>)))"
  by (cases m) (auto simp: wf_result_def result_ok_def keeps_fst_def)

text \<open>
  \<^verbatim>\<open>Transpose\<close> does not check its allocation, but the first \<^verbatim>\<open>memcpy_s\<close> refuses the null
  pointer.  That takes at least one iteration: a count that wrapped to a negative number
  runs none, which is why the number of elements must be non-negative.
\<close>

lemma for_upto_fails:
  assumes "0 < k" and "\<exists>e. body 0 s = Inl e"
  shows "\<exists>e. for_upto k body s = Inl e"
proof -
  have "[0..k - 1] = 0 # [1..k - 1]" using assms(1) by (simp add: upto_rec1)
  then show ?thesis using assms(2) by (auto simp: for_upto_def)
qed

lemma memcpy_null: "securec_frame E \<Longrightarrow> memcpy_checked E err d None p src off n = Inl (Ret err)"
  by (auto simp: memcpy_checked_def securec_frame_def split: prod.split) (metis fst_conv)

lemma wf_fails: "\<exists>e. m = Inl e \<Longrightarrow> wf_result r0 (rbind m k)"
  by (auto simp: wf_result_def)

lemma Transpose_wf:
  assumes E: "securec_frame E" and num: "0 \<le> GetItemNumByShape S"
  shows "wf_result r0 (Transpose E src S dt perm r0)"
proof (cases "IsTransposeArgValid E src S dt perm")
  case True
  let ?n = "GetItemNumByShape (TransShapeByPerm S perm)"
  have v: "valid_perm (length S) perm"
    using True by (auto simp: IsTransposeArgValid_def IsShapeArgValid_iff split: if_splits)
  have n: "?n = GetItemNumByShape S" by (simp add: GetItemNumByShape_wrap prod_TransShapeByPerm [OF v])
  show ?thesis
  proof (cases "?n = 0")
    case False
    then have pos: "0 < ?n" using n num by simp
    show ?thesis
    proof (cases "new_uint8 E (mul64 (GetSizeByDataType E dt) ?n)")
      case None
      then show ?thesis using True False
        by (simp add: Transpose_def Let_def)
           (rule wf_fails, rule for_upto_fails [OF pos], simp add: memcpy_null [OF E])
    next
      case (Some block)
      have "int (length block) = mul64 (GetSizeByDataType E dt) ?n" using E Some by (simp add: securec_frame_def)
      then show ?thesis using True False Some
        by (simp add: Transpose_def Let_def)
           (intro wf_store_fst keeps_fst_for_upto, auto intro!: keeps_fst_step keeps_if keeps_memcpy [OF E])
    qed
  qed (use True in \<open>simp add: Transpose_def Let_def wf_result_def result_ok_def\<close>)
qed (simp add: Transpose_def wf_result_def)

lemma Transpose_TransFormat_wf:
  "securec_frame E \<Longrightarrow> 0 \<le> GetItemNumByShape (arg_src_shape args) \<Longrightarrow>
   wf_result r0 (Transpose_TransFormat E args r0)"
  unfolding Transpose_TransFormat_def Let_def by (intro wf_rbind wf_if Transpose_wf wf_fault)

end
