(* ===== verification/Formats.thy ===== *)
theory Formats
  imports TransferFrame
begin

text \<open>
  The registry of transfers and the entry points of the library,
  \<^verbatim>\<open>register_format_transfer.{h,cc}\<close> and \<^verbatim>\<open>formats.cc\<close>.  A transfer class is a value of
  \<open>transfer_class\<close>; its two virtual methods are looked up with \<open>methods\<close>.  The two classes of
  \<^verbatim>\<open>format_transfer_fz_c04.cc\<close> are registered as well, but their methods are arguments here.
\<close>

section \<open>Transfer classes\<close>

record FormatTransfer =
  TransFormat :: "ge_env \<Rightarrow> TransArgs \<Rightarrow> TransResult \<Rightarrow> TransResult res"
  TransShape :: "ge_env \<Rightarrow> Format \<Rightarrow> int list \<Rightarrow> DataType \<Rightarrow> Format \<Rightarrow> int list res"

datatype transfer_class =
    FormatTransferFractalZz
  | FormatTransferFractalZzND
  | FormatTransferFractalNz
  | FormatTransferFractalNzND
  | FormatTransferDhwcnFractalZ3D
  | FormatTransferDhwncFractalZ3DTranspose
  | FormatTransferFractalZTbe
  | FormatTransferFractalZ
  | FormatTransferFracZNchw
  | FormatTransferFracZHwcn
  | FormatTransferFracZNhwc
  | FormatTransferHwcnC1hwncoc0
  | FormatTransferC1hwncoc0Hwcn
  | FormatTransfer4DToFZC04
  | FormatTransferFZC04To4D
  | FormatTransferNchwNc1hwc0
  | FormatTransferNc1hwc0Nchw
  | FormatTransferNhwcNc1hwc0
  | FormatTransferNc1hwc0Nhwc
  | FormatTransferTranspose

primrec methods :: "FormatTransfer \<Rightarrow> FormatTransfer \<Rightarrow> transfer_class \<Rightarrow> FormatTransfer" where
  "methods to_c04 from_c04 FormatTransferFractalZz = \<lparr>TransFormat = FractalZz_TransFormat, TransShape = FractalZz_TransShape\<rparr>"
| "methods to_c04 from_c04 FormatTransferFractalZzND = \<lparr>TransFormat = FractalZzND_TransFormat, TransShape = FractalZzND_TransShape\<rparr>"
| "methods to_c04 from_c04 FormatTransferFractalNz = \<lparr>TransFormat = FractalNz_TransFormat, TransShape = FractalNz_TransShape\<rparr>"
| "methods to_c04 from_c04 FormatTransferFractalNzND = \<lparr>TransFormat = FractalNzND_TransFormat, TransShape = FractalNzND_TransShape\<rparr>"
| "methods to_c04 from_c04 FormatTransferDhwcnFractalZ3D = \<lparr>TransFormat = DhwcnFractalZ3D_TransFormat, TransShape = DhwcnFractalZ3D_TransShape\<rparr>"
| "methods to_c04 from_c04 FormatTransferDhwncFractalZ3DTranspose = \<lparr>TransFormat = DhwncFractalZ3DTranspose_TransFormat, TransShape = DhwncFractalZ3DTranspose_TransShape\<rparr>"
| "methods to_c04 from_c04 FormatTransferFractalZTbe = \<lparr>TransFormat = FractalZTbe_TransFormat, TransShape = FractalZTbe_TransShape\<rparr>"
| "methods to_c04 from_c04 FormatTransferFractalZ = \<lparr>TransFormat = FractalZ_TransFormat, TransShape = FractalZ_TransShape\<rparr>"
| "methods to_c04 from_c04 FormatTransferFracZNchw = \<lparr>TransFormat = FracZNchw_TransFormat, TransShape = FracZNchw_TransShape\<rparr>"
| "methods to_c04 from_c04 FormatTransferFracZHwcn = \<lparr>TransFormat = FracZHwcn_TransFormat, TransShape = FracZHwcn_TransShape\<rparr>"
| "methods to_c04 from_c04 FormatTransferFracZNhwc = \<lparr>TransFormat = FracZNhwc_TransFormat, TransShape = FracZNhwc_TransShape\<rparr>"
| "methods to_c04 from_c04 FormatTransferHwcnC1hwncoc0 = \<lparr>TransFormat = HwcnC1hwncoc0_TransFormat, TransShape = HwcnC1hwncoc0_TransShape\<rparr>"
| "methods to_c04 from_c04 FormatTransferC1hwncoc0Hwcn = \<lparr>TransFormat = C1hwncoc0Hwcn_TransFormat, TransShape = C1hwncoc0Hwcn_TransShape\<rparr>"
| "methods to_c04 from_c04 FormatTransfer4DToFZC04 = to_c04"
| "methods to_c04 from_c04 FormatTransferFZC04To4D = from_c04"
| "methods to_c04 from_c04 FormatTransferNchwNc1hwc0 = \<lparr>TransFormat = NchwNc1hwc0_TransFormat, TransShape = NchwNc1hwc0_TransShape\<rparr>"
| "methods to_c04 from_c04 FormatTransferNc1hwc0Nchw = \<lparr>TransFormat = Nc1hwc0Nchw_TransFormat, TransShape = Nc1hwc0Nchw_TransShape\<rparr>"
| "methods to_c04 from_c04 FormatTransferNhwcNc1hwc0 = \<lparr>TransFormat = NhwcNc1hwc0_TransFormat, TransShape = NhwcNc1hwc0_TransShape\<rparr>"
| "methods to_c04 from_c04 FormatTransferNc1hwc0Nhwc = \<lparr>TransFormat = Nc1hwc0Nhwc_TransFormat, TransShape = Nc1hwc0Nhwc_TransShape\<rparr>"
| "methods to_c04 from_c04 FormatTransferTranspose = \<lparr>TransFormat = Transpose_TransFormat, TransShape = Transpose_TransShape\<rparr>"

section \<open>The registry\<close>

type_synonym registry = "Format \<rightharpoonup> (Format \<rightharpoonup> transfer_class)"

definition RegisterBuilder :: "Format \<Rightarrow> Format \<Rightarrow> transfer_class \<Rightarrow> registry \<Rightarrow> registry" where
  "RegisterBuilder src dst builder src_dst_builder =
     src_dst_builder(src \<mapsto>
       (case src_dst_builder src of None \<Rightarrow> Map.empty | Some row \<Rightarrow> row)(dst \<mapsto> builder))"

definition GenerateFormatTransfer :: "registry \<Rightarrow> Format \<Rightarrow> Format \<Rightarrow> transfer_class option" where
  "GenerateFormatTransfer src_dst_builder src dst =
     (case src_dst_builder src of
        None \<Rightarrow> None
      | Some dst_builder \<Rightarrow> (case dst_builder dst of None \<Rightarrow> None | Some builder \<Rightarrow> Some builder))"

definition IsFormatTransferExists :: "registry \<Rightarrow> Format \<Rightarrow> Format \<Rightarrow> bool" where
  "IsFormatTransferExists src_dst_builder src dst =
     (case src_dst_builder src of None \<Rightarrow> False | Some dst_builder \<Rightarrow> dst_builder dst \<noteq> None)"

text \<open>The \<^verbatim>\<open>REGISTER_FORMAT_TRANSFER\<close> lines of the library, file by file.\<close>

definition registrations :: "(Format \<times> Format \<times> transfer_class) list" where
  "registrations =
     [(FORMAT_ND, FORMAT_FRACTAL_ZZ, FormatTransferFractalZz),
      (FORMAT_NCHW, FORMAT_FRACTAL_ZZ, FormatTransferFractalZz),
      (FORMAT_NHWC, FORMAT_FRACTAL_ZZ, FormatTransferFractalZz),
      (FORMAT_FRACTAL_ZZ, FORMAT_ND, FormatTransferFractalZzND),
      (FORMAT_FRACTAL_ZZ, FORMAT_NCHW, FormatTransferFractalZzND),
      (FORMAT_FRACTAL_ZZ, FORMAT_NHWC, FormatTransferFractalZzND),
      (FORMAT_ND, FORMAT_FRACTAL_NZ, FormatTransferFractalNz),
      (FORMAT_NCHW, FORMAT_FRACTAL_NZ, FormatTransferFractalNz),
      (FORMAT_NHWC, FORMAT_FRACTAL_NZ, FormatTransferFractalNz),
      (FORMAT_FRACTAL_NZ, FORMAT_ND, FormatTransferFractalNzND),
      (FORMAT_FRACTAL_NZ, FORMAT_NCHW, FormatTransferFractalNzND),
      (FORMAT_FRACTAL_NZ, FORMAT_NHWC, FormatTransferFractalNzND),
      (FORMAT_DHWCN, FORMAT_FRACTAL_Z_3D, FormatTransferDhwcnFractalZ3D),
      (FORMAT_DHWNC, FORMAT_FRACTAL_Z_3D_TRANSPOSE, FormatTransferDhwncFractalZ3DTranspose),
      (FORMAT_ND, FORMAT_FRACTAL_Z, FormatTransferFractalZTbe),
      (FORMAT_NCHW, FORMAT_FRACTAL_Z, FormatTransferFractalZ),
      (FORMAT_HWCN, FORMAT_FRACTAL_Z, FormatTransferFractalZ),
      (FORMAT_NHWC, FORMAT_FRACTAL_Z, FormatTransferFractalZ),
      (FORMAT_FRACTAL_Z, FORMAT_NCHW, FormatTransferFracZNchw),
      (FORMAT_FRACTAL_Z, FORMAT_HWCN, FormatTransferFracZHwcn),
      (FORMAT_FRACTAL_Z, FORMAT_NHWC, FormatTransferFracZNhwc),
      (FORMAT_HWCN, FORMAT_C1HWNCoC0, FormatTransferHwcnC1hwncoc0),
      (FORMAT_C1HWNCoC0, FORMAT_HWCN, FormatTransferC1hwncoc0Hwcn),
      (FORMAT_NCHW, FORMAT_FRACTAL_Z_C04, FormatTransfer4DToFZC04),
      (FORMAT_HWCN, FORMAT_FRACTAL_Z_C04, FormatTransfer4DToFZC04),
      (FORMAT_FRACTAL_Z_C04, FORMAT_HWCN, FormatTransferFZC04To4D),
      (FORMAT_NCHW, FORMAT_NC1HWC0, FormatTransferNchwNc1hwc0),
      (FORMAT_NC1HWC0, FORMAT_NCHW, FormatTransferNc1hwc0Nchw),
      (FORMAT_NHWC, FORMAT_NC1HWC0, FormatTransferNhwcNc1hwc0),
      (FORMAT_NC1HWC0, FORMAT_NHWC, FormatTransferNc1hwc0Nhwc),
      (FORMAT_NCHW, FORMAT_NHWC, FormatTransferTranspose),
      (FORMAT_NCHW, FORMAT_HWCN, FormatTransferTranspose),
      (FORMAT_NCHW, FORMAT_CHWN, FormatTransferTranspose),
      (FORMAT_NHWC, FORMAT_NCHW, FormatTransferTranspose),
      (FORMAT_NHWC, FORMAT_CHWN, FormatTransferTranspose),
      (FORMAT_NHWC, FORMAT_HWCN, FormatTransferTranspose),
      (FORMAT_HWCN, FORMAT_NCHW, FormatTransferTranspose),
      (FORMAT_HWCN, FORMAT_NHWC, FormatTransferTranspose),
      (FORMAT_HWCN, FORMAT_CHWN, FormatTransferTranspose),
      (FORMAT_CHWN, FORMAT_NCHW, FormatTransferTranspose),
      (FORMAT_CHWN, FORMAT_NHWC, FormatTransferTranspose),
      (FORMAT_CHWN, FORMAT_HWCN, FormatTransferTranspose)]"

definition GetFormatTransferRegistry :: registry where
  "GetFormatTransferRegistry = fold (\<lambda>(src, dst, builder). RegisterBuilder src dst builder) registrations Map.empty"

definition BuildFormatTransfer :: "TransArgs \<Rightarrow> transfer_class option" where
  "BuildFormatTransfer args =
     GenerateFormatTransfer GetFormatTransferRegistry (arg_src_primary_format args) (arg_dst_primary_format args)"

definition FormatTransferExists :: "TransArgs \<Rightarrow> bool" where
  "FormatTransferExists args =
     IsFormatTransferExists GetFormatTransferRegistry (arg_src_primary_format args) (arg_dst_primary_format args)"

section \<open>Entry points\<close>

definition TransDataFormat ::
  "FormatTransfer \<Rightarrow> FormatTransfer \<Rightarrow> ge_env \<Rightarrow> TransArgs \<Rightarrow> TransResult \<Rightarrow> TransResult res" where
  "TransDataFormat to_c04 from_c04 E args result =
     (case BuildFormatTransfer args of
        None \<Rightarrow> Inl (Ret ACL_ERROR_GE_FORMAT_INVALID)
      | Some transfer \<Rightarrow>
          let src_shape_size = GetItemNumByShape (arg_src_shape args) in
          if arg_data args = None \<and> src_shape_size \<noteq> 0 then Inl (Ret ACL_ERROR_GE_PARAM_INVALID)
          else TransFormat (methods to_c04 from_c04 transfer) E args result)"

text \<open>
  \<open>TransTensorShape\<close> fills four fields of fresh arguments, of which the registry reads the two
  primary formats.
\<close>

definition TransTensorShape ::
  "FormatTransfer \<Rightarrow> FormatTransfer \<Rightarrow> ge_env \<Rightarrow> Format \<Rightarrow> int list \<Rightarrow> DataType \<Rightarrow> Format \<Rightarrow> int list res" where
  "TransTensorShape to_c04 from_c04 E src_format src_shape data_type dst_format =
     (case GenerateFormatTransfer GetFormatTransferRegistry
             (GetPrimaryFormat E src_format) (GetPrimaryFormat E dst_format) of
        None \<Rightarrow> Inl (Ret ACL_ERROR_GE_FORMAT_INVALID)
      | Some transfer \<Rightarrow>
          TransShape (methods to_c04 from_c04 transfer) E src_format src_shape data_type dst_format)"

definition IsTransFormatSupport :: "TransArgs \<Rightarrow> bool" where
  "IsTransFormatSupport args = FormatTransferExists args"

section \<open>The registry is a finite map on pairs of formats\<close>

locale pair_registry =
  fixes empty :: 'r and register :: "'k \<Rightarrow> 'k \<Rightarrow> 'v \<Rightarrow> 'r \<Rightarrow> 'r" and find :: "'r \<Rightarrow> 'k \<Rightarrow> 'k \<Rightarrow> 'v option"
  assumes find_empty: "find empty a b = None"
    and find_register: "find (register c d v r) a b = (if (a, b) = (c, d) then Some v else find r a b)"
begin

lemma find_fold:
  "find (fold (\<lambda>(a, b, v). register a b v) rs r) a b =
   (case map_of (rev (map (\<lambda>(a, b, v). ((a, b), v)) rs)) (a, b) of None \<Rightarrow> find r a b | Some v \<Rightarrow> Some v)"
proof (induction rs arbitrary: r)
  case (Cons x rs)
  obtain c d v where x: "x = (c, d, v)" by (cases x)
  show ?case
    by (simp add: x Cons.IH find_register map_add_def split: option.split)
qed simp

lemma find_all:
  "distinct (map (\<lambda>(a, b, v). (a, b)) rs) \<Longrightarrow>
   find (fold (\<lambda>(a, b, v). register a b v) rs empty) a b = map_of (map (\<lambda>(a, b, v). ((a, b), v)) rs) (a, b)"
proof -
  assume d: "distinct (map (\<lambda>(a, b, v). (a, b)) rs)"
  have "map fst (map (\<lambda>(a, b, v). ((a, b), v)) rs) = map (\<lambda>(a, b, v). (a, b)) rs"
    by (simp add: case_prod_unfold)
  with d have "map_of (rev (map (\<lambda>(a, b, v). ((a, b), v)) rs)) = map_of (map (\<lambda>(a, b, v). ((a, b), v)) rs)"
    by (subst map_of_inject_set) (simp_all only: rev_map [symmetric] distinct_rev set_rev)
  then show ?thesis by (simp add: find_fold find_empty split: option.split)
qed

end

interpretation nested: pair_registry Map.empty RegisterBuilder GenerateFormatTransfer
  by unfold_locales (auto simp: RegisterBuilder_def GenerateFormatTransfer_def split: option.split)

lemma exists_generate: "IsFormatTransferExists r a b \<longleftrightarrow> GenerateFormatTransfer r a b \<noteq> None"
  by (auto simp: IsFormatTransferExists_def GenerateFormatTransfer_def split: option.split)

lemma distinct_registrations: "distinct (map (\<lambda>(a, b, v). (a, b)) registrations)"
  by code_simp

lemma registry_lookup:
  "GenerateFormatTransfer GetFormatTransferRegistry a b =
   map_of (map (\<lambda>(a, b, v). ((a, b), v)) registrations) (a, b)"
  unfolding GetFormatTransferRegistry_def by (rule nested.find_all [OF distinct_registrations])

section \<open>What every transfer promises\<close>

text \<open>
  The contract of the virtual method \<^verbatim>\<open>TransFormat\<close>, as the entry point relies on it: on
  arguments whose number of elements did not wrap, a success is well formed.
\<close>

locale format_transfer =
  fixes tf :: "ge_env \<Rightarrow> TransArgs \<Rightarrow> TransResult \<Rightarrow> TransResult res"
  assumes wf: "securec_frame E \<Longrightarrow> 0 \<le> GetItemNumByShape (arg_src_shape args) \<Longrightarrow> wf_result r0 (tf E args r0)"
begin

lemma guarded:
  "securec_frame E \<Longrightarrow> 0 \<le> GetItemNumByShape (arg_src_shape args) \<Longrightarrow>
   wf_result r0 (if arg_data args = None \<and> GetItemNumByShape (arg_src_shape args) \<noteq> 0
                 then Inl (Ret ACL_ERROR_GE_PARAM_INVALID) else tf E args r0)"
  by (simp add: wf wf_fault)

end

interpretation fractalZz_transfer: format_transfer FractalZz_TransFormat
  by unfold_locales (rule FractalZz_wf)

interpretation fractalZzND_transfer: format_transfer FractalZzND_TransFormat
  by unfold_locales (rule FractalZzND_wf)

interpretation fractalNz_transfer: format_transfer FractalNz_TransFormat
  by unfold_locales (rule FractalNz_wf)

interpretation fractalNzND_transfer: format_transfer FractalNzND_TransFormat
  by unfold_locales (rule FractalNzND_wf)

interpretation dhwcnFractalZ3D_transfer: format_transfer DhwcnFractalZ3D_TransFormat
  by unfold_locales (rule DhwcnFractalZ3D_wf)

interpretation dhwncFractalZ3DTranspose_transfer: format_transfer DhwncFractalZ3DTranspose_TransFormat
  by unfold_locales (rule DhwncFractalZ3DTranspose_wf)

interpretation fractalZTbe_transfer: format_transfer FractalZTbe_TransFormat
  by unfold_locales (rule FractalZTbe_wf)

interpretation fractalZ_transfer: format_transfer FractalZ_TransFormat
  by unfold_locales (rule FractalZ_wf)

interpretation fracZNchw_transfer: format_transfer FracZNchw_TransFormat
  by unfold_locales (rule FracZNchw_wf)

interpretation fracZHwcn_transfer: format_transfer FracZHwcn_TransFormat
  by unfold_locales (rule FracZHwcn_wf)

interpretation fracZNhwc_transfer: format_transfer FracZNhwc_TransFormat
  by unfold_locales (rule FracZNhwc_wf)

interpretation hwcnC1hwncoc0_transfer: format_transfer HwcnC1hwncoc0_TransFormat
  by unfold_locales (rule HwcnC1hwncoc0_wf)

interpretation c1hwncoc0Hwcn_transfer: format_transfer C1hwncoc0Hwcn_TransFormat
  by unfold_locales (rule C1hwncoc0Hwcn_wf)

interpretation nchwNc1hwc0_transfer: format_transfer NchwNc1hwc0_TransFormat
  by unfold_locales (rule NchwNc1hwc0_wf)

interpretation nc1hwc0Nchw_transfer: format_transfer Nc1hwc0Nchw_TransFormat
  by unfold_locales (rule Nc1hwc0Nchw_wf)

interpretation nhwcNc1hwc0_transfer: format_transfer NhwcNc1hwc0_TransFormat
  by unfold_locales (rule NhwcNc1hwc0_wf)

interpretation nc1hwc0Nhwc_transfer: format_transfer Nc1hwc0Nhwc_TransFormat
  by unfold_locales (rule Nc1hwc0Nhwc_wf)

interpretation transpose_transfer: format_transfer Transpose_TransFormat
  by unfold_locales (rule Transpose_TransFormat_wf)

lemmas transfer_axioms =
    fractalZz_transfer.format_transfer_axioms fractalZzND_transfer.format_transfer_axioms
    fractalNz_transfer.format_transfer_axioms fractalNzND_transfer.format_transfer_axioms
    dhwcnFractalZ3D_transfer.format_transfer_axioms
    dhwncFractalZ3DTranspose_transfer.format_transfer_axioms
    fractalZTbe_transfer.format_transfer_axioms fractalZ_transfer.format_transfer_axioms
    fracZNchw_transfer.format_transfer_axioms fracZHwcn_transfer.format_transfer_axioms
    fracZNhwc_transfer.format_transfer_axioms hwcnC1hwncoc0_transfer.format_transfer_axioms
    c1hwncoc0Hwcn_transfer.format_transfer_axioms nchwNc1hwc0_transfer.format_transfer_axioms
    nc1hwc0Nchw_transfer.format_transfer_axioms nhwcNc1hwc0_transfer.format_transfer_axioms
    nc1hwc0Nhwc_transfer.format_transfer_axioms transpose_transfer.format_transfer_axioms

lemma methods_transfer:
  "c \<noteq> FormatTransfer4DToFZC04 \<Longrightarrow> c \<noteq> FormatTransferFZC04To4D \<Longrightarrow>
   format_transfer (TransFormat (methods to_c04 from_c04 c))"
  by (cases c) (simp_all add: transfer_axioms)

lemma transpose_built:
  "BuildFormatTransfer args = Some FormatTransferTranspose \<longleftrightarrow>
   (\<exists>perm. GetPermByForamt (arg_src_primary_format args) (arg_dst_primary_format args) = Inr perm)"
  by (auto simp: BuildFormatTransfer_def registry_lookup registrations_def GetPermByForamt_def perm_args_def
      format_defs split: if_splits)

text \<open>A stand-in for the two classes whose methods are arguments, and the frame of the reference environment.\<close>

definition no_transfer :: FormatTransfer where
  "no_transfer = \<lparr>TransFormat = (\<lambda>_ _ _. Inl (Ret UNSUPPORTED)), TransShape = (\<lambda>_ _ _ _ _. Inl (Ret UNSUPPORTED))\<rparr>"

lemma securec_frame_ref_env: "securec_frame (ref_env sz c0)"
proof -
  have "length (snd (ref_memcpy_s d p m s o' c)) = length d" for d p m s o' c
    by (auto simp: ref_memcpy_s_def length_put length_get split: option.split)
  moreover have "length (snd (ref_memset_s d p m v c)) = length d" for d p m v c
    by (auto simp: ref_memset_s_def length_put split: option.split)
  ultimately show ?thesis by (simp add: securec_frame_def ref_env_def ref_memcpy_s_def EOK_def split: if_splits)
qed

section \<open>Properties\<close>



text \<open>
  C14: the nested registry is the finite map of its registration lines: a transfer is built
  exactly for the registered pairs of primary formats, it is the registered class, and
  \<^verbatim>\<open>IsTransFormatSupport\<close> answers whether one can be built.
\<close>

theorem BuildFormatTransfer_registered:
  "(BuildFormatTransfer args = Some c \<longleftrightarrow>
      (arg_src_primary_format args, arg_dst_primary_format args, c) \<in> set registrations) \<and>
   (IsTransFormatSupport args \<longleftrightarrow>
      (\<exists>c. (arg_src_primary_format args, arg_dst_primary_format args, c) \<in> set registrations))"
proof -
  have "distinct (map fst (map (\<lambda>(a, b, v). ((a, b), v)) registrations))"
    using distinct_registrations by (simp add: case_prod_unfold comp_def)
  then have "BuildFormatTransfer args = Some c \<longleftrightarrow>
      (arg_src_primary_format args, arg_dst_primary_format args, c) \<in> set registrations" for c
    unfolding BuildFormatTransfer_def registry_lookup by (subst map_of_eq_Some_iff) force+
  then show ?thesis
    unfolding IsTransFormatSupport_def FormatTransferExists_def exists_generate
    by (auto simp: BuildFormatTransfer_def [symmetric])
qed

text \<open>
  C26: the registry builds the transposing transfer exactly for the pairs of formats that
  the table of permutations knows, so that \<^verbatim>\<open>perm_args[src][dst]\<close> never meets a missing entry.
\<close>

theorem Transpose_registered:
  "BuildFormatTransfer args = Some FormatTransferTranspose \<longleftrightarrow>
   (\<exists>perm. GetPermByForamt (arg_src_primary_format args) (arg_dst_primary_format args) = Inr perm)"
  by (rule transpose_built)

text \<open>
  C24: through the public entry point, a non-empty tensor in NCHW, NHWC, HWCN or CHWN taken to
  any other of these formats and back is, byte for byte, the tensor it was.
\<close>

theorem TransDataFormat_transpose_roundtrip:
  assumes "formats_are E args sf df" and "GetPermByForamt sf df = Inr p"
    and "arg_src_shape args = S" and "arg_dst_shape args = TransShapeByPerm S p"
    and "length S = 4" and "arg_data args = Some bs"
    and "transpose_ready E (arg_src_data_type args) S p bs"
  shows "\<exists>mid. TransDataFormat to_c04 from_c04 E args result = Inr mid \<and>
         TransDataFormat to_c04 from_c04 E (reverse_args args mid) result' =
         Inr (result'\<lparr>res_data := Some bs,
                       res_length := prod_list S * GetSizeByDataType E (arg_src_data_type args)\<rparr>)"
proof -
  obtain mid where mid: "Transpose_TransFormat E args result = Inr mid"
      "Transpose_TransFormat E (reverse_args args mid) result' =
         Inr (result'\<lparr>res_data := Some bs,
                       res_length := prod_list S * GetSizeByDataType E (arg_src_data_type args)\<rparr>)"
    using Transpose_format_back [OF assms] by blast
  have built: "BuildFormatTransfer args = Some FormatTransferTranspose"
    "BuildFormatTransfer (reverse_args args mid) = Some FormatTransferTranspose"
    using assms(1,2) perm_args_inverse [OF assms(2)] by (auto simp: transpose_built formats_are_def)
  have "res_data mid \<noteq> None"
    using mid(2) by (auto simp: Transpose_TransFormat_def Transpose_def IsTransposeArgValid_def rbind_eq_Inr Let_def split: if_splits)
  then show ?thesis using mid built assms(6) by (auto simp: TransDataFormat_def)
qed

theorem TransDataFormat_transpose_roundtrip_witness:
  "\<exists>mid. TransDataFormat no_transfer no_transfer (ref_env 2 16)
            (plain_args FORMAT_NCHW FORMAT_NHWC [1, 2, 1, 2] [1, 1, 2, 2] [1, 2, 3, 4, 5, 6, 7, 8]) no_result = Inr mid \<and>
        TransDataFormat no_transfer no_transfer (ref_env 2 16)
            (reverse_args (plain_args FORMAT_NCHW FORMAT_NHWC [1, 2, 1, 2] [1, 1, 2, 2] [1, 2, 3, 4, 5, 6, 7, 8]) mid)
            no_result = Inr \<lparr>res_data = Some [1, 2, 3, 4, 5, 6, 7, 8], res_length = 8\<rparr>"
proof -
  let ?args = "plain_args FORMAT_NCHW FORMAT_NHWC [1, 2, 1, 2] [1, 1, 2, 2] [1, 2, 3, 4, 5, 6, 7, 8]"
  have f: "formats_are (ref_env 2 16) ?args FORMAT_NCHW FORMAT_NHWC" by (simp add: formats_are_def format_defs)
  have g: "GetPermByForamt FORMAT_NCHW FORMAT_NHWC = Inr [0, 2, 3, 1]" by code_simp
  have "transpose_ready (ref_env 2 16) DT_FLOAT16 [1, 2, 1, 2] [0, 2, 3, 1] [1, 2, 3, 4, 5, 6, 7, 8]"
    by (simp add: transpose_ready_def securec_ok_ref_env size_ok_ref_env alloc_ok_ref_env valid_perm_def)
  then show ?thesis
    using TransDataFormat_transpose_roundtrip [OF f g, of "[1, 2, 1, 2]" "[1, 2, 3, 4, 5, 6, 7, 8]" no_transfer no_transfer
        no_result no_result]
    by (simp add: TransShapeByPerm_def no_result_def)
qed



end
