(* ===== verification/MemLink.thy ===== *)
theory MemLink
  imports GePrelude
begin

text \<open>
  The intrusive doubly linked list of the memory allocators: \<^verbatim>\<open>Link\<close> of
  \<^verbatim>\<open>runtime/v2/kernel/memory/util/link.h\<close> and \<^verbatim>\<open>LinkNode\<close> of
  \<^verbatim>\<open>link_node.h\<close>.  A list is a cycle through its own sentinel; the two pointers of an
  element are stored in the element, so that an element is in at most one list and \<^verbatim>\<open>remove\<close>
  needs no search.

  The pointers of all elements and all lists form one store.  \<open>link_repr h L\<close> says that the store
  \<open>h\<close> holds the lists \<open>L\<close>; every operation is shown to refine the operation on \<open>L\<close>
  that its name says, with all the other lists untouched.  \<open>concat\<close> does so for an empty target
  only: with a non-empty one it leaves a wrong back pointer, which \<open>concat_loses_elements\<close> shows.
\<close>

section \<open>Store and operations\<close>

text \<open>\<open>None\<close> is \<^verbatim>\<open>nullptr\<close>.  \<open>Sentinel l\<close> is the address \<^verbatim>\<open>sentinel()\<close> of list \<open>l\<close>.\<close>

datatype link_ptr = Sentinel nat | Elem nat

record links =
  link_next :: "link_ptr \<Rightarrow> link_ptr option"
  link_prev :: "link_ptr \<Rightarrow> link_ptr option"
  link_num :: "nat \<Rightarrow> 64 word"

definition set_next :: "link_ptr \<Rightarrow> link_ptr option \<Rightarrow> links \<Rightarrow> links" where
  "set_next p q h = h\<lparr>link_next := (link_next h)(p := q)\<rparr>"

definition set_prev :: "link_ptr \<Rightarrow> link_ptr option \<Rightarrow> links \<Rightarrow> links" where
  "set_prev p q h = h\<lparr>link_prev := (link_prev h)(p := q)\<rparr>"

definition add_num :: "nat \<Rightarrow> 64 word \<Rightarrow> links \<Rightarrow> links" where
  "add_num l d h = h\<lparr>link_num := (link_num h)(l := link_num h l + d)\<rparr>"

text \<open>The pointer behind a pointer, for the writes \<^verbatim>\<open>p->link_.next_ = q\<close>.\<close>

definition deref :: "link_ptr option \<Rightarrow> link_ptr res" where
  "deref p = (case p of None \<Rightarrow> Inl Undefined | Some q \<Rightarrow> Inr q)"

definition Link :: "nat \<Rightarrow> links \<Rightarrow> links" where
  "Link l h = (let s = Sentinel l in
     set_prev s (Some s) (set_next s (Some s) (h\<lparr>link_num := (link_num h)(l := 0)\<rparr>)))"

definition link_empty :: "nat \<Rightarrow> links \<Rightarrow> bool" where
  "link_empty l h \<longleftrightarrow> link_next h (Sentinel l) = Some (Sentinel l)"

definition link_size :: "nat \<Rightarrow> links \<Rightarrow> 64 word" where
  "link_size l h = link_num h l"

definition push_back :: "nat \<Rightarrow> nat \<Rightarrow> links \<Rightarrow> links res" where
  "push_back l e h =
     (let s = Sentinel l;
          h = set_next (Elem e) (Some s) h;
          h = set_prev (Elem e) (link_prev h s) h in
      rbind (deref (link_prev h s)) (\<lambda>p.
        let h = set_next p (Some (Elem e)) h;
            h = set_prev s (Some (Elem e)) h in
        Inr (add_num l 1 h)))"

definition push_front :: "nat \<Rightarrow> nat \<Rightarrow> links \<Rightarrow> links res" where
  "push_front l e h =
     (let s = Sentinel l;
          h = set_prev (Elem e) (Some s) h;
          h = set_next (Elem e) (link_next h s) h in
      rbind (deref (link_next h s)) (\<lambda>p.
        let h = set_prev p (Some (Elem e)) h;
            h = set_next s (Some (Elem e)) h in
        Inr (add_num l 1 h)))"

definition node_remove :: "link_ptr \<Rightarrow> links \<Rightarrow> links res" where
  "node_remove e h =
     rbind (deref (link_prev h e)) (\<lambda>p.
       let h = set_next p (link_next h e) h in
       rbind (deref (link_next h e)) (\<lambda>n. Inr (set_prev n (link_prev h e) h)))"

definition link_remove :: "nat \<Rightarrow> link_ptr \<Rightarrow> links \<Rightarrow> links res" where
  "link_remove l e h = rbind (node_remove e h) (\<lambda>h. Inr (add_num l (- 1) h))"

text \<open>
  The result of \<open>pop_front\<close> is \<open>None\<close> for an empty list.  A list whose sentinel was never
  initialised has a null first element, which the code dereferences.
\<close>

definition pop_front :: "nat \<Rightarrow> links \<Rightarrow> (link_ptr option \<times> links) res" where
  "pop_front l h =
     (if link_next h (Sentinel l) = Some (Sentinel l) then Inr (None, h)
      else rbind (deref (link_next h (Sentinel l))) (\<lambda>e.
             rbind (link_remove l e h) (\<lambda>h. Inr (Some e, h))))"

definition link_concat :: "nat \<Rightarrow> nat \<Rightarrow> links \<Rightarrow> links res" where
  "link_concat l other h =
     (if link_empty other h then Inr h
      else
        let s = Sentinel l; t = Sentinel other in
        rbind (deref (link_prev h t)) (\<lambda>b.
          let h = set_next b (Some s) h in
          rbind (deref (link_next h t)) (\<lambda>f.
            let h = set_prev f (Some s) h in
            rbind (deref (link_prev h s)) (\<lambda>p.
              let h = set_next p (link_next h t) h;
                  h = set_prev s (link_prev h t) h in
              Inr (Link other (add_num l (link_size other h) h))))))"

text \<open>Move assignment: \<^verbatim>\<open>reset\<close> followed by \<^verbatim>\<open>concat\<close>.\<close>

definition link_move :: "nat \<Rightarrow> nat \<Rightarrow> links \<Rightarrow> links res" where
  "link_move l other h = (if l = other then Inr h else link_concat l other (Link l h))"

text \<open>\<open>None\<close> is a loop that does not end.\<close>

partial_function (option) link_clear :: "nat \<Rightarrow> links \<Rightarrow> links res option" where
  "link_clear l h =
     (case pop_front l h of
        Inl f \<Rightarrow> Some (Inl f)
      | Inr (e, h) \<Rightarrow> (if e = None then Some (Inr h) else link_clear l h))"

text \<open>
  The elements a loop over \<^verbatim>\<open>Iterator\<close> visits.  The iterator holds the element and its
  successor, read when it was moved to the element.  \<open>None\<close> is a loop that does not end or that
  dereferences a null element.
\<close>

partial_function (option) iterate ::
  "(link_ptr \<Rightarrow> link_ptr option) \<Rightarrow> link_ptr \<Rightarrow> link_ptr option \<Rightarrow> link_ptr option \<Rightarrow> link_ptr list option" where
  "iterate step stop cur nxt =
     (case cur of
        None \<Rightarrow> None
      | Some e \<Rightarrow>
          if e = stop then Some []
          else Option.bind (iterate step stop nxt (Option.bind nxt step)) (\<lambda>es. Some (e # es)))"

definition forward :: "nat \<Rightarrow> links \<Rightarrow> link_ptr list option" where
  "forward l h = (let b = link_next h (Sentinel l) in
     iterate (link_next h) (Sentinel l) b (Option.bind b (link_next h)))"

definition backward :: "nat \<Rightarrow> links \<Rightarrow> link_ptr list option" where
  "backward l h = (let b = link_prev h (Sentinel l) in
     iterate (link_prev h) (Sentinel l) b (Option.bind b (link_prev h)))"

section \<open>Representation\<close>

text \<open>\<open>adj h ps\<close>: consecutive pointers of \<open>ps\<close> are linked in both directions.\<close>

fun adj :: "links \<Rightarrow> link_ptr list \<Rightarrow> bool" where
  "adj h (p # q # ps) \<longleftrightarrow> link_next h p = Some q \<and> link_prev h q = Some p \<and> adj h (q # ps)"
| "adj h _ \<longleftrightarrow> True"

definition cycle :: "nat \<Rightarrow> nat list \<Rightarrow> link_ptr list" where
  "cycle l xs = Sentinel l # map Elem xs @ [Sentinel l]"

definition link_repr :: "links \<Rightarrow> (nat \<rightharpoonup> nat list) \<Rightarrow> bool" where
  "link_repr h L \<longleftrightarrow>
     (\<forall>l xs. L l = Some xs \<longrightarrow>
        adj h (cycle l xs) \<and> distinct xs \<and> link_num h l = word_of_nat (length xs)) \<and>
     (\<forall>l m xs ys. L l = Some xs \<longrightarrow> L m = Some ys \<longrightarrow> l \<noteq> m \<longrightarrow> set xs \<inter> set ys = {})"

definition listed :: "(nat \<rightharpoonup> nat list) \<Rightarrow> nat \<Rightarrow> bool" where
  "listed L e \<longleftrightarrow> (\<exists>l xs. L l = Some xs \<and> e \<in> set xs)"

lemma link_reprD:
  assumes "link_repr h L" and "L l = Some xs"
  shows "adj h (cycle l xs)" and "distinct xs" and "link_num h l = word_of_nat (length xs)"
  using assms unfolding link_repr_def by auto

lemma link_repr_disj:
  assumes "link_repr h L" and "L l = Some xs" and "L m = Some ys" and "l \<noteq> m"
  shows "set xs \<inter> set ys = {}"
  using assms unfolding link_repr_def by blast

lemma link_reprI:
  assumes "\<And>l xs. L l = Some xs \<Longrightarrow>
      adj h (cycle l xs) \<and> distinct xs \<and> link_num h l = word_of_nat (length xs)"
    and "\<And>l m xs ys. L l = Some xs \<Longrightarrow> L m = Some ys \<Longrightarrow> l \<noteq> m \<Longrightarrow> set xs \<inter> set ys = {}"
  shows "link_repr h L"
  using assms unfolding link_repr_def by blast

lemma adj_join: "adj h (us @ [p]) \<Longrightarrow> adj h (p # vs) \<Longrightarrow> adj h (us @ p # vs)"
  by (induction h us rule: adj.induct) (auto simp: Cons_eq_append_conv, (case_tac vs; simp)?)

lemma adj_split: "adj h (us @ p # vs) \<Longrightarrow> adj h (us @ [p]) \<and> adj h (p # vs)"
  by (induction us rule: induct_list012) (auto, (case_tac vs; simp)?)

lemma adj_appendD: "adj h (us @ vs) \<Longrightarrow> adj h us \<and> adj h vs"
  by (induction us rule: induct_list012) (auto, (case_tac vs; simp)?)

lemma adj_frame:
  assumes "\<And>p. p \<in> set (butlast ps) \<Longrightarrow> link_next h' p = link_next h p"
    and "\<And>p. p \<in> set (tl ps) \<Longrightarrow> link_prev h' p = link_prev h p"
  shows "adj h' ps \<longleftrightarrow> adj h ps"
  using assms
proof (induction ps rule: induct_list012)
  case (3 p q ps)
  have "adj h' (q # ps) \<longleftrightarrow> adj h (q # ps)"
    by (rule 3(2)) (auto intro: 3(3,4) dest: in_set_butlastD split: if_splits)
  then show ?case using 3(3) [of p] 3(4) [of q] by simp
qed simp_all

lemma cycle_split:
  assumes "xs = as @ e # bs"
  obtains us p n vs where "cycle l xs = us @ p # Elem e # n # vs"
    and "us @ [p] = Sentinel l # map Elem as" and "n # vs = map Elem bs @ [Sentinel l]"
proof -
  obtain us p where u: "Sentinel l # map Elem as = us @ [p]" by (metis list.distinct(1) rev_exhaust)
  obtain n vs where v: "map Elem bs @ [Sentinel l] = n # vs" by (cases "map Elem bs @ [Sentinel l]") auto
  have "cycle l xs = (Sentinel l # map Elem as) @ Elem e # (map Elem bs @ [Sentinel l])"
    by (simp add: cycle_def assms)
  then have "cycle l xs = us @ p # Elem e # n # vs" by (simp only: u v) simp
  then show thesis by (rule that [OF _ u [symmetric] v [symmetric]])
qed

text \<open>What one list of the store depends on: the pointers of its own nodes and its counter.\<close>

lemma cycle_frame:
  assumes "\<And>p. p \<in> set (cycle l xs) \<Longrightarrow> link_next h' p = link_next h p \<and> link_prev h' p = link_prev h p"
  shows "adj h' (cycle l xs) \<longleftrightarrow> adj h (cycle l xs)"
proof (rule adj_frame)
  show "link_next h' p = link_next h p" if "p \<in> set (butlast (cycle l xs))" for p
    using assms [OF in_set_butlastD [OF that]] by simp
  show "link_prev h' p = link_prev h p" if "p \<in> set (tl (cycle l xs))" for p
    using that assms [of p] by (simp add: cycle_def)
qed

lemma set_cycle: "set (cycle l xs) = insert (Sentinel l) (Elem ` set xs)"
  by (auto simp: cycle_def)

text \<open>
  Changing one list of the store: the new cycle is linked, and only nodes of the old or the new
  cycle were written.
\<close>

lemma link_repr_update:
  assumes r: "link_repr h L" and l: "L l = Some xs"
    and new: "adj h' (cycle l ys)" "distinct ys" "link_num h' l = word_of_nat (length ys)"
    and num: "\<And>m. m \<noteq> l \<Longrightarrow> link_num h' m = link_num h m"
    and frame: "\<And>p. p \<notin> set (cycle l xs) \<union> set (cycle l ys) \<Longrightarrow>
      link_next h' p = link_next h p \<and> link_prev h' p = link_prev h p"
    and fresh: "\<And>x. x \<in> set ys \<Longrightarrow> x \<notin> set xs \<Longrightarrow> \<not> listed L x"
  shows "link_repr h' (L(l \<mapsto> ys))"
proof (rule link_reprI)
  have disj: "set ys \<inter> set zs = {}" if "m \<noteq> l" and "L m = Some zs" for m zs
    using link_repr_disj [OF r l that(2)] fresh that unfolding listed_def by blast
  fix m zs
  assume m: "(L(l \<mapsto> ys)) m = Some zs"
  show "adj h' (cycle m zs) \<and> distinct zs \<and> link_num h' m = word_of_nat (length zs)"
  proof (cases "m = l")
    case True
    then show ?thesis using m new by simp
  next
    case False
    with m have m': "L m = Some zs" by simp
    have "set xs \<inter> set zs = {}" using link_repr_disj [OF r l m'] False by simp
    then have "adj h' (cycle m zs) \<longleftrightarrow> adj h (cycle m zs)"
      using disj [OF False m'] False by (intro cycle_frame frame) (auto simp: set_cycle)
    with link_reprD [OF r m'] num [OF False] show ?thesis by simp
  qed
next
  have disj: "set ys \<inter> set zs = {}" if "m \<noteq> l" and "L m = Some zs" for m zs
    using link_repr_disj [OF r l that(2)] fresh that unfolding listed_def by blast
  fix m k zs ws
  assume "(L(l \<mapsto> ys)) m = Some zs" "(L(l \<mapsto> ys)) k = Some ws" "m \<noteq> k"
  then show "set zs \<inter> set ws = {}"
    using disj [of k ws] disj [of m zs] link_repr_disj [OF r, of m zs k ws]
    by (cases "m = l"; cases "k = l") (simp_all add: Int_commute)
qed

section \<open>The operations refine those on lists\<close>

lemmas link_field_simps = set_next_def set_prev_def add_num_def

lemma Link_refines:
  assumes "link_repr h L" and "L l = None"
  shows "link_repr (Link l h) (L(l \<mapsto> []))"
proof (rule link_reprI)
  fix m xs
  assume m: "(L(l \<mapsto> [])) m = Some xs"
  show "adj (Link l h) (cycle m xs) \<and> distinct xs \<and> link_num (Link l h) m = word_of_nat (length xs)"
  proof (cases "m = l")
    case True
    then show ?thesis using m by (simp add: Link_def Let_def link_field_simps cycle_def)
  next
    case False
    with m have m': "L m = Some xs" by simp
    have "adj (Link l h) (cycle m xs) \<longleftrightarrow> adj h (cycle m xs)"
      using False by (intro cycle_frame) (auto simp: Link_def Let_def link_field_simps set_cycle)
    then show ?thesis
      using link_reprD [OF assms(1) m'] False by (simp add: Link_def Let_def link_field_simps)
  qed
next
  fix m k zs ws
  assume "(L(l \<mapsto> [])) m = Some zs" "(L(l \<mapsto> [])) k = Some ws" "m \<noteq> k"
  then show "set zs \<inter> set ws = {}"
    using link_repr_disj [OF assms(1), of m zs k ws] by (auto split: if_splits)
qed

lemma empty_refines:
  assumes "link_repr h L" and "L l = Some xs"
  shows "link_empty l h \<longleftrightarrow> xs = []"
  using link_reprD [OF assms] by (cases xs) (auto simp: link_empty_def cycle_def)

lemma size_refines:
  assumes "link_repr h L" and "L l = Some xs" and "length xs < 2 ^ 64"
  shows "unat (link_size l h) = length xs"
  using link_reprD(3) [OF assms(1,2)] assms(3) by (simp add: link_size_def unat_of_nat)

lemma push_front_refines:
  assumes r: "link_repr h L" and l: "L l = Some xs" and e: "\<not> listed L e"
  obtains h' where "push_front l e h = Inr h'" and "link_repr h' (L(l \<mapsto> e # xs))"
proof -
  obtain n vs where v: "map Elem xs @ [Sentinel l] = n # vs" by (cases "map Elem xs @ [Sentinel l]") auto
  note a = link_reprD [OF r l]
  have nx: "link_next h (Sentinel l) = Some n" and av: "adj h (n # vs)"
    using a(1) unfolding cycle_def v by simp_all
  have nin: "Elem e \<notin> set (n # vs)" using e l unfolding v [symmetric] listed_def by auto
  have dv: "distinct (n # vs)" using a(2) unfolding v [symmetric] by (auto simp: distinct_map inj_on_def)
  have bv: "butlast (n # vs) = map Elem xs" unfolding v [symmetric] by simp
  let ?h = "h\<lparr>link_next := (link_next h)(Elem e := Some n, Sentinel l := Some (Elem e)),
    link_prev := (link_prev h)(Elem e := Some (Sentinel l), n := Some (Elem e)),
    link_num := (link_num h)(l := link_num h l + 1)\<rparr>"
  have "adj ?h (n # vs)"
    using nin dv bv e l
    by (subst adj_frame [of "n # vs" _ h]) (auto simp: av listed_def dest: in_set_butlastD)
  moreover have "n \<noteq> Elem e" using nin by auto
  ultimately have "adj ?h (cycle l (e # xs))" by (simp add: cycle_def v)
  moreover have "n \<in> set (cycle l xs)" by (simp add: cycle_def v)
  ultimately have "link_repr ?h (L(l \<mapsto> e # xs))"
    using a e l r by (intro link_repr_update [OF r l]) (auto simp: listed_def set_cycle)
  moreover have "push_front l e h = Inr ?h"
    using nx by (simp add: push_front_def deref_def link_field_simps Let_def)
  ultimately show thesis using that by blast
qed

lemma push_back_refines:
  assumes r: "link_repr h L" and l: "L l = Some xs" and e: "\<not> listed L e"
  obtains h' where "push_back l e h = Inr h'" and "link_repr h' (L(l \<mapsto> xs @ [e]))"
proof -
  obtain us p where u: "Sentinel l # map Elem xs = us @ [p]" by (metis list.distinct(1) rev_exhaust)
  note a = link_reprD [OF r l]
  have "cycle l xs = (Sentinel l # map Elem xs) @ [Sentinel l]"
    and "cycle l (xs @ [e]) = (Sentinel l # map Elem xs) @ [Elem e, Sentinel l]"
    by (simp_all add: cycle_def)
  then have c: "cycle l xs = us @ p # [Sentinel l]"
    and c': "cycle l (xs @ [e]) = us @ p # [Elem e, Sentinel l]"
    unfolding u by simp_all
  have au: "adj h (us @ [p])" and pv: "link_prev h (Sentinel l) = Some p"
    using adj_split [of h us p "[Sentinel l]"] a(1) unfolding c by simp_all
  have nin: "Elem e \<notin> set (us @ [p])" using e l unfolding u [symmetric] listed_def by auto
  have du: "distinct (us @ [p])" using a(2) unfolding u [symmetric] by (auto simp: distinct_map inj_on_def)
  have tu: "set (tl (us @ [p])) = Elem ` set xs" unfolding u [symmetric] by simp
  let ?h = "h\<lparr>link_next := (link_next h)(Elem e := Some (Sentinel l), p := Some (Elem e)),
    link_prev := (link_prev h)(Elem e := Some p, Sentinel l := Some (Elem e)),
    link_num := (link_num h)(l := link_num h l + 1)\<rparr>"
  have "adj ?h (us @ [p])"
    using nin du tu e l by (subst adj_frame [of "us @ [p]" _ h]) (auto simp: au listed_def)
  moreover have "p \<noteq> Elem e" using nin by auto
  ultimately have "adj ?h (cycle l (xs @ [e]))" unfolding c' by - (rule adj_join, simp_all)
  moreover have "p \<in> set (cycle l xs)" by (simp add: c)
  ultimately have "link_repr ?h (L(l \<mapsto> xs @ [e]))"
    using a e l r by (intro link_repr_update [OF r l]) (auto simp: listed_def set_cycle)
  moreover have "push_back l e h = Inr ?h"
    using pv by (simp add: push_back_def deref_def link_field_simps Let_def)
  ultimately show thesis using that by blast
qed

lemma remove_refines:
  assumes r: "link_repr h L" and l: "L l = Some xs" and e: "e \<in> set xs"
  obtains h' where "link_remove l (Elem e) h = Inr h'" and "link_repr h' (L(l \<mapsto> remove1 e xs))"
proof -
  note a = link_reprD [OF r l]
  from e obtain as bs where x: "xs = as @ e # bs" by (meson split_list)
  obtain us p n vs where c: "cycle l xs = us @ p # Elem e # n # vs"
    and u: "us @ [p] = Sentinel l # map Elem as" and v: "n # vs = map Elem bs @ [Sentinel l]"
    by (rule cycle_split [OF x])
  have rm: "remove1 e xs = as @ bs" using a(2) by (simp add: x remove1_append)
  have "cycle l (as @ bs) = (Sentinel l # map Elem as) @ (map Elem bs @ [Sentinel l])"
    by (simp add: cycle_def)
  then have c': "cycle l (as @ bs) = us @ p # n # vs" unfolding u [symmetric] v [symmetric] by simp
  have au: "adj h (us @ [p])" and m: "link_prev h (Elem e) = Some p" "link_next h (Elem e) = Some n"
    and av: "adj h (n # vs)"
    using adj_split [of h us p "Elem e # n # vs"] a(1) unfolding c by simp_all
  have "p \<in> set (us @ [p])" "n \<in> set (n # vs)" by simp_all
  then have pn': "p \<in> insert (Sentinel l) (Elem ` set as)" "n \<in> insert (Sentinel l) (Elem ` set bs)"
    unfolding u v by auto
  have d: "distinct (us @ [p])" "distinct (n # vs)" "Elem e \<notin> set (us @ [p])" "Elem e \<notin> set (n # vs)"
    and pn: "p \<notin> set (butlast (n # vs))" "n \<notin> set (tl (us @ [p]))"
    using a(2) pn' unfolding u v by (auto simp: x distinct_map inj_on_def dest: in_set_butlastD)
  let ?h = "h\<lparr>link_next := (link_next h)(p := Some n), link_prev := (link_prev h)(n := Some p),
    link_num := (link_num h)(l := link_num h l - 1)\<rparr>"
  have "adj ?h (us @ [p])" "adj ?h (n # vs)"
    using d pn by (subst adj_frame [of _ _ h]; auto simp: au av)+
  then have "adj ?h (cycle l (as @ bs))" unfolding c' by - (rule adj_join, simp_all)
  moreover have "p \<in> set (cycle l xs)" "n \<in> set (cycle l xs)" by (simp_all add: c)
  ultimately have "link_repr ?h (L(l \<mapsto> as @ bs))"
    using a l r by (intro link_repr_update [OF r l]) (auto simp: x set_cycle)
  moreover have "link_remove l (Elem e) h = Inr ?h"
    using m d by (simp add: link_remove_def node_remove_def deref_def link_field_simps Let_def)
  ultimately show thesis using that by (simp add: rm)
qed

lemma pop_front_refines:
  assumes r: "link_repr h L" and l: "L l = Some xs"
  shows "xs = [] \<Longrightarrow> pop_front l h = Inr (None, h)"
    and "xs = x # xs' \<Longrightarrow> \<exists>h'. pop_front l h = Inr (Some (Elem x), h') \<and> link_repr h' (L(l \<mapsto> xs'))"
proof -
  show "pop_front l h = Inr (None, h)" if "xs = []"
    using link_reprD(1) [OF r l] that by (simp add: pop_front_def cycle_def)
  assume x: "xs = x # xs'"
  then obtain h' where "link_remove l (Elem x) h = Inr h'" "link_repr h' (L(l \<mapsto> xs'))"
    using remove_refines [OF r l, of x] by auto
  moreover have "link_next h (Sentinel l) = Some (Elem x)"
    using link_reprD(1) [OF r l] x by (simp add: cycle_def)
  ultimately show "\<exists>h'. pop_front l h = Inr (Some (Elem x), h') \<and> link_repr h' (L(l \<mapsto> xs'))"
    by (simp add: pop_front_def deref_def)
qed

lemma clear_refines:
  assumes "link_repr h L" and "L l = Some xs"
  shows "\<exists>h'. link_clear l h = Some (Inr h') \<and> link_repr h' (L(l \<mapsto> []))"
  using assms
proof (induction xs arbitrary: h L)
  case Nil
  then show ?case
    using pop_front_refines(1) [OF Nil refl] by (subst link_clear.simps) (auto simp: map_upd_triv)
next
  case (Cons x xs)
  then obtain h1 where h1: "pop_front l h = Inr (Some (Elem x), h1)" "link_repr h1 (L(l \<mapsto> xs))"
    using pop_front_refines(2) [OF Cons.prems refl] by blast
  have "\<exists>h'. link_clear l h1 = Some (Inr h') \<and> link_repr h' ((L(l \<mapsto> xs))(l \<mapsto> []))"
    by (rule Cons.IH [OF h1(2)]) simp
  then show ?case using h1(1) by (subst link_clear.simps) simp
qed

text \<open>A loop over the list sees its elements, in order; the reverse loop sees them reversed.\<close>

lemma iterate_adj:
  assumes "\<And>p q us vs. ps @ [stop] = us @ p # q # vs \<Longrightarrow> step p = Some q" and "stop \<notin> set ps"
  shows "iterate step stop (Some (hd (ps @ [stop]))) (step (hd (ps @ [stop]))) = Some ps"
  using assms
proof (induction ps)
  case Nil
  then show ?case by (subst iterate.simps) simp
next
  case (Cons p ps)
  let ?q = "hd (ps @ [stop])"
  have q: "step p = Some ?q"
    by (rule Cons.prems(1) [of "[]" p ?q "tl (ps @ [stop])"]) (cases ps; simp)
  have "iterate step stop (Some ?q) (step ?q) = Some ps"
    using Cons.prems by (intro Cons.IH) (auto intro: Cons.prems(1) [of "p # _"])
  then show ?case using q Cons.prems(2) by (subst iterate.simps) auto
qed

lemma adj_next: "adj h (us @ p # q # vs) \<Longrightarrow> link_next h p = Some q \<and> link_prev h q = Some p"
  using adj_split [of h us p "q # vs"] by simp

lemma forward_refines:
  assumes r: "link_repr h L" and l: "L l = Some xs"
  shows "forward l h = Some (map Elem xs)"
proof -
  let ?n = "hd (map Elem xs @ [Sentinel l])"
  have "link_next h p = Some q" if "map Elem xs @ [Sentinel l] = us @ p # q # vs" for us p q vs
    using adj_next [of h "Sentinel l # us" p q vs] link_reprD(1) [OF r l] that by (simp add: cycle_def)
  then have "iterate (link_next h) (Sentinel l) (Some ?n) (link_next h ?n) = Some (map Elem xs)"
    by (intro iterate_adj) auto
  moreover have "link_next h (Sentinel l) = Some ?n"
    using link_reprD(1) [OF r l] by (cases xs) (simp_all add: cycle_def)
  ultimately show ?thesis by (simp add: forward_def)
qed

lemma backward_refines:
  assumes r: "link_repr h L" and l: "L l = Some xs"
  shows "backward l h = Some (rev (map Elem xs))"
proof -
  let ?n = "hd (rev (map Elem xs) @ [Sentinel l])"
  have a: "adj h (cycle l xs)" by (rule link_reprD(1) [OF r l])
  have c: "cycle l xs = rev (rev (map Elem xs) @ [Sentinel l]) @ [Sentinel l]" by (simp add: cycle_def)
  have "link_prev h p = Some q" if "rev (map Elem xs) @ [Sentinel l] = us @ p # q # vs" for us p q vs
    using adj_next [of h "rev vs" q p "rev us @ [Sentinel l]"] a unfolding c that by simp
  then have "iterate (link_prev h) (Sentinel l) (Some ?n) (link_prev h ?n) = Some (rev (map Elem xs))"
    by (intro iterate_adj) auto
  moreover have "link_prev h (Sentinel l) = Some ?n"
  proof -
    obtain m vs where m: "rev (map Elem xs) @ [Sentinel l] = m # vs"
      by (cases "rev (map Elem xs) @ [Sentinel l]") auto
    have "adj h (rev vs @ m # Sentinel l # [])" using a unfolding c m by simp
    then have "link_prev h (Sentinel l) = Some m" by (rule adj_next [THEN conjunct2])
    then show ?thesis unfolding m by simp
  qed
  ultimately show ?thesis by (simp add: backward_def)
qed

lemma concat_cycle:
  assumes "adj h (cycle other ys)" and "distinct ys" and ys: "ys = zs @ [b]" "ys = f # ws"
    and nx: "link_next h' (Sentinel l) = Some (Elem f)" "link_next h' (Elem b) = Some (Sentinel l)"
    and pv: "link_prev h' (Elem f) = Some (Sentinel l)" "link_prev h' (Sentinel l) = Some (Elem b)"
    and frame: "\<And>x. x \<in> set zs \<Longrightarrow> link_next h' (Elem x) = link_next h (Elem x)"
      "\<And>x. x \<in> set ws \<Longrightarrow> link_prev h' (Elem x) = link_prev h (Elem x)"
  shows "adj h' (cycle l ys)"
proof -
  have "adj h ([Sentinel other] @ map Elem ys @ [Sentinel other])" using assms(1) by (simp add: cycle_def)
  then have "adj h (map Elem ys)" using adj_appendD by blast
  moreover have "butlast (map Elem ys) = map Elem zs" by (simp add: ys(1))
  moreover have "tl (map Elem ys) = map Elem ws" by (simp add: ys(2))
  ultimately have "adj h' (map Elem ys)" using frame by (subst adj_frame [of _ _ h]) auto
  then have "adj h' (Sentinel l # map Elem ys)" using nx pv by (simp add: ys(2))
  then have "adj h' ((Sentinel l # map Elem zs) @ Elem b # [Sentinel l])"
    using nx pv by - (rule adj_join, simp_all add: ys(1))
  then show ?thesis by (simp add: cycle_def ys(1))
qed

definition spliced :: "nat \<Rightarrow> nat \<Rightarrow> nat \<Rightarrow> nat \<Rightarrow> links \<Rightarrow> links" where
  "spliced l other f b h = h\<lparr>
     link_next := (link_next h)(Elem b := Some (Sentinel l), Sentinel l := Some (Elem f),
                                Sentinel other := Some (Sentinel other)),
     link_prev := (link_prev h)(Elem f := Some (Sentinel l), Sentinel l := Some (Elem b),
                                Sentinel other := Some (Sentinel other)),
     link_num := (link_num h)(l := link_num h l + link_num h other, other := 0)\<rparr>"

lemma concat_spliced:
  assumes r: "link_repr h L" and l: "L l = Some []" and o: "L other = Some ys" and ne: "l \<noteq> other"
    and ys: "ys = zs @ [b]" "ys = f # ws"
  shows "link_concat l other h = Inr (spliced l other f b h)"
proof -
  note a = link_reprD(1) [OF r o] and e = link_reprD(1) [OF r l]
  have "link_next h (Sentinel other) = Some (Elem f)" using a unfolding cycle_def ys(2) by simp
  moreover have "cycle other ys = (Sentinel other # map Elem zs) @ Elem b # Sentinel other # []"
    by (simp add: cycle_def ys(1))
  then have "link_prev h (Sentinel other) = Some (Elem b)" using adj_next a by metis
  moreover have "link_prev h (Sentinel l) = Some (Sentinel l)" using e by (simp add: cycle_def)
  moreover have "ys \<noteq> []" by (simp add: ys(1))
  ultimately show ?thesis
    using ne empty_refines [OF r o]
    by (simp add: link_concat_def deref_def link_field_simps Let_def Link_def link_size_def spliced_def)
qed

lemma spliced_repr:
  assumes r: "link_repr h L" and l: "L l = Some []" and o: "L other = Some ys" and ne: "l \<noteq> other"
    and ys: "ys = zs @ [b]" "ys = f # ws"
  shows "link_repr (spliced l other f b h) (L(l \<mapsto> ys, other \<mapsto> []))"
proof (rule link_reprI)
  let ?h = "spliced l other f b h"
  note a = link_reprD [OF r o] and e = link_reprD [OF r l]
  have fb: "f \<in> set ys" "b \<in> set ys" by (simp add: ys(2), simp add: ys(1))
  have nb: "b \<notin> set zs" "f \<notin> set ws" using a(2) by (simp add: ys(1), simp add: ys(2))
  have ad: "adj ?h (cycle l ys)"
    by (rule concat_cycle [OF a(1,2) ys]) (use ne nb in \<open>auto simp: spliced_def\<close>)
  fix m xs
  assume m: "(L(l \<mapsto> ys, other \<mapsto> [])) m = Some xs"
  show "adj ?h (cycle m xs) \<and> distinct xs \<and> link_num ?h m = word_of_nat (length xs)"
  proof (cases "m = l \<or> m = other")
    case True
    then show ?thesis using ad a e m ne by (auto simp: cycle_def spliced_def)
  next
    case False
    then have m': "L m = Some xs" using m by simp
    have "set ys \<inter> set xs = {}" using link_repr_disj [OF r o m'] False by simp
    then have "adj ?h (cycle m xs) \<longleftrightarrow> adj h (cycle m xs)"
      using False fb by (intro cycle_frame) (auto simp: set_cycle spliced_def)
    then show ?thesis using link_reprD [OF r m'] False by (simp add: spliced_def)
  qed
next
  fix m k xs ws
  assume "(L(l \<mapsto> ys, other \<mapsto> [])) m = Some xs" "(L(l \<mapsto> ys, other \<mapsto> [])) k = Some ws" "m \<noteq> k"
  then show "set xs \<inter> set ws = {}"
    using link_repr_disj [OF r o, of k ws] link_repr_disj [OF r, of m xs k ws]
      link_repr_disj [OF r _ o, of m xs]
    by (cases "m = other"; cases "k = other"; cases "m = l"; cases "k = l") auto
qed

lemma concat_refines:
  assumes r: "link_repr h L" and l: "L l = Some []" and o: "L other = Some ys" and ne: "l \<noteq> other"
  obtains h' where "link_concat l other h = Inr h'" and "link_repr h' (L(l \<mapsto> ys, other \<mapsto> []))"
proof (cases "ys = []")
  case True
  with that [of h] show thesis
    using empty_refines [OF r o] r l o ne by (simp add: link_concat_def fun_upd_idem)
next
  case False
  then obtain zs b where zs: "ys = zs @ [b]" by (metis rev_exhaust)
  from False obtain f ws where ws: "ys = f # ws" by (cases ys) auto
  show thesis
    by (rule that [OF concat_spliced [OF assms zs ws] spliced_repr [OF assms zs ws]])
qed

section \<open>The list interface\<close>

text \<open>
  What a user of the lists relies on: the store represents a family of lists, and the operations act
  on the family.  The allocators move an element between two lists (a layer of idle spans and the
  occupied spans), which the interface gives once.
\<close>

locale link_interface =
  fixes repr :: "'h \<Rightarrow> (nat \<rightharpoonup> nat list) \<Rightarrow> bool"
    and push :: "nat \<Rightarrow> nat \<Rightarrow> 'h \<Rightarrow> 'h res"
    and pop :: "nat \<Rightarrow> 'h \<Rightarrow> (link_ptr option \<times> 'h) res"
    and drop :: "nat \<Rightarrow> link_ptr \<Rightarrow> 'h \<Rightarrow> 'h res"
  assumes push_law: "repr h L \<Longrightarrow> L l = Some xs \<Longrightarrow> \<not> listed L e \<Longrightarrow>
      \<exists>h'. push l e h = Inr h' \<and> repr h' (L(l \<mapsto> e # xs))"
    and pop_law: "repr h L \<Longrightarrow> L l = Some (x # xs) \<Longrightarrow>
      \<exists>h'. pop l h = Inr (Some (Elem x), h') \<and> repr h' (L(l \<mapsto> xs))"
    and drop_law: "repr h L \<Longrightarrow> L l = Some xs \<Longrightarrow> e \<in> set xs \<Longrightarrow>
      \<exists>h'. drop l (Elem e) h = Inr h' \<and> repr h' (L(l \<mapsto> remove1 e xs))"
    and apart: "repr h L \<Longrightarrow> L l = Some xs \<Longrightarrow> distinct xs"
      "repr h L \<Longrightarrow> L l = Some xs \<Longrightarrow> L m = Some ys \<Longrightarrow> l \<noteq> m \<Longrightarrow> set xs \<inter> set ys = {}"
begin

lemma unlisted_after_drop:
  assumes "repr h L" and "L l = Some xs" and "e \<in> set xs"
  shows "\<not> listed (L(l \<mapsto> remove1 e xs)) e"
  using apart [OF assms(1)] assms(2,3) unfolding listed_def
  by (auto simp: disjoint_iff split: if_splits)

lemma move_element:
  assumes "repr h L" and "L l = Some xs" and "e \<in> set xs" and "L m = Some ys" and "l \<noteq> m"
  shows "\<exists>h1 h2. drop l (Elem e) h = Inr h1 \<and> push m e h1 = Inr h2 \<and>
      repr h2 (L(l \<mapsto> remove1 e xs, m \<mapsto> e # ys))"
proof -
  obtain h1 where "drop l (Elem e) h = Inr h1" "repr h1 (L(l \<mapsto> remove1 e xs))"
    using drop_law [OF assms(1-3)] by blast
  moreover have "(L(l \<mapsto> remove1 e xs)) m = Some ys" using assms(4,5) by simp
  ultimately show ?thesis using push_law unlisted_after_drop [OF assms(1-3)] by blast
qed

lemma pop_pushed:
  assumes "repr h L" and "L l = Some xs" and "\<not> listed L e"
  shows "\<exists>h1 h2. push l e h = Inr h1 \<and> pop l h1 = Inr (Some (Elem e), h2) \<and> repr h2 L"
proof -
  obtain h1 where h1: "push l e h = Inr h1" "repr h1 (L(l \<mapsto> e # xs))"
    using push_law [OF assms] by blast
  then obtain h2 where "pop l h1 = Inr (Some (Elem e), h2)" "repr h2 (L(l \<mapsto> e # xs, l \<mapsto> xs))"
    using pop_law [OF h1(2), of l e xs] by auto
  then show ?thesis using h1(1) assms(2) by (auto simp: fun_upd_idem)
qed

end

interpretation stored: link_interface link_repr push_front pop_front link_remove
proof
  show "\<exists>h'. push_front l e h = Inr h' \<and> link_repr h' (L(l \<mapsto> e # xs))"
    if "link_repr h L" "L l = Some xs" "\<not> listed L e" for h L l e xs
    using push_front_refines [OF that] by blast
  show "\<exists>h'. link_remove l (Elem e) h = Inr h' \<and> link_repr h' (L(l \<mapsto> remove1 e xs))"
    if "link_repr h L" "L l = Some xs" "e \<in> set xs" for h L l e xs
    using remove_refines [OF that] by blast
qed (use pop_front_refines(2) link_reprD(2) link_repr_disj in \<open>blast+\<close>)

section \<open>Programs over the lists\<close>

text \<open>
  A sequence of calls, run on the store and on the lists.  The run on the lists fails where a call
  has no meaning: an unknown list, an element that is already listed, or one that is not in the list.
\<close>

datatype link_call = New nat | Push_front nat nat | Push_back nat nat | Pop nat | Remove nat nat | Move nat nat | Clear nat

fun call_store :: "link_call \<Rightarrow> links \<Rightarrow> links res option" where
  "call_store (New l) h = Some (Inr (Link l h))"
| "call_store (Push_front l e) h = Some (push_front l e h)"
| "call_store (Push_back l e) h = Some (push_back l e h)"
| "call_store (Pop l) h = Some (rbind (pop_front l h) (\<lambda>(e, h). Inr h))"
| "call_store (Remove l e) h = Some (link_remove l (Elem e) h)"
| "call_store (Move l m) h = Some (link_move l m h)"
| "call_store (Clear l) h = link_clear l h"

fun call_lists :: "link_call \<Rightarrow> (nat \<rightharpoonup> nat list) \<Rightarrow> (nat \<rightharpoonup> nat list) option" where
  "call_lists (New l) L = (if L l = None then Some (L(l \<mapsto> [])) else None)"
| "call_lists (Push_front l e) L =
     (case L l of Some xs \<Rightarrow> if listed L e then None else Some (L(l \<mapsto> e # xs)) | None \<Rightarrow> None)"
| "call_lists (Push_back l e) L =
     (case L l of Some xs \<Rightarrow> if listed L e then None else Some (L(l \<mapsto> xs @ [e])) | None \<Rightarrow> None)"
| "call_lists (Pop l) L = (case L l of Some xs \<Rightarrow> Some (L(l \<mapsto> tl xs)) | None \<Rightarrow> None)"
| "call_lists (Remove l e) L =
     (case L l of Some xs \<Rightarrow> if e \<in> set xs then Some (L(l \<mapsto> remove1 e xs)) else None | None \<Rightarrow> None)"
| "call_lists (Move l m) L =
     (case (L l, L m) of (Some [], Some ys) \<Rightarrow> Some (if l = m then L else L(l \<mapsto> ys, m \<mapsto> [])) | _ \<Rightarrow> None)"
| "call_lists (Clear l) L = (case L l of Some xs \<Rightarrow> Some (L(l \<mapsto> [])) | None \<Rightarrow> None)"

fun run_store :: "link_call list \<Rightarrow> links \<Rightarrow> links res option" where
  "run_store [] h = Some (Inr h)"
| "run_store (c # cs) h =
     (case call_store c h of
        Some (Inr h) \<Rightarrow> run_store cs h | Some (Inl f) \<Rightarrow> Some (Inl f) | None \<Rightarrow> None)"

fun run_lists :: "link_call list \<Rightarrow> (nat \<rightharpoonup> nat list) \<Rightarrow> (nat \<rightharpoonup> nat list) option" where
  "run_lists [] L = Some L"
| "run_lists (c # cs) L = (case call_lists c L of Some L \<Rightarrow> run_lists cs L | None \<Rightarrow> None)"

lemma pop_refines:
  assumes "link_repr h L" and "L l = Some xs"
  shows "\<exists>h'. rbind (pop_front l h) (\<lambda>(e, h). Inr h) = Inr h' \<and> link_repr h' (L(l \<mapsto> tl xs))"
proof (cases xs)
  case Nil
  then show ?thesis using pop_front_refines(1) [OF assms Nil] assms by (simp add: fun_upd_idem)
next
  case (Cons x ys)
  then show ?thesis using pop_front_refines(2) [OF assms Cons] by auto
qed

lemma Link_idem:
  assumes "link_repr h L" and "L l = Some []"
  shows "link_repr (Link l h) L"
proof (rule link_reprI)
  fix m xs
  assume m: "L m = Some xs"
  note a = link_reprD [OF assms(1) m]
  have "adj (Link l h) (cycle m xs) \<longleftrightarrow> adj h (cycle m xs)"
    using link_reprD(1) [OF assms]
    by (intro cycle_frame) (auto simp: Link_def Let_def link_field_simps set_cycle cycle_def)
  then show "adj (Link l h) (cycle m xs) \<and> distinct xs \<and> link_num (Link l h) m = word_of_nat (length xs)"
    using a assms(2) m by (auto simp: Link_def Let_def link_field_simps)
qed (rule link_repr_disj [OF assms(1)])

lemma move_refines:
  assumes "link_repr h L" and "L l = Some []" and "L m = Some ys"
  shows "\<exists>h'. link_move l m h = Inr h' \<and> link_repr h' (if l = m then L else L(l \<mapsto> ys, m \<mapsto> []))"
proof (cases "l = m")
  case False
  then show ?thesis
    using concat_refines [OF Link_idem [OF assms(1,2)] assms(2,3)] unfolding link_move_def by auto
qed (simp add: link_move_def assms(1))

lemma call_refines:
  assumes "link_repr h L" and "call_lists c L = Some L'"
  shows "\<exists>h'. call_store c h = Some (Inr h') \<and> link_repr h' L'"
  using assms
proof (cases c)
  case (Push_front l e)
  then show ?thesis using assms stored.push_law [OF assms(1)] by (auto split: option.splits if_splits)
next
  case (Push_back l e)
  then show ?thesis
    using assms push_back_refines [OF assms(1)] by (auto split: option.splits if_splits) metis
next
  case (Pop l)
  then show ?thesis using assms pop_refines [OF assms(1)] by (auto split: option.splits)
next
  case (Remove l e)
  then show ?thesis using assms stored.drop_law [OF assms(1)] by (auto split: option.splits if_splits)
next
  case (Move l m)
  then show ?thesis
    using assms move_refines [OF assms(1), of l m] by (auto split: option.splits list.splits)
next
  case (Clear l)
  then show ?thesis using assms clear_refines [OF assms(1), of l] by (auto split: option.splits)
qed (auto split: if_splits intro: Link_refines)

lemma run_refines:
  "link_repr h L \<Longrightarrow> run_lists cs L = Some L' \<Longrightarrow>
     \<exists>h'. run_store cs h = Some (Inr h') \<and> link_repr h' L'"
proof (induction cs arbitrary: h L)
  case (Cons c cs)
  then obtain L1 where L1: "call_lists c L = Some L1" "run_lists cs L1 = Some L'"
    by (auto split: option.splits)
  then obtain h1 where "call_store c h = Some (Inr h1)" "link_repr h1 L1"
    using call_refines [OF Cons.prems(1)] by blast
  then show ?case using Cons.IH [of h1 L1] L1(2) by simp
qed simp

definition no_links :: links where
  "no_links = \<lparr>link_next = (\<lambda>_. None), link_prev = (\<lambda>_. None), link_num = (\<lambda>_. 0)\<rparr>"

lemma no_links_repr: "link_repr no_links Map.empty"
  by (rule link_reprI) simp_all




end
