(* ===== verification/PhysicalMemory.thy ===== *)
theory PhysicalMemory
  imports GePrelude "HOL-Library.Multiset"
begin

text \<open>
  The pool of physical pages: \<^verbatim>\<open>PhysicalMemoryAllocator\<close> of
  \<^verbatim>\<open>runtime/v1/graph/manager/active_memory_allocator.cc\<close>.  The pool owns the pages it got from
  the driver, hands them out one owner at a time, keeps the freed ones for reuse, and records at
  which virtual addresses a page is mapped.  Unmapping is delayed: a page stays mapped until another
  owner takes it or the address range is released.

  The driver is not part of the repository.  It is an argument \<open>rt\<close>: its answers are functions of
  the calls made so far, which the state keeps as \<open>rt_trace\<close> (newest first), so that every
  sequence of answers is covered.  Log output, locks and capacity reservations are not modelled;
  a function runs under the lock from its first to its last statement.
\<close>

named_theorems pool_simps \<open>definitions of the page pool\<close>

section \<open>State\<close>

datatype mem_status = SUCCESS | MEM_FAILED | PHYSICAL_MEM_USING | NEW_VA

datatype rt_call =
    RtMallocPhysical nat nat
  | RtFreePhysical nat
  | RtMapMem nat "nat option"
  | RtUnmapMem nat
  | RtReserveMemAddress nat
  | RtReleaseMemAddress nat

text \<open>
  \<open>rtMallocPhysical\<close> gets the size and the page type and answers with a handle, \<open>rtMapMem\<close> gets
  the address, the size and the handle.  \<open>use_1g_only\<close> is the process option that
  \<^verbatim>\<open>VarManager::IsVariableUse1gHugePageOnly\<close> reads.
\<close>

record rt_driver =
  rtMallocPhysical :: "rt_call list \<Rightarrow> nat \<Rightarrow> nat \<Rightarrow> nat option"
  rtMapMem :: "rt_call list \<Rightarrow> nat \<Rightarrow> nat \<Rightarrow> nat option \<Rightarrow> bool"
  rtReserveMemAddress :: "rt_call list \<Rightarrow> nat \<Rightarrow> nat option"
  rtReleaseMemAddress :: "rt_call list \<Rightarrow> nat \<Rightarrow> bool"
  use_1g_only :: bool

definition kDrvMemPropPgType2M :: nat where "kDrvMemPropPgType2M = 1"
definition kDrvMemPropPgType1G :: nat where "kDrvMemPropPgType1G = 2"
definition kDrv1GPageSize :: nat where "kDrv1GPageSize = 2 ^ 30"
definition kLargePageSize :: nat where "kLargePageSize = 2 ^ 23"
definition kInvalidIndex :: nat where "kInvalidIndex = 2 ^ 64 - 1"

text \<open>Arithmetic of \<^verbatim>\<open>size_t\<close>.\<close>

definition add64 :: "nat \<Rightarrow> nat \<Rightarrow> nat" where "add64 a b = (a + b) mod 2 ^ 64"
definition sub64 :: "nat \<Rightarrow> nat \<Rightarrow> nat" where "sub64 a b = (a + (2 ^ 64 - b mod 2 ^ 64)) mod 2 ^ 64"

record PageRecord =
  map_va :: nat
  head_offset :: nat
  using_size :: nat
  malloc_addr :: nat
  malloc_size :: nat

text \<open>\<open>map_addrs\<close> is a \<^verbatim>\<open>std::set\<close>: a list in ascending order.\<close>

record PhysicalMemoryInfo =
  handle :: "nat option"
  ref_count :: nat
  pm_index :: nat
  physical_map_count :: nat
  in_free_list :: bool
  is_using :: bool
  is_physical_recycle :: bool
  last_pa_index :: nat
  map_addrs :: "nat list"
  va_record_table :: "PageRecord list"

definition new_PhysicalMemoryInfo :: PhysicalMemoryInfo where
  "new_PhysicalMemoryInfo =
     \<lparr>handle = None, ref_count = 0, pm_index = 0, physical_map_count = 0, in_free_list = False,
      is_using = False, is_physical_recycle = False, last_pa_index = kInvalidIndex, map_addrs = [],
      va_record_table = []\<rparr>"

record PhysicalMemoryAllocator =
  pool_ref_count :: nat
  page_size :: nat
  physical_memory_size :: nat
  pg_type :: nat
  physical_memorys :: "PhysicalMemoryInfo list"
  free_physical_memorys :: "nat list"
  rt_trace :: "rt_call list"

text \<open>The constructor; \<^verbatim>\<open>prop_()\<close> clears the property block.\<close>

definition new_PhysicalMemoryAllocator :: PhysicalMemoryAllocator where
  "new_PhysicalMemoryAllocator =
     \<lparr>pool_ref_count = 0, page_size = kLargePageSize, physical_memory_size = 0, pg_type = 0,
      physical_memorys = [], free_physical_memorys = [], rt_trace = []\<rparr>"

definition rt_log :: "rt_call \<Rightarrow> PhysicalMemoryAllocator \<Rightarrow> PhysicalMemoryAllocator" where
  "rt_log c S = S\<lparr>rt_trace := c # rt_trace S\<rparr>"

definition set_page :: "nat \<Rightarrow> PhysicalMemoryInfo \<Rightarrow> PhysicalMemoryAllocator \<Rightarrow> PhysicalMemoryAllocator" where
  "set_page i p S = S\<lparr>physical_memorys := (physical_memorys S)[i := p]\<rparr>"

section \<open>Operations\<close>

definition Initialize :: "nat \<Rightarrow> PhysicalMemoryAllocator \<Rightarrow> mem_status \<times> PhysicalMemoryAllocator" where
  "Initialize sz S =
     (let S = S\<lparr>pool_ref_count := pool_ref_count S + 1\<rparr> in
      if pool_ref_count S \<noteq> 1 then
        (if page_size S = sz then (SUCCESS, S) else (MEM_FAILED, S))
      else
        (SUCCESS, S\<lparr>page_size := sz,
                    pg_type := if sz = kDrv1GPageSize then kDrvMemPropPgType1G else kDrvMemPropPgType2M\<rparr>))"

text \<open>
  \<open>MallocPhysicalPage\<close> and \<open>MallocPhysical\<close> have \<^verbatim>\<open>pa_index\<close> as a reference: its value is a
  part of the result also when they fail.
\<close>

definition MallocPhysicalPage ::
  "rt_driver \<Rightarrow> PhysicalMemoryAllocator \<Rightarrow> mem_status \<times> nat \<times> PhysicalMemoryAllocator" where
  "MallocPhysicalPage rt S =
     (let pa_index = length (physical_memorys S);
          sz = page_size S;
          ret = rtMallocPhysical rt (rt_trace S) sz (pg_type S);
          S = rt_log (RtMallocPhysical sz (pg_type S)) S;
          (give_up, ret, S) =
            (if ret = None \<and> pg_type S = kDrvMemPropPgType1G then
               (if use_1g_only rt then (True, ret, S)
                else
                  let S = S\<lparr>pg_type := kDrvMemPropPgType2M\<rparr>;
                      ret = rtMallocPhysical rt (rt_trace S) sz (pg_type S);
                      S = rt_log (RtMallocPhysical sz (pg_type S)) S in
                  (False, ret, S))
             else (False, ret, S)) in
      if give_up then (MEM_FAILED, pa_index, S)
      else
        case ret of
          None \<Rightarrow> (MEM_FAILED, pa_index, S)
        | Some h \<Rightarrow>
            let p = new_PhysicalMemoryInfo\<lparr>pm_index := pa_index, ref_count := 1, handle := Some h\<rparr> in
            (SUCCESS, pa_index,
             S\<lparr>physical_memorys := physical_memorys S @ [p],
               physical_memory_size := add64 (physical_memory_size S) sz\<rparr>))"

text \<open>
  The loop over the pages kept for reuse: the last one of \<open>free_physical_memorys\<close> first; entries
  whose page is in use again, or was returned to the driver, are dropped.  \<open>Inl Undefined\<close> is an
  entry past the end of the pages.
\<close>

function (sequential) reuse_loop ::
  "PhysicalMemoryAllocator \<Rightarrow> (nat option \<times> PhysicalMemoryAllocator) res" where
  "reuse_loop S =
     (if free_physical_memorys S = [] then Inr (None, S)
      else
        let k = last (free_physical_memorys S);
            S1 = S\<lparr>free_physical_memorys := butlast (free_physical_memorys S)\<rparr> in
        rbind (vec_ix (physical_memorys S) k) (\<lambda>p.
          let p = p\<lparr>in_free_list := False\<rparr> in
          if ref_count p = 0 \<and> handle p \<noteq> None
          then Inr (Some (pm_index p), set_page k (p\<lparr>ref_count := ref_count p + 1\<rparr>) S1)
          else reuse_loop (set_page k p S1)))"
  by auto
termination
  by (relation "measure (\<lambda>S. length (free_physical_memorys S))") (auto simp: set_page_def Let_def)

declare reuse_loop.simps [simp del]

text \<open>The second half of \<open>MallocPhysical\<close>: another free page of the pool, or a new one.\<close>

definition other_page ::
  "rt_driver \<Rightarrow> bool \<Rightarrow> PhysicalMemoryAllocator \<Rightarrow> (mem_status \<times> nat \<times> PhysicalMemoryAllocator) res" where
  "other_page rt reuse S =
     (if reuse then
        rbind (reuse_loop S) (\<lambda>(found, S).
          case found of Some i \<Rightarrow> Inr (SUCCESS, i, S) | None \<Rightarrow> Inr (MallocPhysicalPage rt S))
      else Inr (MallocPhysicalPage rt S))"

definition MallocPhysical ::
  "rt_driver \<Rightarrow> nat \<Rightarrow> nat \<Rightarrow> bool \<Rightarrow> PhysicalMemoryAllocator \<Rightarrow>
   (mem_status \<times> nat \<times> PhysicalMemoryAllocator) res" where
  "MallocPhysical rt pa_index va reuse S =
     (if pa_index < length (physical_memorys S) then
        let p = physical_memorys S ! pa_index in
        if handle p \<noteq> None then
          if ref_count p = 0 then
            Inr (SUCCESS, pm_index p, set_page pa_index (p\<lparr>ref_count := ref_count p + 1\<rparr>) S)
          else if va \<notin> set (map_addrs p) then Inr (MEM_FAILED, pa_index, S)
          else other_page rt reuse
                 (rt_log (RtUnmapMem va) (set_page pa_index (p\<lparr>map_addrs := remove1 va (map_addrs p)\<rparr>) S))
        else other_page rt reuse S
      else other_page rt reuse S)"

definition FreePhysical :: "nat \<Rightarrow> PhysicalMemoryAllocator \<Rightarrow> mem_status \<times> PhysicalMemoryAllocator" where
  "FreePhysical pa_index S =
     (if \<not> pa_index < length (physical_memorys S) then (MEM_FAILED, S)
      else
        let p = physical_memorys S ! pa_index;
            p = (if 0 < ref_count p then p\<lparr>ref_count := ref_count p - 1\<rparr> else p) in
        if \<not> in_free_list p \<and> ref_count p = 0 \<and> handle p \<noteq> None
        then (SUCCESS, (set_page pa_index (p\<lparr>in_free_list := True\<rparr>) S)
                       \<lparr>free_physical_memorys := free_physical_memorys S @ [pm_index p]\<rparr>)
        else (SUCCESS, set_page pa_index p S))"

definition MapMem ::
  "rt_driver \<Rightarrow> nat \<Rightarrow> nat \<Rightarrow> PhysicalMemoryAllocator \<Rightarrow> mem_status \<times> PhysicalMemoryAllocator" where
  "MapMem rt va pa_index S =
     (if \<not> pa_index < length (physical_memorys S) then (MEM_FAILED, S)
      else
        let p = physical_memorys S ! pa_index in
        if va \<in> set (map_addrs p) then (SUCCESS, S)
        else if \<not> rtMapMem rt (rt_trace S) va (page_size S) (handle p) then (MEM_FAILED, S)
        else (SUCCESS, rt_log (RtMapMem va (handle p))
                         (set_page pa_index (p\<lparr>map_addrs := insort va (map_addrs p)\<rparr>) S)))"

definition UnmapMem :: "nat \<Rightarrow> nat \<Rightarrow> PhysicalMemoryAllocator \<Rightarrow> mem_status \<times> PhysicalMemoryAllocator" where
  "UnmapMem va pa_index S =
     (if \<not> pa_index < length (physical_memorys S) then (MEM_FAILED, S)
      else if va \<notin> set (map_addrs (physical_memorys S ! pa_index)) then (MEM_FAILED, S)
      else (SUCCESS, S))"

definition ReserveMemAddress ::
  "rt_driver \<Rightarrow> nat \<Rightarrow> PhysicalMemoryAllocator \<Rightarrow> nat option \<times> PhysicalMemoryAllocator" where
  "ReserveMemAddress rt sz S = (rtReserveMemAddress rt (rt_trace S) sz, rt_log (RtReserveMemAddress sz) S)"

definition in_va_range :: "nat \<Rightarrow> nat \<Rightarrow> nat \<Rightarrow> bool" where
  "in_va_range va sz a \<longleftrightarrow> va \<le> a \<and> a - va < sz"

fun release_pages :: "nat \<Rightarrow> nat \<Rightarrow> PhysicalMemoryInfo list \<Rightarrow> PhysicalMemoryInfo list \<times> rt_call list" where
  "release_pages va sz [] = ([], [])"
| "release_pages va sz (p # ps) =
     (let (qs, cs) = release_pages va sz ps in
      (p\<lparr>map_addrs := filter (\<lambda>a. \<not> in_va_range va sz a) (map_addrs p)\<rparr> # qs,
       map RtUnmapMem (filter (in_va_range va sz) (map_addrs p)) @ cs))"

definition ReleaseMemAddress ::
  "rt_driver \<Rightarrow> nat \<Rightarrow> nat \<Rightarrow> PhysicalMemoryAllocator \<Rightarrow> mem_status \<times> PhysicalMemoryAllocator" where
  "ReleaseMemAddress rt va sz S =
     (let (ps, calls) = release_pages va sz (physical_memorys S);
          S = S\<lparr>physical_memorys := ps, rt_trace := rev calls @ rt_trace S\<rparr>;
          ok = rtReleaseMemAddress rt (rt_trace S) va;
          S = rt_log (RtReleaseMemAddress va) S in
      (if ok then SUCCESS else MEM_FAILED, S))"

definition FreePhysicalPage :: "nat \<Rightarrow> PhysicalMemoryAllocator \<Rightarrow> PhysicalMemoryAllocator" where
  "FreePhysicalPage i S =
     (let p = physical_memorys S ! i in
      case handle p of
        None \<Rightarrow> S
      | Some h \<Rightarrow>
          (rt_log (RtFreePhysical h) (set_page i (p\<lparr>handle := None\<rparr>) S))
          \<lparr>physical_memory_size := sub64 (physical_memory_size S) (page_size S)\<rparr>)"

text \<open>The loop of \<open>Finalize\<close> over the pages, with the outer reference count at 0.\<close>

fun finalize_loop :: "nat list \<Rightarrow> PhysicalMemoryAllocator \<Rightarrow> PhysicalMemoryAllocator" where
  "finalize_loop [] S = S"
| "finalize_loop (i # is) S =
     (let p = physical_memorys S ! i in
      if ref_count p \<noteq> 0 \<or> map_addrs p \<noteq> [] then finalize_loop is S
      else finalize_loop is (FreePhysicalPage i S))"

definition Finalize ::
  "rt_driver \<Rightarrow> nat \<Rightarrow> nat \<Rightarrow> PhysicalMemoryAllocator \<Rightarrow> PhysicalMemoryAllocator" where
  "Finalize rt va sz S =
     (let S = snd (ReleaseMemAddress rt va sz S);
          S = (if 0 < pool_ref_count S then S\<lparr>pool_ref_count := pool_ref_count S - 1\<rparr> else S);
          S = (if pool_ref_count S \<noteq> 0 then S else finalize_loop [0..<length (physical_memorys S)] S) in
      if physical_memory_size S = 0 then S\<lparr>physical_memorys := []\<rparr> else S)"

section \<open>The check of virtual against physical addresses\<close>

definition HasIntersection :: "PageRecord \<Rightarrow> PageRecord \<Rightarrow> bool" where
  "HasIntersection left right \<longleftrightarrow>
     head_offset left < head_offset right + using_size right \<and>
     head_offset right < head_offset left + using_size left"

definition AddPageRecord ::
  "nat \<Rightarrow> PageRecord \<Rightarrow> PhysicalMemoryAllocator \<Rightarrow> mem_status \<times> PhysicalMemoryAllocator" where
  "AddPageRecord pa_index r S =
     (if \<not> pa_index < length (physical_memorys S) then (MEM_FAILED, S)
      else
        let p = physical_memorys S ! pa_index; t = va_record_table p in
        if t \<noteq> [] \<and> map_va (hd t) \<noteq> map_va r then (MEM_FAILED, S)
        else if \<exists>u \<in> set t. head_offset u \<noteq> head_offset r \<and> HasIntersection u r then (MEM_FAILED, S)
        else (SUCCESS, set_page pa_index (p\<lparr>va_record_table := t @ [r]\<rparr>) S))"

fun erase_record :: "PageRecord \<Rightarrow> PageRecord list \<Rightarrow> PageRecord list" where
  "erase_record r [] = []"
| "erase_record r (u # us) =
     (if head_offset u = head_offset r \<and> using_size u = using_size r then us else u # erase_record r us)"

definition DelPageRecord :: "nat \<Rightarrow> PageRecord \<Rightarrow> PhysicalMemoryAllocator \<Rightarrow> PhysicalMemoryAllocator" where
  "DelPageRecord pa_index r S =
     (if pa_index < length (physical_memorys S) then
        let p = physical_memorys S ! pa_index in
        set_page pa_index (p\<lparr>va_record_table := erase_record r (va_record_table p)\<rparr>) S
      else S)"

section \<open>Invariant of the pool\<close>

text \<open>
  The mappings the driver holds after a sequence of calls (newest first), and those the pool believes
  in.
\<close>

fun mapped :: "rt_call list \<Rightarrow> (nat \<times> nat option) set" where
  "mapped [] = {}"
| "mapped (RtMapMem va h # cs) = insert (va, h) (mapped cs)"
| "mapped (RtUnmapMem va # cs) = {m \<in> mapped cs. fst m \<noteq> va}"
| "mapped (_ # cs) = mapped cs"

definition table :: "PhysicalMemoryInfo list \<Rightarrow> (nat \<times> nat option) set" where
  "table ps = {(a, handle (ps ! i)) | a i. i < length ps \<and> a \<in> set (map_addrs (ps ! i))}"

definition page_ok :: "nat \<Rightarrow> PhysicalMemoryInfo \<Rightarrow> bool" where
  "page_ok i p \<longleftrightarrow> pm_index p = i \<and> ref_count p \<le> 1 \<and> sorted (map_addrs p) \<and> distinct (map_addrs p) \<and>
     (handle p = None \<longrightarrow> ref_count p = 0 \<and> map_addrs p = [])"

definition free_ok :: "PhysicalMemoryInfo list \<Rightarrow> nat list \<Rightarrow> bool" where
  "free_ok ps fl \<longleftrightarrow> distinct fl \<and> (\<forall>i. i \<in> set fl \<longleftrightarrow> i < length ps \<and> in_free_list (ps ! i))"

definition held :: "PhysicalMemoryInfo list \<Rightarrow> nat" where
  "held ps = length (filter (\<lambda>p. handle p \<noteq> None) ps)"

definition apart :: "PhysicalMemoryInfo list \<Rightarrow> bool" where
  "apart ps \<longleftrightarrow> (\<forall>i j a. i < length ps \<longrightarrow> j < length ps \<longrightarrow> a \<in> set (map_addrs (ps ! i)) \<longrightarrow>
     a \<in> set (map_addrs (ps ! j)) \<longrightarrow> i = j)"

definition pool_inv :: "PhysicalMemoryAllocator \<Rightarrow> bool" where
  "pool_inv S \<longleftrightarrow>
     (\<forall>i < length (physical_memorys S). page_ok i (physical_memorys S ! i)) \<and>
     free_ok (physical_memorys S) (free_physical_memorys S) \<and>
     0 < page_size S \<and>
     physical_memory_size S = page_size S * held (physical_memorys S) \<and>
     physical_memory_size S < 2 ^ 64 \<and>
     apart (physical_memorys S) \<and>
     mapped (rt_trace S) = table (physical_memorys S)"

definition owners :: "PhysicalMemoryAllocator \<Rightarrow> nat set" where
  "owners S = {i. i < length (physical_memorys S) \<and> 0 < ref_count (physical_memorys S ! i)}"

lemma pool_invD:
  assumes "pool_inv S"
  shows "\<And>i. i < length (physical_memorys S) \<Longrightarrow> page_ok i (physical_memorys S ! i)"
    and "free_ok (physical_memorys S) (free_physical_memorys S)" and "0 < page_size S"
    and "physical_memory_size S = page_size S * held (physical_memorys S)"
    and "physical_memory_size S < 2 ^ 64" and "apart (physical_memorys S)"
    and "mapped (rt_trace S) = table (physical_memorys S)"
  using assms unfolding pool_inv_def by blast+

subsection \<open>How the parts change\<close>

lemma free_okD: "free_ok ps fl \<Longrightarrow> i \<in> set fl \<longleftrightarrow> i < length ps \<and> in_free_list (ps ! i)"
  by (simp add: free_ok_def)

lemma free_okI:
  "distinct fl \<Longrightarrow> (\<And>i. i \<in> set fl \<longleftrightarrow> i < length ps \<and> in_free_list (ps ! i)) \<Longrightarrow> free_ok ps fl"
  by (simp add: free_ok_def)

lemma free_ok_set:
  assumes "free_ok ps fl" and "i < length ps" and "in_free_list q = in_free_list (ps ! i)"
  shows "free_ok (ps[i := q]) fl"
proof (rule free_okI)
  show "distinct fl" using assms(1) by (simp add: free_ok_def)
  show "j \<in> set fl \<longleftrightarrow> j < length (ps[i := q]) \<and> in_free_list (ps[i := q] ! j)" for j
    using free_okD [OF assms(1), of j] assms(2,3) by (cases "j = i") simp_all
qed

lemma free_ok_pop:
  assumes "free_ok ps (fl @ [k])" and "\<not> in_free_list q"
  shows "free_ok (ps[k := q]) fl"
proof (rule free_okI)
  have d: "distinct (fl @ [k])" using assms(1) by (simp add: free_ok_def)
  then show "distinct fl" by simp
  show "j \<in> set fl \<longleftrightarrow> j < length (ps[k := q]) \<and> in_free_list (ps[k := q] ! j)" for j
    using free_okD [OF assms(1), of j] d assms(2) by (cases "j = k") simp_all
qed

lemma free_ok_push:
  assumes "free_ok ps fl" and "i < length ps" and "\<not> in_free_list (ps ! i)" and "in_free_list q"
  shows "free_ok (ps[i := q]) (fl @ [i])"
proof (rule free_okI)
  show "distinct (fl @ [i])" using assms(1,3) free_okD [OF assms(1), of i] by (simp add: free_ok_def)
  show "j \<in> set (fl @ [i]) \<longleftrightarrow> j < length (ps[i := q]) \<and> in_free_list (ps[i := q] ! j)" for j
    using free_okD [OF assms(1), of j] assms(2,4) by (cases "j = i") simp_all
qed

lemma free_ok_new:
  assumes "free_ok ps fl" and "\<not> in_free_list q"
  shows "free_ok (ps @ [q]) fl"
proof (rule free_okI)
  show "distinct fl" using assms(1) by (simp add: free_ok_def)
  show "j \<in> set fl \<longleftrightarrow> j < length (ps @ [q]) \<and> in_free_list ((ps @ [q]) ! j)" for j
    using free_okD [OF assms(1), of j] assms(2)
    by (cases "j < length ps"; cases "j = length ps") (simp_all add: nth_append)
qed

lemma held_set:
  "i < length ps \<Longrightarrow> (handle q = None) = (handle (ps ! i) = None) \<Longrightarrow> held (ps[i := q]) = held ps"
  by (induction ps arbitrary: i) (auto simp: held_def split: nat.splits)

lemma held_free:
  "i < length ps \<Longrightarrow> handle (ps ! i) \<noteq> None \<Longrightarrow> handle q = None \<Longrightarrow> Suc (held (ps[i := q])) = held ps"
  by (induction ps arbitrary: i) (auto simp: held_def split: nat.splits)

lemma held_new: "handle q \<noteq> None \<Longrightarrow> held (ps @ [q]) = Suc (held ps)"
  by (auto simp: held_def)

lemma held_0: "held ps = 0 \<longleftrightarrow> (\<forall>p \<in> set ps. handle p = None)"
  by (auto simp: held_def filter_empty_conv)

lemma tableI: "i < length ps \<Longrightarrow> a \<in> set (map_addrs (ps ! i)) \<Longrightarrow> h = handle (ps ! i) \<Longrightarrow> (a, h) \<in> table ps"
  unfolding table_def by blast

lemma tableE:
  assumes "m \<in> table ps"
  obtains a i where "m = (a, handle (ps ! i))" and "i < length ps" and "a \<in> set (map_addrs (ps ! i))"
  using assms unfolding table_def by blast

lemma table_set_sub:
  assumes "i < length ps" and "set (map_addrs q) \<subseteq> set (map_addrs (ps ! i))" and "handle q = handle (ps ! i)"
  shows "table (ps[i := q]) \<subseteq> table ps"
proof
  fix m
  assume "m \<in> table (ps[i := q])"
  then obtain a j where "m = (a, handle (ps[i := q] ! j))" "j < length ps" "a \<in> set (map_addrs (ps[i := q] ! j))"
    by (auto elim: tableE)
  then show "m \<in> table ps" using assms by (cases "j = i") (auto intro: tableI)
qed

lemma table_set:
  assumes "i < length ps" and "map_addrs q = map_addrs (ps ! i)" and "handle q = handle (ps ! i)"
  shows "table (ps[i := q]) = table ps"
  using table_set_sub [of i ps q] table_set_sub [of i "ps[i := q]" "ps ! i"] assms by simp

lemma apartD:
  "apart ps \<Longrightarrow> i < length ps \<Longrightarrow> j < length ps \<Longrightarrow> a \<in> set (map_addrs (ps ! i)) \<Longrightarrow>
     a \<in> set (map_addrs (ps ! j)) \<Longrightarrow> i = j"
  unfolding apart_def by blast

lemma apartI:
  "(\<And>i j a. i < length ps \<Longrightarrow> j < length ps \<Longrightarrow> a \<in> set (map_addrs (ps ! i)) \<Longrightarrow>
      a \<in> set (map_addrs (ps ! j)) \<Longrightarrow> i = j) \<Longrightarrow> apart ps"
  unfolding apart_def by blast

lemma apart_set:
  assumes "apart ps" and "i < length ps"
    and new: "\<And>a j. a \<in> set (map_addrs q) \<Longrightarrow> j < length ps \<Longrightarrow> a \<in> set (map_addrs (ps ! j)) \<Longrightarrow> j = i"
  shows "apart (ps[i := q])"
proof (rule apartI)
  fix j k a
  assume j: "j < length (ps[i := q])" "a \<in> set (map_addrs (ps[i := q] ! j))"
    and k: "k < length (ps[i := q])" "a \<in> set (map_addrs (ps[i := q] ! k))"
  consider "j = i" "k = i" | "j = i" "k \<noteq> i" | "j \<noteq> i" "k = i" | "j \<noteq> i" "k \<noteq> i" by blast
  then show "j = k"
  proof cases
    case 2
    then show ?thesis using new [of a k] assms(2) j k by simp
  next
    case 3
    then show ?thesis using new [of a j] assms(2) j k by simp
  next
    case 4
    show ?thesis by (rule apartD [OF assms(1)]) (use 4 j k in simp_all)
  qed simp
qed

subsection \<open>The operations keep the invariant\<close>

lemma pool_inv_pages:
  assumes "pool_inv S" and "length ps = length (physical_memorys S)"
    and "\<And>i. i < length ps \<Longrightarrow> page_ok i (ps ! i)" and "free_ok ps fl"
    and "held ps = held (physical_memorys S)" and "apart ps" and "mapped tr = table ps"
  shows "pool_inv (S\<lparr>physical_memorys := ps, free_physical_memorys := fl, rt_trace := tr\<rparr>)"
  using assms pool_invD [OF assms(1)] unfolding pool_inv_def by simp

lemma page_ok_set:
  assumes "pool_inv S" and "page_ok i q" and "j < length (physical_memorys S)"
  shows "page_ok j ((physical_memorys S)[i := q] ! j)"
  using pool_invD(1) [OF assms(1,3)] assms(2,3) by (cases "i = j") simp_all

lemma pool_inv_page:
  assumes "pool_inv S" and i: "i < length (physical_memorys S)" and q: "page_ok i q"
    and same: "in_free_list q = in_free_list (physical_memorys S ! i)"
      "map_addrs q = map_addrs (physical_memorys S ! i)" "handle q = handle (physical_memorys S ! i)"
  shows "pool_inv (set_page i q S)"
proof -
  have "apart ((physical_memorys S)[i := q])"
    by (rule apart_set [OF pool_invD(6) [OF assms(1)] i]) (use apartD [OF pool_invD(6) [OF assms(1)]] i same in auto)
  then have "pool_inv (S\<lparr>physical_memorys := (physical_memorys S)[i := q],
      free_physical_memorys := free_physical_memorys S, rt_trace := rt_trace S\<rparr>)"
    using pool_invD [OF assms(1)] same i
    by (intro pool_inv_pages [OF assms(1)] page_ok_set [OF assms(1) q] free_ok_set)
      (simp_all add: held_set table_set)
  then show ?thesis by (simp add: set_page_def)
qed

lemma pool_inv_pop:
  assumes "pool_inv S" and fl: "free_physical_memorys S = fl @ [k]" and q: "page_ok k q" "\<not> in_free_list q"
    and same: "map_addrs q = map_addrs (physical_memorys S ! k)" "handle q = handle (physical_memorys S ! k)"
  shows "k < length (physical_memorys S)" and "pool_inv (set_page k q (S\<lparr>free_physical_memorys := fl\<rparr>))"
proof -
  note f = pool_invD(2) [OF assms(1), unfolded fl]
  show k: "k < length (physical_memorys S)" using free_okD [OF f, of k] by simp
  have "apart ((physical_memorys S)[k := q])"
    by (rule apart_set [OF pool_invD(6) [OF assms(1)] k]) (use apartD [OF pool_invD(6) [OF assms(1)]] k same in auto)
  then have "pool_inv (S\<lparr>physical_memorys := (physical_memorys S)[k := q],
      free_physical_memorys := fl, rt_trace := rt_trace S\<rparr>)"
    using pool_invD [OF assms(1)] same k f
    by (intro pool_inv_pages [OF assms(1)] page_ok_set [OF assms(1) q(1)] free_ok_pop [OF f q(2)])
      (simp_all add: held_set table_set)
  then show "pool_inv (set_page k q (S\<lparr>free_physical_memorys := fl\<rparr>))" by (cases S) (simp add: set_page_def)
qed

lemma owners_set_page:
  "i < length (physical_memorys S) \<Longrightarrow>
     owners (set_page i q S) = (if 0 < ref_count q then insert i (owners S) else owners S - {i})"
  by (auto simp: owners_def set_page_def nth_list_update split: if_splits)

lemma owners_free_list [simp]: "owners (S\<lparr>free_physical_memorys := fl\<rparr>) = owners S"
  by (simp add: owners_def)

text \<open>The outcome of the search for a page to reuse.\<close>

definition reused :: "PhysicalMemoryAllocator \<Rightarrow> nat option \<times> PhysicalMemoryAllocator \<Rightarrow> bool" where
  "reused S r \<longleftrightarrow> (case r of (found, S') \<Rightarrow> pool_inv S' \<and> page_size S' = page_size S \<and>
     held (physical_memorys S') = held (physical_memorys S) \<and>
     (case found of None \<Rightarrow> owners S' = owners S
      | Some i \<Rightarrow> i < length (physical_memorys S') \<and> i \<notin> owners S \<and> owners S' = insert i (owners S)))"

lemma reused_trans:
  "owners S1 = owners S \<Longrightarrow> page_size S1 = page_size S \<Longrightarrow>
     held (physical_memorys S1) = held (physical_memorys S) \<Longrightarrow> reused S1 r = reused S r"
  by (cases r) (simp add: reused_def split: option.split)

lemma reuse_loop_inv:
  assumes "pool_inv S"
  shows "\<exists>r. reuse_loop S = Inr r \<and> reused S r"
  using assms
proof (induction S rule: reuse_loop.induct)
  case (1 S)
  show ?case
  proof (cases "free_physical_memorys S" rule: rev_cases)
    case Nil
    then show ?thesis using 1(2) by (subst reuse_loop.simps) (simp add: reused_def)
  next
    case (snoc fl k)
    let ?p = "physical_memorys S ! k" and ?S1 = "S\<lparr>free_physical_memorys := fl\<rparr>"
    let ?q = "?p\<lparr>in_free_list := False\<rparr>"
    have k: "k < length (physical_memorys S)"
      using free_okD [OF pool_invD(2) [OF 1(2)], of k] by (simp add: snoc)
    have ok: "page_ok k ?p" by (rule pool_invD(1) [OF 1(2) k])
    have ix: "vec_ix (physical_memorys S) k = Inr ?p" by (rule vec_ix_in [OF k])
    show ?thesis
    proof (cases "ref_count ?p = 0 \<and> handle ?p \<noteq> None")
      case True
      let ?S = "set_page k (?q\<lparr>ref_count := 1\<rparr>) ?S1"
      have "pool_inv ?S"
        using ok True by (intro pool_inv_pop [OF 1(2) snoc]) (auto simp: page_ok_def)
      then have "reused S (Some k, ?S)"
        using True k by (auto simp: reused_def set_page_def held_set owners_def nth_list_update)
      moreover have "reuse_loop S = Inr (Some k, ?S)"
        using True ix ok snoc by (subst reuse_loop.simps) (simp add: page_ok_def Let_def)
      ultimately show ?thesis by blast
    next
      case False
      let ?S = "set_page k ?q ?S1"
      have inv: "pool_inv ?S"
        using ok by (intro pool_inv_pop [OF 1(2) snoc]) (auto simp: page_ok_def)
      have "\<exists>r. reuse_loop ?S = Inr r \<and> reused ?S r"
        by (rule 1(1) [OF _ _ _ ix refl _ inv]) (use snoc False in simp_all)
      moreover have "reused ?S = reused S"
        using k by (intro ext reused_trans) (auto simp: set_page_def held_set owners_def nth_list_update)
      moreover have "reuse_loop S = reuse_loop ?S"
        using False ix snoc by (subst reuse_loop.simps) (auto simp: Let_def)
      ultimately show ?thesis by simp
    qed
  qed
qed

lemma MallocPhysicalPage_cases:
  obtains tr pg where "MallocPhysicalPage rt S = (MEM_FAILED, length (physical_memorys S), S\<lparr>pg_type := pg, rt_trace := tr\<rparr>)"
      and "mapped tr = mapped (rt_trace S)"
  | tr pg h where "MallocPhysicalPage rt S = (SUCCESS, length (physical_memorys S),
      S\<lparr>pg_type := pg, rt_trace := tr,
        physical_memorys := physical_memorys S @
          [new_PhysicalMemoryInfo\<lparr>pm_index := length (physical_memorys S), ref_count := 1, handle := Some h\<rparr>],
        physical_memory_size := add64 (physical_memory_size S) (page_size S)\<rparr>)"
      and "mapped tr = mapped (rt_trace S)"
proof -
  let ?c = "RtMallocPhysical (page_size S)"
  show thesis
  proof (cases "rtMallocPhysical rt (rt_trace S) (page_size S) (pg_type S)")
    case (Some h)
    then show thesis
      using that(2) [where pg = "pg_type S" and tr = "?c (pg_type S) # rt_trace S" and h = h]
      by (simp add: MallocPhysicalPage_def Let_def rt_log_def)
  next
    case None
    note N = this
    show thesis
    proof (cases "pg_type S = kDrvMemPropPgType1G \<and> \<not> use_1g_only rt")
      case False
      with N that(1) [where pg = "pg_type S" and tr = "?c (pg_type S) # rt_trace S"] show thesis
        by (auto simp: MallocPhysicalPage_def Let_def rt_log_def)
    next
      case True
      let ?tr = "?c (pg_type S) # rt_trace S"
      let ?tr2 = "?c kDrvMemPropPgType2M # ?tr"
      from N True that(1) [where pg = kDrvMemPropPgType2M and tr = ?tr2]
        that(2) [where pg = kDrvMemPropPgType2M and tr = ?tr2] show thesis
        by (cases "rtMallocPhysical rt ?tr (page_size S) kDrvMemPropPgType2M")
          (auto simp: MallocPhysicalPage_def Let_def rt_log_def)
    qed
  qed
qed

lemma table_append_new: "map_addrs q = [] \<Longrightarrow> table (ps @ [q]) = table ps"
  by (auto simp: table_def nth_append less_Suc_eq)

lemma apart_append_new: "map_addrs q = [] \<Longrightarrow> apart ps \<Longrightarrow> apart (ps @ [q])"
  by (rule apartI) (auto simp: nth_append less_Suc_eq dest: apartD split: if_splits)

text \<open>The outcome of an allocation: a page that had no owner before, or no change of ownership.\<close>

definition handed_out :: "PhysicalMemoryAllocator \<Rightarrow> mem_status \<times> nat \<times> PhysicalMemoryAllocator \<Rightarrow> bool" where
  "handed_out S r \<longleftrightarrow> (case r of (st, pa, S') \<Rightarrow> pool_inv S' \<and>
     (if st = SUCCESS then pa < length (physical_memorys S') \<and> pa \<notin> owners S \<and> owners S' = insert pa (owners S)
      else st = MEM_FAILED \<and> owners S' = owners S))"

lemma handed_out_owners: "owners S' = owners S \<Longrightarrow> handed_out S' r = handed_out S r"
  by (simp add: handed_out_def)

lemma MallocPhysicalPage_inv:
  assumes inv: "pool_inv S" and fits: "page_size S * (held (physical_memorys S) + 1) < 2 ^ 64"
  shows "handed_out S (MallocPhysicalPage rt S)"
proof (cases rt S rule: MallocPhysicalPage_cases)
  case (1 tr pg)
  then have "pool_inv (S\<lparr>pg_type := pg, rt_trace := tr\<rparr>)"
    using inv unfolding pool_inv_def by simp
  then show ?thesis using 1 by (simp add: handed_out_def owners_def)
next
  case (2 tr pg h)
  let ?p = "new_PhysicalMemoryInfo\<lparr>pm_index := length (physical_memorys S), ref_count := 1, handle := Some h\<rparr>"
  have ok: "page_ok (length (physical_memorys S)) ?p" by (simp add: page_ok_def new_PhysicalMemoryInfo_def)
  have size: "add64 (physical_memory_size S) (page_size S) = page_size S * held (physical_memorys S @ [?p])"
    using pool_invD(4) [OF inv] fits by (simp add: add64_def held_new algebra_simps)
  have "pool_inv (S\<lparr>pg_type := pg, rt_trace := tr, physical_memorys := physical_memorys S @ [?p],
      physical_memory_size := add64 (physical_memory_size S) (page_size S)\<rparr>)"
    using pool_invD [OF inv] ok 2(2) fits unfolding pool_inv_def size
    by (auto simp: nth_append less_Suc_eq held_new algebra_simps new_PhysicalMemoryInfo_def
        intro!: free_ok_new apart_append_new table_append_new [symmetric])
  then show ?thesis
    using 2 by (auto simp: handed_out_def owners_def nth_append new_PhysicalMemoryInfo_def)
qed

lemma pool_inv_unmap:
  assumes inv: "pool_inv S" and i: "i < length (physical_memorys S)"
    and va: "va \<in> set (map_addrs (physical_memorys S ! i))"
  defines "q \<equiv> (physical_memorys S ! i)\<lparr>map_addrs := remove1 va (map_addrs (physical_memorys S ! i))\<rparr>"
  shows "pool_inv (rt_log (RtUnmapMem va) (set_page i q S))"
proof -
  let ?ps = "(physical_memorys S)[i := q]"
  note ok = pool_invD(1) [OF inv i] and ap = pool_invD(6) [OF inv]
  have q: "page_ok i q" using ok by (auto simp: q_def page_ok_def sorted_remove1)
  have sq: "set (map_addrs q) = set (map_addrs (physical_memorys S ! i)) - {va}"
    using ok by (simp add: q_def page_ok_def)
  have ap': "apart ?ps" by (rule apart_set [OF ap i]) (use apartD [OF ap] i sq in blast)
  have "table ?ps = {m \<in> table (physical_memorys S). fst m \<noteq> va}"
  proof (intro set_eqI iffI)
    fix m
    assume "m \<in> table ?ps"
    then obtain a j where m: "m = (a, handle (?ps ! j))" "j < length (physical_memorys S)" "a \<in> set (map_addrs (?ps ! j))"
      by (auto elim: tableE)
    then show "m \<in> {m \<in> table (physical_memorys S). fst m \<noteq> va}"
      using apartD [OF ap i, of j va] va sq i by (cases "j = i") (auto intro: tableI simp: q_def)
  next
    fix m
    assume "m \<in> {m \<in> table (physical_memorys S). fst m \<noteq> va}"
    then obtain a j where m: "m = (a, handle (physical_memorys S ! j))" "j < length (physical_memorys S)"
      "a \<in> set (map_addrs (physical_memorys S ! j))" "a \<noteq> va"
      by (auto elim: tableE)
    then show "m \<in> table ?ps"
      using sq i by (intro tableI [of j ?ps a "handle (physical_memorys S ! j)", folded m(1)])
        (auto simp: nth_list_update q_def)
  qed
  then have "pool_inv (S\<lparr>physical_memorys := ?ps, free_physical_memorys := free_physical_memorys S,
      rt_trace := RtUnmapMem va # rt_trace S\<rparr>)"
    using pool_invD [OF inv] i q ap'
    by (intro pool_inv_pages [OF inv] page_ok_set [OF inv q] free_ok_set) (simp_all add: q_def held_set)
  then show ?thesis by (simp add: set_page_def rt_log_def)
qed

lemma other_page_inv:
  assumes "pool_inv S" and "page_size S * (held (physical_memorys S) + 1) < 2 ^ 64"
  shows "\<exists>r. other_page rt reuse S = Inr r \<and> handed_out S r"
proof (cases reuse)
  case False
  then show ?thesis using MallocPhysicalPage_inv [OF assms] by (simp add: other_page_def)
next
  case True
  obtain r S' where "reuse_loop S = Inr (r, S')" and S': "reused S (r, S')"
    using reuse_loop_inv [OF assms(1)] by auto
  then have run: "other_page rt reuse S = (case r of Some i \<Rightarrow> Inr (SUCCESS, i, S') | None \<Rightarrow> Inr (MallocPhysicalPage rt S'))"
    using True by (simp add: other_page_def)
  show ?thesis
  proof (cases r)
    case None
    with S' have "owners S' = owners S" by (simp add: reused_def)
    moreover have "handed_out S' (MallocPhysicalPage rt S')"
      by (rule MallocPhysicalPage_inv) (use S' assms None in \<open>simp_all add: reused_def\<close>)
    ultimately show ?thesis using run None handed_out_owners [of S' S] by simp
  next
    case (Some i)
    then show ?thesis using run S' by (simp add: handed_out_def reused_def)
  qed
qed

lemma MallocPhysical_inv:
  assumes inv: "pool_inv S" and fits: "page_size S * (held (physical_memorys S) + 1) < 2 ^ 64"
  shows "\<exists>r. MallocPhysical rt pa va reuse S = Inr r \<and> handed_out S r"
proof -
  let ?p = "physical_memorys S ! pa"
  consider (fresh) "\<not> (pa < length (physical_memorys S) \<and> handle ?p \<noteq> None)"
    | (self) "pa < length (physical_memorys S)" "handle ?p \<noteq> None" "ref_count ?p = 0"
    | (lost) "pa < length (physical_memorys S)" "handle ?p \<noteq> None" "ref_count ?p \<noteq> 0" "va \<notin> set (map_addrs ?p)"
    | (taken) "pa < length (physical_memorys S)" "handle ?p \<noteq> None" "ref_count ?p \<noteq> 0" "va \<in> set (map_addrs ?p)"
    by blast
  then show ?thesis
  proof cases
    case fresh
    then have "MallocPhysical rt pa va reuse S = other_page rt reuse S"
      unfolding MallocPhysical_def Let_def by argo
    then show ?thesis using other_page_inv [OF assms] by simp
  next
    case self
    have ok: "page_ok pa ?p" by (rule pool_invD(1) [OF inv self(1)])
    have "pool_inv (set_page pa (?p\<lparr>ref_count := 1\<rparr>) S)"
      using ok self by (intro pool_inv_page [OF inv]) (auto simp: page_ok_def)
    then have "handed_out S (SUCCESS, pa, set_page pa (?p\<lparr>ref_count := 1\<rparr>) S)"
      using self by (simp add: handed_out_def owners_set_page, simp add: set_page_def owners_def)
    then show ?thesis using self ok by (simp add: MallocPhysical_def page_ok_def)
  next
    case lost
    then show ?thesis using inv by (simp add: MallocPhysical_def handed_out_def)
  next
    case taken
    let ?S = "rt_log (RtUnmapMem va) (set_page pa (?p\<lparr>map_addrs := remove1 va (map_addrs ?p)\<rparr>) S)"
    have S: "pool_inv ?S" "page_size ?S = page_size S" "held (physical_memorys ?S) = held (physical_memorys S)"
      "owners ?S = owners S"
      using pool_inv_unmap [OF inv taken(1,4)] taken
      by (auto simp: rt_log_def set_page_def held_set owners_def nth_list_update)
    have "MallocPhysical rt pa va reuse S = other_page rt reuse ?S"
      using taken by (simp add: MallocPhysical_def Let_def)
    then show ?thesis
      using other_page_inv [OF S(1)] fits handed_out_owners [OF S(4)] unfolding S(2,3) by metis
  qed
qed

lemma pool_inv_push:
  assumes inv: "pool_inv S" and i: "i < length (physical_memorys S)" and q: "page_ok i q"
    and flags: "\<not> in_free_list (physical_memorys S ! i)" "in_free_list q"
    and same: "map_addrs q = map_addrs (physical_memorys S ! i)" "handle q = handle (physical_memorys S ! i)"
  shows "pool_inv ((set_page i q S)\<lparr>free_physical_memorys := free_physical_memorys S @ [i]\<rparr>)"
proof -
  have "apart ((physical_memorys S)[i := q])"
    by (rule apart_set [OF pool_invD(6) [OF inv] i]) (use apartD [OF pool_invD(6) [OF inv]] i same in auto)
  then have "pool_inv (S\<lparr>physical_memorys := (physical_memorys S)[i := q],
      free_physical_memorys := free_physical_memorys S @ [i], rt_trace := rt_trace S\<rparr>)"
    using pool_invD [OF inv] same i flags
    by (intro pool_inv_pages [OF inv] page_ok_set [OF inv q] free_ok_push) (simp_all add: held_set table_set)
  then show ?thesis by (simp add: set_page_def)
qed

lemma FreePhysical_inv:
  assumes inv: "pool_inv S"
  shows "pool_inv (snd (FreePhysical pa S))" and "owners (snd (FreePhysical pa S)) = owners S - {pa}"
proof -
  let ?p = "physical_memorys S ! pa"
  let ?q = "?p\<lparr>ref_count := 0\<rparr>"
  have "pool_inv (snd (FreePhysical pa S)) \<and> owners (snd (FreePhysical pa S)) = owners S - {pa}"
  proof (cases "pa < length (physical_memorys S)")
    case False
    then show ?thesis using inv by (auto simp: FreePhysical_def owners_def)
  next
    case True
    note ok = pool_invD(1) [OF inv True]
    have q: "(if 0 < ref_count ?p then ?p\<lparr>ref_count := ref_count ?p - 1\<rparr> else ?p) = ?q"
      using ok by (auto simp: page_ok_def le_Suc_eq)
    show ?thesis
    proof (cases "\<not> in_free_list ?p \<and> handle ?p \<noteq> None")
      case True2: True
      have "snd (FreePhysical pa S) = (set_page pa (?q\<lparr>in_free_list := True\<rparr>) S)
          \<lparr>free_physical_memorys := free_physical_memorys S @ [pa]\<rparr>"
        using True True2 ok unfolding FreePhysical_def Let_def q by (simp add: page_ok_def)
      moreover have "pool_inv ((set_page pa (?q\<lparr>in_free_list := True\<rparr>) S)
          \<lparr>free_physical_memorys := free_physical_memorys S @ [pa]\<rparr>)"
        using ok True2 by (intro pool_inv_push [OF inv True]) (auto simp: page_ok_def)
      ultimately show ?thesis using True by (simp add: owners_set_page)
    next
      case False
      then have "snd (FreePhysical pa S) = set_page pa ?q S"
        using True unfolding FreePhysical_def Let_def q by auto
      moreover have "pool_inv (set_page pa ?q S)"
        using ok by (intro pool_inv_page [OF inv True]) (auto simp: page_ok_def)
      ultimately show ?thesis using True by (simp add: owners_set_page)
    qed
  qed
  then show "pool_inv (snd (FreePhysical pa S))" "owners (snd (FreePhysical pa S)) = owners S - {pa}" by blast+
qed

text \<open>
  A page may be mapped at an address that no other page of the pool is mapped at, and only while it
  has a handle.
\<close>

definition may_map :: "nat \<Rightarrow> nat \<Rightarrow> PhysicalMemoryAllocator \<Rightarrow> bool" where
  "may_map va pa S \<longleftrightarrow> (\<forall>j < length (physical_memorys S). va \<in> set (map_addrs (physical_memorys S ! j)) \<longrightarrow> j = pa) \<and>
     (pa < length (physical_memorys S) \<longrightarrow> handle (physical_memorys S ! pa) \<noteq> None)"

lemma table_map:
  assumes "i < length ps" and "set (map_addrs q) = insert va (set (map_addrs (ps ! i)))" and "handle q = handle (ps ! i)"
  shows "table (ps[i := q]) = insert (va, handle (ps ! i)) (table ps)"
proof (intro set_eqI iffI)
  fix m
  assume "m \<in> table (ps[i := q])"
  then obtain a j where "m = (a, handle (ps[i := q] ! j))" "j < length ps" "a \<in> set (map_addrs (ps[i := q] ! j))"
    by (auto elim: tableE)
  then show "m \<in> insert (va, handle (ps ! i)) (table ps)"
    using assms by (cases "j = i") (auto intro: tableI)
next
  fix m
  assume "m \<in> insert (va, handle (ps ! i)) (table ps)"
  then consider "m = (va, handle (ps ! i))"
    | a j where "m = (a, handle (ps ! j))" "j < length ps" "a \<in> set (map_addrs (ps ! j))"
    by (auto elim: tableE)
  then show "m \<in> table (ps[i := q])"
  proof cases
    case 1
    then show ?thesis using assms by (auto intro: tableI [of i])
  next
    case (2 a j)
    then show ?thesis using assms by (cases "j = i") (auto intro: tableI [of j])
  qed
qed

lemma MapMem_inv:
  assumes inv: "pool_inv S" and may: "may_map va pa S"
  shows "pool_inv (snd (MapMem rt va pa S))" and "owners (snd (MapMem rt va pa S)) = owners S"
proof -
  let ?p = "physical_memorys S ! pa"
  let ?q = "?p\<lparr>map_addrs := insort va (map_addrs ?p)\<rparr>"
  have "pool_inv (snd (MapMem rt va pa S)) \<and> owners (snd (MapMem rt va pa S)) = owners S"
  proof (cases "pa < length (physical_memorys S) \<and> va \<notin> set (map_addrs ?p) \<and>
      rtMapMem rt (rt_trace S) va (page_size S) (handle ?p)")
    case False
    then show ?thesis using inv by (auto simp: MapMem_def Let_def)
  next
    case True
    then have pa: "pa < length (physical_memorys S)" by simp
    let ?ps = "(physical_memorys S)[pa := ?q]"
    note ok = pool_invD(1) [OF inv pa] and ap = pool_invD(6) [OF inv]
    have q: "page_ok pa ?q"
      using ok True may by (auto simp: page_ok_def sorted_insort distinct_insort may_map_def)
    have sq: "set (map_addrs ?q) = insert va (set (map_addrs ?p))" by (simp add: set_insort_key)
    have ap': "apart ?ps"
      by (rule apart_set [OF ap pa]) (use apartD [OF ap] may pa sq in \<open>auto simp: may_map_def\<close>)
    have "table ?ps = insert (va, handle ?p) (table (physical_memorys S))"
      by (rule table_map [OF pa sq]) simp
    then have "pool_inv (S\<lparr>physical_memorys := ?ps, free_physical_memorys := free_physical_memorys S,
        rt_trace := RtMapMem va (handle ?p) # rt_trace S\<rparr>)"
      using pool_invD [OF inv] pa ap'
      by (intro pool_inv_pages [OF inv] page_ok_set [OF inv q] free_ok_set) (simp_all add: held_set)
    moreover have "snd (MapMem rt va pa S) = S\<lparr>physical_memorys := ?ps, free_physical_memorys := free_physical_memorys S,
        rt_trace := RtMapMem va (handle ?p) # rt_trace S\<rparr>"
      using True by (simp add: MapMem_def Let_def set_page_def rt_log_def)
    ultimately show ?thesis using pa by (auto simp: owners_def nth_list_update)
  qed
  then show "pool_inv (snd (MapMem rt va pa S))" "owners (snd (MapMem rt va pa S)) = owners S" by blast+
qed

lemma mapped_unmaps: "mapped (rev (map RtUnmapMem as) @ tr) = {m \<in> mapped tr. fst m \<notin> set as}"
  by (induction as rule: rev_induct) auto

lemma release_pages_conv:
  "release_pages va sz ps =
     (map (\<lambda>p. p\<lparr>map_addrs := filter (\<lambda>a. \<not> in_va_range va sz a) (map_addrs p)\<rparr>) ps,
      map RtUnmapMem (concat (map (\<lambda>p. filter (in_va_range va sz) (map_addrs p)) ps)))"
  by (induction ps) (simp_all add: Let_def)

lemma ReleaseMemAddress_inv:
  assumes inv: "pool_inv S"
  shows "pool_inv (snd (ReleaseMemAddress rt va sz S))" and "owners (snd (ReleaseMemAddress rt va sz S)) = owners S"
proof -
  let ?g = "\<lambda>p. p\<lparr>map_addrs := filter (\<lambda>a. \<not> in_va_range va sz a) (map_addrs p)\<rparr>"
  let ?ps = "map ?g (physical_memorys S)"
  let ?as = "concat (map (\<lambda>p. filter (in_va_range va sz) (map_addrs p)) (physical_memorys S))"
  let ?tr = "RtReleaseMemAddress va # rev (map RtUnmapMem ?as) @ rt_trace S"
  have res: "snd (ReleaseMemAddress rt va sz S) =
      S\<lparr>physical_memorys := ?ps, free_physical_memorys := free_physical_memorys S, rt_trace := ?tr\<rparr>"
    by (simp add: ReleaseMemAddress_def release_pages_conv rt_log_def Let_def)
  have t: "table ?ps = {m \<in> table (physical_memorys S). fst m \<notin> set ?as}"
  proof (intro set_eqI iffI)
    fix m
    assume "m \<in> table ?ps"
    then obtain a i where m: "m = (a, handle (?ps ! i))" "i < length ?ps" "a \<in> set (map_addrs (?ps ! i))"
      by (rule tableE)
    then have "m \<in> table (physical_memorys S)" by (simp add: tableI)
    moreover have "\<not> in_va_range va sz a" using m by simp
    ultimately show "m \<in> {m \<in> table (physical_memorys S). fst m \<notin> set ?as}" using m(1) by simp
  next
    fix m
    assume m: "m \<in> {m \<in> table (physical_memorys S). fst m \<notin> set ?as}"
    then obtain a i where m': "m = (a, handle (physical_memorys S ! i))" "i < length (physical_memorys S)"
      "a \<in> set (map_addrs (physical_memorys S ! i))"
      by (auto elim: tableE)
    then have "physical_memorys S ! i \<in> set (physical_memorys S)" by simp
    then have "\<not> in_va_range va sz a" using m m' by (simp, blast)
    then show "m \<in> table ?ps" using m' by (simp add: tableI)
  qed
  have ap: "apart ?ps"
    by (rule apartI) (use apartD [OF pool_invD(6) [OF inv]] in auto)
  have h: "held ?ps = held (physical_memorys S)"
    by (simp add: held_def filter_map o_def)
  have fo: "free_ok ?ps (free_physical_memorys S)"
  proof (rule free_okI)
    show "distinct (free_physical_memorys S)" using pool_invD(2) [OF inv] by (simp add: free_ok_def)
    show "i \<in> set (free_physical_memorys S) \<longleftrightarrow> i < length ?ps \<and> in_free_list (?ps ! i)" for i
      using free_okD [OF pool_invD(2) [OF inv], of i] by (cases "i < length (physical_memorys S)") simp_all
  qed
  have po: "page_ok i (?ps ! i)" if "i < length ?ps" for i
    using pool_invD(1) [OF inv, of i] that by (auto simp: page_ok_def sorted_wrt_filter)
  show "pool_inv (snd (ReleaseMemAddress rt va sz S))"
    unfolding res
    by (rule pool_inv_pages [OF inv _ po fo h ap]) (use t mapped_unmaps [of ?as] pool_invD(7) [OF inv] in simp_all)
  show "owners (snd (ReleaseMemAddress rt va sz S)) = owners S"
    unfolding res by (auto simp: owners_def)
qed

lemma FreePhysicalPage_inv:
  assumes inv: "pool_inv S" and i: "i < length (physical_memorys S)"
    and free: "ref_count (physical_memorys S ! i) = 0" "map_addrs (physical_memorys S ! i) = []"
  shows "pool_inv (FreePhysicalPage i S)" and "length (physical_memorys (FreePhysicalPage i S)) = length (physical_memorys S)"
    and "owners (FreePhysicalPage i S) = owners S"
proof -
  let ?p = "physical_memorys S ! i"
  let ?q = "?p\<lparr>handle := None\<rparr>"
  let ?ps = "(physical_memorys S)[i := ?q]"
  show "length (physical_memorys (FreePhysicalPage i S)) = length (physical_memorys S)"
    by (simp add: FreePhysicalPage_def rt_log_def set_page_def Let_def split: option.split)
  show "owners (FreePhysicalPage i S) = owners S"
    using i free
    by (auto simp: FreePhysicalPage_def rt_log_def set_page_def Let_def owners_def nth_list_update split: option.splits)
  show "pool_inv (FreePhysicalPage i S)"
  proof (cases "handle ?p")
    case None
    then show ?thesis using inv by (simp add: FreePhysicalPage_def)
  next
    case (Some h)
    note ok = pool_invD(1) [OF inv i] and ap = pool_invD(6) [OF inv]
    have h: "Suc (held ?ps) = held (physical_memorys S)" using i Some by (intro held_free) simp_all
    have q: "page_ok i ?q" using ok free by (auto simp: page_ok_def)
    have t: "table ?ps = table (physical_memorys S)"
      using i free by (auto simp: table_def nth_list_update) (metis empty_iff list.set(1))+
    have ap': "apart ?ps" by (rule apart_set [OF ap i]) (use free in simp)
    have pos: "page_size S \<le> physical_memory_size S" using pool_invD(4) [OF inv] h [symmetric] by simp
    have size: "sub64 (physical_memory_size S) (page_size S) = page_size S * held ?ps"
    proof -
      have "page_size S < 2 ^ 64" using pos pool_invD(5) [OF inv] by simp
      then have "sub64 (physical_memory_size S) (page_size S) = physical_memory_size S - page_size S"
        using pos pool_invD(5) [OF inv] unfolding sub64_def by (simp add: mod_nat_eqI)
      also have "\<dots> = page_size S * held ?ps" using pool_invD(4) [OF inv] h [symmetric] by simp
      finally show ?thesis .
    qed
    have fin: "FreePhysicalPage i S = S\<lparr>physical_memorys := ?ps, rt_trace := RtFreePhysical h # rt_trace S,
        physical_memory_size := page_size S * held ?ps\<rparr>"
      using Some size by (simp add: FreePhysicalPage_def rt_log_def set_page_def Let_def)
    have le: "page_size S * held ?ps < 2 ^ 64"
      using pool_invD(4,5) [OF inv] h [symmetric] by simp
    have "\<forall>j < length ?ps. page_ok j (?ps ! j)" using page_ok_set [OF inv q] by simp
    moreover have "free_ok ?ps (free_physical_memorys S)" using pool_invD(2) [OF inv] i by (intro free_ok_set) simp_all
    ultimately show ?thesis
      unfolding fin pool_inv_def using le ap' t pool_invD(3,7) [OF inv] by simp
  qed
qed

lemma finalize_loop_inv:
  assumes "pool_inv S" and "\<forall>i \<in> set is. i < length (physical_memorys S)"
  shows "pool_inv (finalize_loop is S) \<and> length (physical_memorys (finalize_loop is S)) = length (physical_memorys S) \<and>
    owners (finalize_loop is S) = owners S"
  using assms
proof (induction "is" arbitrary: S)
  case (Cons i "is")
  let ?p = "physical_memorys S ! i"
  show ?case
  proof (cases "ref_count ?p \<noteq> 0 \<or> map_addrs ?p \<noteq> []")
    case True
    then show ?thesis using Cons by auto
  next
    case False
    then have "i < length (physical_memorys S)" "ref_count ?p = 0" "map_addrs ?p = []" using Cons.prems by auto
    note f = FreePhysicalPage_inv [OF Cons.prems(1) this]
    show ?thesis using False Cons.IH [OF f(1)] f(2,3) Cons.prems(2) by simp
  qed
qed simp

text \<open>
  The last step of \<open>Finalize\<close> drops all the page records when no physical memory is left.  It keeps
  the invariant only if no page is listed for reuse.
\<close>

lemma drop_pages_inv:
  assumes inv: "pool_inv S" and "physical_memory_size S = 0" and "free_physical_memorys S = []"
  shows "pool_inv (S\<lparr>physical_memorys := []\<rparr>)" and "owners S = {}"
proof -
  have "held (physical_memorys S) = 0" using pool_invD(3,4) [OF inv] assms(2) by simp
  then have n: "handle (physical_memorys S ! i) = None" if "i < length (physical_memorys S)" for i
    using that by (simp add: held_0)
  then have e: "ref_count (physical_memorys S ! i) = 0 \<and> map_addrs (physical_memorys S ! i) = []"
    if "i < length (physical_memorys S)" for i
    using pool_invD(1) [OF inv that] that by (simp add: page_ok_def)
  then show "owners S = {}" by (auto simp: owners_def)
  from e have "table (physical_memorys S) = {}" by (auto elim: tableE)
  then show "pool_inv (S\<lparr>physical_memorys := []\<rparr>)"
    using pool_invD [OF inv] assms(2,3)
    by (simp add: pool_inv_def free_ok_def apart_def table_def held_def)
qed

definition before_drop :: "rt_driver \<Rightarrow> nat \<Rightarrow> nat \<Rightarrow> PhysicalMemoryAllocator \<Rightarrow> PhysicalMemoryAllocator" where
  "before_drop rt va sz S =
     (let S = snd (ReleaseMemAddress rt va sz S);
          S = (if 0 < pool_ref_count S then S\<lparr>pool_ref_count := pool_ref_count S - 1\<rparr> else S) in
      if pool_ref_count S \<noteq> 0 then S else finalize_loop [0..<length (physical_memorys S)] S)"

lemma Finalize_conv:
  "Finalize rt va sz S = (let S = before_drop rt va sz S in
     if physical_memory_size S = 0 then S\<lparr>physical_memorys := []\<rparr> else S)"
  by (simp add: Finalize_def before_drop_def Let_def)

lemma pool_inv_ref_count [simp]: "pool_inv (S\<lparr>pool_ref_count := n\<rparr>) = pool_inv S"
  by (simp add: pool_inv_def)

lemma owners_ref_count [simp]: "owners (S\<lparr>pool_ref_count := n\<rparr>) = owners S"
  by (simp add: owners_def)

lemma before_drop_inv:
  assumes "pool_inv S"
  shows "pool_inv (before_drop rt va sz S)" and "owners (before_drop rt va sz S) = owners S"
  using ReleaseMemAddress_inv [OF assms, of rt va sz]
    finalize_loop_inv [of "snd (ReleaseMemAddress rt va sz S)"]
    finalize_loop_inv [of "(snd (ReleaseMemAddress rt va sz S))\<lparr>pool_ref_count := n\<rparr>" for n]
  by (auto simp: before_drop_def Let_def)

lemma Finalize_inv:
  assumes inv: "pool_inv S"
    and nofree: "physical_memory_size (before_drop rt va sz S) = 0 \<Longrightarrow> free_physical_memorys (before_drop rt va sz S) = []"
  shows "pool_inv (Finalize rt va sz S)" and "owners (Finalize rt va sz S) = owners S"
  using before_drop_inv [OF inv] drop_pages_inv [OF before_drop_inv(1) [OF inv]] nofree
  by (auto simp: Finalize_conv Let_def owners_def [of "_\<lparr>physical_memorys := []\<rparr>"])

lemma Initialize_inv:
  assumes "pool_inv S" and "0 < sz" and "sz = page_size S \<or> physical_memorys S = []"
  shows "pool_inv (snd (Initialize sz S))" and "owners (snd (Initialize sz S)) = owners S"
  using assms by (auto simp: Initialize_def Let_def pool_inv_def owners_def held_def)

lemma record_inv:
  assumes "pool_inv S"
  shows "pool_inv (snd (AddPageRecord pa r S))" and "owners (snd (AddPageRecord pa r S)) = owners S"
    and "pool_inv (DelPageRecord pa r S)" and "owners (DelPageRecord pa r S) = owners S"
proof -
  let ?S = "\<lambda>t. set_page pa ((physical_memorys S ! pa)\<lparr>va_record_table := t\<rparr>) S"
  have "pool_inv (?S t) \<and> owners (?S t) = owners S" if "pa < length (physical_memorys S)" for t
    using pool_inv_page [OF assms that, of "(physical_memorys S ! pa)\<lparr>va_record_table := t\<rparr>"]
      pool_invD(1) [OF assms that] that by (auto simp: page_ok_def owners_set_page, auto simp: owners_def)
  then show "pool_inv (snd (AddPageRecord pa r S))" "owners (snd (AddPageRecord pa r S)) = owners S"
    "pool_inv (DelPageRecord pa r S)" "owners (DelPageRecord pa r S) = owners S"
    using assms by (simp_all add: AddPageRecord_def DelPageRecord_def Let_def)
qed

section \<open>The pool as an interface\<close>

text \<open>
  What a client of a page pool relies on: allocation returns a page nobody owns, freeing gives up
  one page.
\<close>

locale page_pool =
  fixes inv :: "'s \<Rightarrow> bool" and room :: "'s \<Rightarrow> bool" and own :: "'s \<Rightarrow> nat set"
    and malloc :: "'a \<Rightarrow> 's \<Rightarrow> (mem_status \<times> nat \<times> 's) res" and free :: "nat \<Rightarrow> 's \<Rightarrow> 's"
  assumes malloc_returns: "inv S \<Longrightarrow> room S \<Longrightarrow> \<exists>r. malloc x S = Inr r"
    and malloc_keeps: "inv S \<Longrightarrow> room S \<Longrightarrow> malloc x S = Inr (st, pa, S') \<Longrightarrow> inv S'"
    and malloc_success: "inv S \<Longrightarrow> room S \<Longrightarrow> malloc x S = Inr (SUCCESS, pa, S') \<Longrightarrow>
      pa \<notin> own S \<and> own S' = insert pa (own S)"
    and malloc_failure: "inv S \<Longrightarrow> room S \<Longrightarrow> malloc x S = Inr (st, pa, S') \<Longrightarrow> st \<noteq> SUCCESS \<Longrightarrow> own S' = own S"
    and free_keeps: "inv S \<Longrightarrow> inv (free pa S)" and free_gives_up: "inv S \<Longrightarrow> own (free pa S) = own S - {pa}"
begin

lemma pages_differ:
  assumes "inv S" "room S" "malloc x S = Inr (SUCCESS, p, S1)" "room S1" "malloc y S1 = Inr (SUCCESS, q, S2)"
  shows "p \<noteq> q \<and> own S2 = insert p (insert q (own S))"
  using malloc_success [OF assms(1-3)] malloc_success [OF malloc_keeps [OF assms(1-3)] assms(4,5)] by auto

lemma free_undoes_malloc:
  assumes "inv S" "room S" "malloc x S = Inr (SUCCESS, p, S1)"
  shows "own (free p S1) = own S"
  using malloc_success [OF assms] free_gives_up [OF malloc_keeps [OF assms], of p] by auto

end

interpretation pages: page_pool pool_inv "\<lambda>S. page_size S * (held (physical_memorys S) + 1) < 2 ^ 64" owners
  "\<lambda>(pa, va, reuse). MallocPhysical rt pa va reuse" "\<lambda>pa S. snd (FreePhysical pa S)" for rt
proof
  fix S and x :: "nat \<times> nat \<times> bool"
  assume inv: "pool_inv S" and room: "page_size S * (held (physical_memorys S) + 1) < 2 ^ 64"
  obtain pa va reuse where x: "x = (pa, va, reuse)" by (cases x)
  note m = MallocPhysical_inv [OF inv room, of rt pa va reuse]
  show "\<exists>r. (case x of (pa, va, reuse) \<Rightarrow> MallocPhysical rt pa va reuse) S = Inr r" using m x by auto
  fix st p S'
  assume r: "(case x of (pa, va, reuse) \<Rightarrow> MallocPhysical rt pa va reuse) S = Inr (st, p, S')"
  show "pool_inv S'" using m x r by (auto simp: handed_out_def)
  show "owners S' = owners S" if "st \<noteq> SUCCESS" using m x r that by (auto simp: handed_out_def)
next
  fix S S' p and x :: "nat \<times> nat \<times> bool"
  assume "pool_inv S" "page_size S * (held (physical_memorys S) + 1) < 2 ^ 64"
    and r: "(case x of (pa, va, reuse) \<Rightarrow> MallocPhysical rt pa va reuse) S = Inr (SUCCESS, p, S')"
  then show "p \<notin> owners S \<and> owners S' = insert p (owners S)"
    using MallocPhysical_inv [of S rt "fst x" "fst (snd x)" "snd (snd x)"] by (auto simp: handed_out_def split: prod.splits)
qed (simp_all add: FreePhysical_inv)

section \<open>Reachable states\<close>

text \<open>
  The states a client can drive the pool into.  The guards are what the clients in
  \<^verbatim>\<open>active_memory_allocator.cc\<close> keep to: a pool is used with one page size while it has pages
  (\<^verbatim>\<open>CreateAllocator\<close> has one pool per page size), the physical memory is smaller than 2^64 bytes, and an
  address is mapped to one page.  The guard of \<open>finalize\<close> excludes the case that
  \<open>Finalize_leaves_stale_pages\<close> is about.
\<close>

inductive pool_reach :: "rt_driver \<Rightarrow> PhysicalMemoryAllocator \<Rightarrow> bool" for rt where
  start: "pool_reach rt new_PhysicalMemoryAllocator"
| init: "pool_reach rt S \<Longrightarrow> 0 < sz \<Longrightarrow> sz = page_size S \<or> physical_memorys S = [] \<Longrightarrow>
    pool_reach rt (snd (Initialize sz S))"
| malloc: "pool_reach rt S \<Longrightarrow> page_size S * (held (physical_memorys S) + 1) < 2 ^ 64 \<Longrightarrow>
    MallocPhysical rt pa va reuse S = Inr (st, pa', S') \<Longrightarrow> pool_reach rt S'"
| free: "pool_reach rt S \<Longrightarrow> pool_reach rt (snd (FreePhysical pa S))"
| map: "pool_reach rt S \<Longrightarrow> may_map va pa S \<Longrightarrow> pool_reach rt (snd (MapMem rt va pa S))"
| unmap: "pool_reach rt S \<Longrightarrow> pool_reach rt (snd (UnmapMem va pa S))"
| reserve: "pool_reach rt S \<Longrightarrow> pool_reach rt (snd (ReserveMemAddress rt sz S))"
| release: "pool_reach rt S \<Longrightarrow> pool_reach rt (snd (ReleaseMemAddress rt va sz S))"
| finalize: "pool_reach rt S \<Longrightarrow>
    (physical_memory_size (before_drop rt va sz S) = 0 \<longrightarrow> free_physical_memorys (before_drop rt va sz S) = []) \<Longrightarrow>
    pool_reach rt (Finalize rt va sz S)"
| add_record: "pool_reach rt S \<Longrightarrow> pool_reach rt (snd (AddPageRecord pa r S))"
| del_record: "pool_reach rt S \<Longrightarrow> pool_reach rt (DelPageRecord pa r S)"

lemma pool_inv_new: "pool_inv new_PhysicalMemoryAllocator"
  by (simp add: pool_inv_def new_PhysicalMemoryAllocator_def free_ok_def apart_def table_def held_def kLargePageSize_def)

lemma pool_reach_inv: "pool_reach rt S \<Longrightarrow> pool_inv S"
proof (induction rule: pool_reach.induct)
  case (malloc S pa va reuse st pa' S')
  then show ?case using MallocPhysical_inv [OF malloc.IH malloc.hyps(2), of rt pa va reuse]
    by (auto simp: handed_out_def)
next
  case (unmap S va pa)
  then show ?case by (simp add: UnmapMem_def)
next
  case (reserve S sz)
  then show ?case by (simp add: ReserveMemAddress_def rt_log_def pool_inv_def)
qed (simp_all add: pool_inv_new Initialize_inv FreePhysical_inv MapMem_inv ReleaseMemAddress_inv Finalize_inv record_inv)




text \<open>A driver that always has a page, and a pool with one page in use.\<close>

definition easy_driver :: rt_driver where
  "easy_driver = \<lparr>rtMallocPhysical = (\<lambda>tr sz pg. Some (length tr)), rtMapMem = (\<lambda>tr va sz h. True),
     rtReserveMemAddress = (\<lambda>tr sz. Some 4096), rtReleaseMemAddress = (\<lambda>tr va. True), use_1g_only = False\<rparr>"

definition demo_page :: PhysicalMemoryInfo where
  "demo_page = new_PhysicalMemoryInfo\<lparr>ref_count := 1, handle := Some 0\<rparr>"

definition demo_pool :: PhysicalMemoryAllocator where
  "demo_pool = \<lparr>pool_ref_count = 1, page_size = 2097152, physical_memory_size = 2097152, pg_type = 1,
     physical_memorys = [demo_page], free_physical_memorys = [], rt_trace = [RtMallocPhysical 2097152 1]\<rparr>"

lemma demo_reach: "pool_reach easy_driver demo_pool"
proof (rule pool_reach.malloc)
  show "pool_reach easy_driver (snd (Initialize 2097152 new_PhysicalMemoryAllocator))"
    by (rule pool_reach.init [OF pool_reach.start]) (simp_all add: new_PhysicalMemoryAllocator_def)
  show "MallocPhysical easy_driver kInvalidIndex 4096 True (snd (Initialize 2097152 new_PhysicalMemoryAllocator)) =
      Inr (SUCCESS, 0, demo_pool)"
    by (simp add: MallocPhysical_def other_page_def reuse_loop.simps MallocPhysicalPage_def Initialize_def
        new_PhysicalMemoryAllocator_def easy_driver_def rt_log_def demo_pool_def demo_page_def add64_def
        kDrv1GPageSize_def kDrvMemPropPgType2M_def kDrvMemPropPgType1G_def new_PhysicalMemoryInfo_def)
qed (simp add: Initialize_def new_PhysicalMemoryAllocator_def kDrv1GPageSize_def held_def)

lemmas demo_simps = demo_pool_def demo_page_def new_PhysicalMemoryInfo_def held_def owners_def




section \<open>Two defects\<close>

text \<open>
  C35: \<open>Finalize\<close> drops the page records when no memory is left, and keeps the list of pages for reuse.
  The pool lives on in \<^verbatim>\<open>PhysicalMemoryAllocatorMgr\<close>; the next client that initialises it and asks for
  a page with reuse reads a page record past the end of the empty vector.
\<close>

theorem Finalize_leaves_stale_pages:
  assumes "physical_memory_size (before_drop rt va sz S) = 0" and "free_physical_memorys (before_drop rt va sz S) \<noteq> []"
  shows "MallocPhysical rt' pa a True (snd (Initialize psz (Finalize rt va sz S))) = Inl Undefined"
  using assms
  by (simp add: Finalize_conv Initialize_def MallocPhysical_def other_page_def reuse_loop.simps vec_ix_def Let_def)

theorem Finalize_leaves_stale_pages_witness:
  "pool_reach easy_driver (snd (FreePhysical 0 demo_pool)) \<and>
   MallocPhysical easy_driver kInvalidIndex 4096 True
     (snd (Initialize 2097152 (Finalize easy_driver 4096 2097152 (snd (FreePhysical 0 demo_pool))))) = Inl Undefined"
proof
  show "pool_reach easy_driver (snd (FreePhysical 0 demo_pool))" by (rule pool_reach.free [OF demo_reach])
  show "MallocPhysical easy_driver kInvalidIndex 4096 True
     (snd (Initialize 2097152 (Finalize easy_driver 4096 2097152 (snd (FreePhysical 0 demo_pool))))) = Inl Undefined"
    by (rule Finalize_leaves_stale_pages)
      (simp_all add: before_drop_def FreePhysical_def ReleaseMemAddress_def demo_simps easy_driver_def rt_log_def
        set_page_def FreePhysicalPage_def sub64_def Let_def)
qed


definition late_driver :: rt_driver where
  "late_driver = easy_driver\<lparr>rtMallocPhysical := (\<lambda>tr sz pg. if tr = [] then None else Some (length tr))\<rparr>"


section \<open>The address check\<close>

text \<open>All records of a page belong to one virtual page, and those at different offsets are disjoint.\<close>

definition consistent :: "PageRecord list \<Rightarrow> bool" where
  "consistent t \<longleftrightarrow> (\<forall>u \<in> set t. \<forall>v \<in> set t. map_va u = map_va v \<and>
     (head_offset u \<noteq> head_offset v \<longrightarrow> \<not> HasIntersection u v))"

definition record_ranges :: "PageRecord list \<Rightarrow> (nat \<times> nat) multiset" where
  "record_ranges t = mset (map (\<lambda>u. (head_offset u, using_size u)) t)"

lemma HasIntersection_sym: "HasIntersection u v = HasIntersection v u"
  by (auto simp: HasIntersection_def)

lemma consistent_snoc:
  assumes "consistent t"
  shows "consistent (t @ [r]) \<longleftrightarrow> (t \<noteq> [] \<longrightarrow> map_va (hd t) = map_va r) \<and>
    \<not> (\<exists>u \<in> set t. head_offset u \<noteq> head_offset r \<and> HasIntersection u r)"
proof
  assume L: "consistent (t @ [r])"
  have "map_va u = map_va r \<and> (head_offset u \<noteq> head_offset r \<longrightarrow> \<not> HasIntersection u r)" if "u \<in> set t" for u
  proof -
    have "u \<in> set (t @ [r])" "r \<in> set (t @ [r])" using that by simp_all
    then show ?thesis using L unfolding consistent_def by blast
  qed
  then show "(t \<noteq> [] \<longrightarrow> map_va (hd t) = map_va r) \<and>
      \<not> (\<exists>u \<in> set t. head_offset u \<noteq> head_offset r \<and> HasIntersection u r)"
    using hd_in_set [of t] by blast
next
  assume R: "(t \<noteq> [] \<longrightarrow> map_va (hd t) = map_va r) \<and>
      \<not> (\<exists>u \<in> set t. head_offset u \<noteq> head_offset r \<and> HasIntersection u r)"
  have "map_va v = map_va r \<and> (head_offset v \<noteq> head_offset r \<longrightarrow> \<not> HasIntersection v r \<and> \<not> HasIntersection r v)"
    if "v \<in> set t" for v
  proof -
    have "t \<noteq> []" using that by auto
    then have "map_va v = map_va (hd t)" using assms that hd_in_set [of t] unfolding consistent_def by blast
    then show ?thesis using R that \<open>t \<noteq> []\<close> HasIntersection_sym [of r v] by metis
  qed
  note r = this
  show "consistent (t @ [r])"
    unfolding consistent_def
  proof (intro ballI)
    fix u v
    assume "u \<in> set (t @ [r])" "v \<in> set (t @ [r])"
    then consider "u \<in> set t" "v \<in> set t" | "u \<in> set t" "v = r" | "u = r" "v \<in> set t" | "u = r" "v = r" by auto
    then show "map_va u = map_va v \<and> (head_offset u \<noteq> head_offset v \<longrightarrow> \<not> HasIntersection u v)"
      by cases (use assms r in \<open>unfold consistent_def, metis+\<close>)
  qed
qed

lemma record_ranges_erase:
  "u \<in> set t \<Longrightarrow> head_offset u = head_offset r \<Longrightarrow> using_size u = using_size r \<Longrightarrow>
     add_mset (head_offset r, using_size r) (record_ranges (erase_record r t)) = record_ranges t"
  by (induction t) (auto simp: record_ranges_def)



end
