(* ===== verification/Spans.thy ===== *)
theory Spans
  imports PhysicalMemory
begin

text \<open>
  The building blocks of the page allocator of \<^verbatim>\<open>runtime/v2/kernel/memory\<close>: page counts and
  layer numbers (\<^verbatim>\<open>span/span_layer_id.h\<close>, \<^verbatim>\<open>type/mem_size.h\<close>), page spans with their buddy
  links (\<^verbatim>\<open>span/page_span.h\<close>, \<^verbatim>\<open>span/page_span.cc\<close>, \<^verbatim>\<open>span/span_buddy_link.h\<close>), and the
  two lookup tables that find a layer with an idle span (\<^verbatim>\<open>span/span_layer_lut.h\<close>).

  Spans live in a store from identities to records.  An identity is used once: a pointer that
  outlives its span denotes nothing, and reading through it is \<open>Inl Undefined\<close>.  The base class
  \<^verbatim>\<open>ge::MemBlock\<close> is not part of the repository; its use count is seen through the three
  arguments \<open>count0\<close>, \<open>add_count\<close> and \<open>sub_count\<close> of the record \<open>host_env\<close>.
\<close>

named_theorems span_simps \<open>definitions of spans and layers\<close>

section \<open>Pages and layers\<close>

definition SPAN_LAYER_ID_INVALID :: nat where "SPAN_LAYER_ID_INVALID = 2 ^ 32 - 1"

definition PageLen_GetLenFromSize :: "nat \<Rightarrow> nat \<Rightarrow> nat" where
  "PageLen_GetLenFromSize sz page_idem_num = (sz div 2 ^ page_idem_num) mod 2 ^ 32"

definition PageLen_GetMemSize :: "nat \<Rightarrow> nat \<Rightarrow> nat" where
  "PageLen_GetMemSize page_len page_idem_num = (page_len * 2 ^ page_idem_num) mod 2 ^ 64"

definition PageLen_ForwardAddr :: "nat \<Rightarrow> nat \<Rightarrow> nat \<Rightarrow> nat" where
  "PageLen_ForwardAddr page_len page_idem_num addr = addr + PageLen_GetMemSize page_len page_idem_num"

definition SpanLayerId_GetIdFromSize :: "nat \<Rightarrow> nat \<Rightarrow> nat" where
  "SpanLayerId_GetIdFromSize sz page_idem_num = PageLen_GetLenFromSize sz page_idem_num"

text \<open>\<open>(size + alignSize - 1) & ~(alignSize - 1)\<close> on 64-bit words.\<close>

unbundle bit_operations_syntax

definition MemSize_GetAlignedOf :: "nat \<Rightarrow> nat \<Rightarrow> nat" where
  "MemSize_GetAlignedOf sz alignSize =
     unat ((word_of_nat sz + word_of_nat alignSize - 1) AND NOT (word_of_nat alignSize - 1 :: 64 word))"

section \<open>Page spans\<close>

record PageSpan =
  sp_addr :: nat
  sp_size :: nat
  sp_count :: nat
  block_addr :: "nat option"
  page_len :: nat
  try_split_page_len :: nat
  buddy_prev :: "nat option"
  buddy_next :: "nat option"
  real_size :: nat
  ref_span :: "nat option"
  new_va_span :: bool
  splitable :: bool

type_synonym span_store = "nat \<Rightarrow> PageSpan option"

text \<open>
  What the allocator takes from outside: whether the \<open>n\<close>-th host allocation succeeds, the
  use count of a memory block, and the device.  \<open>rtMalloc\<close> answers its \<open>n\<close>-th call
  knowing the blocks it has handed out, \<open>rtFree\<close> its \<open>n\<close>-th call on an address.
\<close>

record dev_block =
  blk_addr :: nat
  blk_size :: nat

record host_env =
  new_ok :: "nat \<Rightarrow> bool"
  count0 :: nat
  add_count :: "nat \<Rightarrow> nat"
  sub_count :: "nat \<Rightarrow> nat"
  rtMalloc :: "nat \<Rightarrow> (nat \<Rightarrow> dev_block option) \<Rightarrow> nat \<Rightarrow> nat option"
  rtFree :: "nat \<Rightarrow> nat \<Rightarrow> bool"

definition span_at :: "span_store \<Rightarrow> nat \<Rightarrow> PageSpan res" where
  "span_at h p = (case h p of None \<Rightarrow> Inl Undefined | Some s \<Rightarrow> Inr s)"

definition span_upd :: "nat \<Rightarrow> (PageSpan \<Rightarrow> PageSpan) \<Rightarrow> span_store \<Rightarrow> span_store res" where
  "span_upd p f h = rbind (span_at h p) (\<lambda>s. Inr (h(p \<mapsto> f s)))"

definition PageSpan_new :: "host_env \<Rightarrow> nat option \<Rightarrow> nat \<Rightarrow> nat \<Rightarrow> PageSpan" where
  "PageSpan_new E blk addr sz =
     \<lparr>sp_addr = addr, sp_size = sz, sp_count = count0 E, block_addr = blk, page_len = 0,
      try_split_page_len = 0, buddy_prev = None, buddy_next = None, real_size = 0,
      ref_span = None, new_va_span = False, splitable = False\<rparr>"

definition HasSplited :: "PageSpan \<Rightarrow> bool" where
  "HasSplited s \<longleftrightarrow> \<not> (buddy_prev s = None \<and> buddy_next s = None)"

definition IsBuddyHeader :: "PageSpan \<Rightarrow> bool" where
  "IsBuddyHeader s \<longleftrightarrow> buddy_prev s = None"

definition PageSpan_GetSize :: "nat \<Rightarrow> PageSpan \<Rightarrow> nat" where
  "PageSpan_GetSize idem s = PageLen_GetMemSize (page_len s) idem"

definition SetPageLen :: "nat \<Rightarrow> nat \<Rightarrow> PageSpan \<Rightarrow> PageSpan" where
  "SetPageLen idem len s = s\<lparr>page_len := len, sp_size := PageLen_GetMemSize len idem\<rparr>"

definition PageSpan_Alloc :: "host_env \<Rightarrow> nat \<Rightarrow> nat \<Rightarrow> PageSpan \<Rightarrow> PageSpan" where
  "PageSpan_Alloc E idem len s =
     (let s = SetPageLen idem len s
      in if sp_count s = 0 then s\<lparr>sp_count := add_count E (sp_count s)\<rparr> else s)"

definition SetBuddy :: "nat \<Rightarrow> nat \<Rightarrow> span_store \<Rightarrow> span_store res" where
  "SetBuddy p b h =
     rbind (span_at h p) (\<lambda>s.
     rbind (case buddy_next s of None \<Rightarrow> Inr h
            | Some n \<Rightarrow> span_upd n (\<lambda>t. t\<lparr>buddy_prev := Some b\<rparr>) h) (\<lambda>h.
     rbind (span_upd p (\<lambda>t. t\<lparr>buddy_next := Some b\<rparr>) h) (\<lambda>h.
     span_upd b (\<lambda>t. t\<lparr>buddy_next := buddy_next s, buddy_prev := Some p\<rparr>) h)))"

definition MergeBuddy :: "nat \<Rightarrow> nat \<Rightarrow> span_store \<Rightarrow> span_store res" where
  "MergeBuddy p b h =
     rbind (span_at h p) (\<lambda>s. rbind (span_at h b) (\<lambda>t.
     if buddy_next s = Some b \<and> buddy_prev t = Some p then
       rbind (case buddy_next t of None \<Rightarrow> Inr h
              | Some n \<Rightarrow> span_upd n (\<lambda>u. u\<lparr>buddy_prev := Some p\<rparr>) h) (\<lambda>h.
       span_upd p (\<lambda>u.
         let u = u\<lparr>buddy_next := buddy_next t, page_len := (page_len u + page_len t) mod 2 ^ 32\<rparr>
         in if HasSplited u then u else u\<lparr>try_split_page_len := 0\<rparr>) h)
     else Inr h))"

text \<open>
  \<open>IsSplitable\<close> also counts the attempt.  \<^verbatim>\<open>floor(page_len * 0.01)\<close> on doubles is the integer
  quotient by 100 for every 32-bit page count.
\<close>

definition IsSplitable :: "nat \<Rightarrow> PageSpan \<Rightarrow> bool \<times> PageSpan" where
  "IsSplitable len s =
     (if splitable s \<or> HasSplited s then (True, s)
      else let s = s\<lparr>try_split_page_len := (try_split_page_len s + len) mod 2 ^ 32\<rparr>
           in (page_len s div 100 < try_split_page_len s, s))"

text \<open>
  \<^verbatim>\<open>while (span->GetCount() > 0U) span->SubCount();\<close> with as many rounds as the count: a counter
  that \<open>sub_count\<close> does not lower leaves the loop running.
\<close>

fun drain_loop :: "host_env \<Rightarrow> nat \<Rightarrow> nat \<Rightarrow> nat res" where
  "drain_loop E fuel c =
     (if c = 0 then Inr 0
      else if fuel = 0 then Inl Undefined
      else drain_loop E (fuel - 1) (sub_count E c))"

declare drain_loop.simps [simp del]

definition drain :: "host_env \<Rightarrow> nat \<Rightarrow> span_store \<Rightarrow> span_store res" where
  "drain E p h = rbind (span_at h p) (\<lambda>s.
     rbind (drain_loop E (sp_count s) (sp_count s)) (\<lambda>c. span_upd p (\<lambda>s. s\<lparr>sp_count := c\<rparr>) h))"

section \<open>Lookup tables\<close>

text \<open>
  A \<^verbatim>\<open>std::set\<close> of layer numbers is the list of its elements in ascending order; an iterator is
  the rest of the list.  A layer is its free list, \<open>None\<close> a null layer pointer.
\<close>

type_synonym layers = "nat list option list"

definition emplace :: "nat \<Rightarrow> nat list \<Rightarrow> nat list" where
  "emplace x xs = (if x \<in> set xs then xs else insort x xs)"

definition lower_bound :: "nat \<Rightarrow> nat list \<Rightarrow> nat list" where
  "lower_bound x xs = dropWhile (\<lambda>y. y < x) xs"

definition layer_filled :: "layers \<Rightarrow> nat \<Rightarrow> bool" where
  "layer_filled ls k \<longleftrightarrow> k < length ls \<and> (case ls ! k of None \<Rightarrow> False | Some xs \<Rightarrow> xs \<noteq> [])"

definition Seq_OnLayerCreated :: "nat \<Rightarrow> nat list \<Rightarrow> nat list" where
  "Seq_OnLayerCreated k ids = emplace k ids"

fun Seq_scan :: "layers \<Rightarrow> nat \<Rightarrow> nat list \<Rightarrow> nat" where
  "Seq_scan ls lift [] = SPAN_LAYER_ID_INVALID"
| "Seq_scan ls lift (k # ks) =
     (if lift = 0 then SPAN_LAYER_ID_INVALID
      else if layer_filled ls k then k else Seq_scan ls (lift - 1) ks)"

definition Seq_FindFitLayerId :: "layers \<Rightarrow> nat list \<Rightarrow> nat \<Rightarrow> nat \<Rightarrow> nat" where
  "Seq_FindFitLayerId ls ids len max_lift_level =
     (if max_lift_level = 0 then SPAN_LAYER_ID_INVALID
      else Seq_scan ls max_lift_level (lower_bound len ids))"

definition Quick_OnLayerAddSpan :: "nat \<Rightarrow> nat list \<Rightarrow> nat list \<Rightarrow> nat list" where
  "Quick_OnLayerAddSpan k free ids = (if length free = 1 then emplace k ids else ids)"

definition Quick_OnLayerRemoveSpan :: "nat \<Rightarrow> nat list \<Rightarrow> nat list \<Rightarrow> nat list" where
  "Quick_OnLayerRemoveSpan k free ids = (if free = [] then remove1 k ids else ids)"

definition Quick_FindFitLayerId :: "nat list \<Rightarrow> nat \<Rightarrow> nat \<Rightarrow> nat" where
  "Quick_FindFitLayerId ids len max_lift_level =
     (if max_lift_level = 0 then SPAN_LAYER_ID_INVALID
      else case lower_bound len ids of [] \<Rightarrow> SPAN_LAYER_ID_INVALID | k # _ \<Rightarrow> k)"

end
