(* ===== verification/Scalable.thy ===== *)
theory Scalable
  imports Spans
begin

text \<open>
  The page allocator itself: \<^verbatim>\<open>ScalableAllocator\<close>
  (\<^verbatim>\<open>runtime/v2/kernel/memory/allocator/scalable_allocator.cc\<close>) with the span layers
  (\<^verbatim>\<open>span/span_layer.cc\<close>), the device allocator (\<^verbatim>\<open>device/device_allocator.cc\<close>) and the
  subclass \<^verbatim>\<open>RtsCachingMemAllocator\<close> (\<^verbatim>\<open>rts_caching_mem_allocator.cc\<close>).

  The operations are those of an allocator for which \<^verbatim>\<open>InitExpandableAllocator\<close> was not called:
  no virtual address range is reserved, \<^verbatim>\<open>IsValidVirtualAddr\<close> is false of every address, and
  \<^verbatim>\<open>MallocPhysicalMemory\<close> and \<^verbatim>\<open>FreePhysicalMemory\<close> return at once.  Every branch that needs
  a reserved range ends in \<open>expandable_mode\<close>.

  The intrusive lists of spans (theory \<open>MemLink\<close>) appear as lists of span identities.  Linking a span that is
  on a list and unlinking a span that is not on the list given destroy the links and are
  \<open>Inl Undefined\<close>.  Log output is not modelled.
\<close>

section \<open>State\<close>

text \<open>
  \<open>rts_caching\<close> tells the class of the object: \<^verbatim>\<open>RtsCachingMemAllocator\<close> overrides
  \<^verbatim>\<open>FetchNewSpan\<close>.
\<close>

record ScalableConfig =
  page_idem_num :: nat
  huge_page_mem_size :: nat
  page_mem_size_total_threshold :: nat
  span_layer_lift_max :: nat
  enable_quick_layer_mode :: bool

record allocator_cfg = ScalableConfig +
  rts_caching :: bool

record ScalableAllocator =
  spans :: span_store
  host_calls :: nat
  span_layers :: layers
  span_layer_ids :: "nat list"
  occupied_spans :: "nat list"
  blocks :: "nat \<Rightarrow> dev_block option"
  occupied_size :: nat
  alloc_count :: nat
  free_count :: nat
  recycle_count :: nat
  alloc_succ_count :: nat
  free_succ_count :: nat
  max_occupied_size :: nat
  base_addr :: nat
  theory_size :: nat
  theory_min_size :: nat
  real_theory_size :: nat
  real_theory_min_size :: nat
  try_count :: nat
  new_va_size :: nat
  is_fix_sized :: bool
  virtual_memory_addr_base :: nat
  virtual_memory_size :: nat

definition kSafeTryCount :: nat where "kSafeTryCount = 1000"
definition set_try_count :: nat where "set_try_count = 10"

definition page_mem_size :: "allocator_cfg \<Rightarrow> nat" where
  "page_mem_size c = PageLen_GetMemSize 1 (page_idem_num c)"

definition span_layer_capacity :: "allocator_cfg \<Rightarrow> nat" where
  "span_layer_capacity c =
     (1 + SpanLayerId_GetIdFromSize (page_mem_size_total_threshold c) (page_idem_num c)) mod 2 ^ 32"

definition ScalableAllocator_new :: "allocator_cfg \<Rightarrow> ScalableAllocator" where
  "ScalableAllocator_new c =
     \<lparr>spans = Map.empty, host_calls = 0, span_layers = replicate (span_layer_capacity c) None,
      span_layer_ids = [], occupied_spans = [], blocks = Map.empty, occupied_size = 0,
      alloc_count = 0, free_count = 0, recycle_count = 0, alloc_succ_count = 0,
      free_succ_count = 0, max_occupied_size = 0, base_addr = 0, theory_size = 0,
      theory_min_size = 0, real_theory_size = 0, real_theory_min_size = 0, try_count = 0,
      new_va_size = 0, is_fix_sized = False, virtual_memory_addr_base = 0, virtual_memory_size = 0\<rparr>"

definition expandable_mode :: "'a res" where
  "expandable_mode = Inl (Ret UNSUPPORTED)"

definition IsValidVirtualAddr :: "nat \<Rightarrow> ScalableAllocator \<Rightarrow> bool" where
  "IsValidVirtualAddr addr S \<longleftrightarrow> virtual_memory_addr_base S \<noteq> 0 \<and> virtual_memory_addr_base S \<le> addr \<and>
     addr - virtual_memory_addr_base S < virtual_memory_size S"

section \<open>Device\<close>

text \<open>
  \<^verbatim>\<open>RtMemAllocator\<close>: the block returned is identified by the number of the call.  Without host
  memory for the block the device memory is lost.
\<close>

definition RtMemAllocator_Alloc :: "host_env \<Rightarrow> nat \<Rightarrow> ScalableAllocator \<Rightarrow> nat option \<times> ScalableAllocator" where
  "RtMemAllocator_Alloc E sz S =
     (case rtMalloc E (alloc_count S) (blocks S) sz of
        None \<Rightarrow> (None, S)
      | Some a \<Rightarrow>
          let S' = S\<lparr>host_calls := host_calls S + 1\<rparr>
          in if new_ok E (host_calls S)
             then (Some (alloc_count S), S'\<lparr>blocks := (blocks S)(alloc_count S \<mapsto> \<lparr>blk_addr = a, blk_size = sz\<rparr>)\<rparr>)
             else (None, S'))"

definition RtMemAllocator_Free :: "host_env \<Rightarrow> nat \<Rightarrow> ScalableAllocator \<Rightarrow> (bool \<times> ScalableAllocator) res" where
  "RtMemAllocator_Free E b S =
     (case blocks S b of None \<Rightarrow> Inl Undefined
      | Some m \<Rightarrow> if rtFree E (free_count S) (blk_addr m)
                 then Inr (True, S\<lparr>blocks := (blocks S)(b := None)\<rparr>) else Inr (False, S))"

definition DeviceAllocator_Alloc :: "host_env \<Rightarrow> nat \<Rightarrow> ScalableAllocator \<Rightarrow> nat option \<times> ScalableAllocator" where
  "DeviceAllocator_Alloc E sz S =
     (case RtMemAllocator_Alloc E sz (S\<lparr>alloc_count := alloc_count S + 1\<rparr>) of
        (None, S) \<Rightarrow> (None, S)
      | (Some b, S) \<Rightarrow> (Some b, S\<lparr>occupied_size := add64 (occupied_size S) sz\<rparr>))"

definition DeviceAllocator_Free :: "host_env \<Rightarrow> nat option \<Rightarrow> ScalableAllocator \<Rightarrow> ScalableAllocator res" where
  "DeviceAllocator_Free E blk S =
     (let S = S\<lparr>free_count := free_count S + 1\<rparr>
      in case blk of None \<Rightarrow> Inr S
         | Some b \<Rightarrow>
             (case blocks S b of None \<Rightarrow> Inl Undefined
              | Some m \<Rightarrow> rbind (RtMemAllocator_Free E b S) (\<lambda>(ok, S).
                  Inr (if ok \<and> blk_size m \<le> occupied_size S
                       then S\<lparr>occupied_size := occupied_size S - blk_size m\<rparr> else S))))"

text \<open>The sum of \<^verbatim>\<open>DeviceAllocator::GetOccupiedSize\<close> has no second part without expandable memory.\<close>

definition GetOccupiedSize :: "ScalableAllocator \<Rightarrow> nat" where
  "GetOccupiedSize S = occupied_size S"

section \<open>Layers\<close>

definition linked :: "nat \<Rightarrow> ScalableAllocator \<Rightarrow> bool" where
  "linked p S \<longleftrightarrow> p \<in> set (occupied_spans S) \<or>
     list_ex (\<lambda>l. case l of None \<Rightarrow> False | Some xs \<Rightarrow> p \<in> set xs) (span_layers S)"

definition layer_at :: "nat \<Rightarrow> ScalableAllocator \<Rightarrow> nat list res" where
  "layer_at k S = rbind (vec_ix (span_layers S) k) (\<lambda>l.
     case l of None \<Rightarrow> Inl Undefined | Some xs \<Rightarrow> Inr xs)"

definition OnLayerCreated :: "allocator_cfg \<Rightarrow> nat \<Rightarrow> nat list \<Rightarrow> nat list" where
  "OnLayerCreated c k ids = (if enable_quick_layer_mode c then ids else Seq_OnLayerCreated k ids)"

definition OnLayerAddSpan :: "allocator_cfg \<Rightarrow> nat \<Rightarrow> nat list \<Rightarrow> nat list \<Rightarrow> nat list" where
  "OnLayerAddSpan c k free ids = (if enable_quick_layer_mode c then Quick_OnLayerAddSpan k free ids else ids)"

definition OnLayerRemoveSpan :: "allocator_cfg \<Rightarrow> nat \<Rightarrow> nat list \<Rightarrow> nat list \<Rightarrow> nat list" where
  "OnLayerRemoveSpan c k free ids = (if enable_quick_layer_mode c then Quick_OnLayerRemoveSpan k free ids else ids)"

definition FindFitLayerId :: "allocator_cfg \<Rightarrow> nat \<Rightarrow> ScalableAllocator \<Rightarrow> nat" where
  "FindFitLayerId c len S =
     (if enable_quick_layer_mode c then Quick_FindFitLayerId (span_layer_ids S) len (span_layer_lift_max c)
      else Seq_FindFitLayerId (span_layers S) (span_layer_ids S) len (span_layer_lift_max c))"

definition PopSpanFromLayer :: "allocator_cfg \<Rightarrow> nat \<Rightarrow> ScalableAllocator \<Rightarrow> (nat option \<times> ScalableAllocator) res" where
  "PopSpanFromLayer c k S = rbind (layer_at k S) (\<lambda>xs.
     let free = tl xs
     in Inr (case xs of [] \<Rightarrow> None | p # _ \<Rightarrow> Some p,
             S\<lparr>span_layers := (span_layers S)[k := Some free],
               span_layer_ids := OnLayerRemoveSpan c k free (span_layer_ids S)\<rparr>))"

definition PushSpanToLayer :: "allocator_cfg \<Rightarrow> nat \<Rightarrow> nat \<Rightarrow> ScalableAllocator \<Rightarrow> ScalableAllocator res" where
  "PushSpanToLayer c k p S = rbind (layer_at k S) (\<lambda>xs.
     if linked p S then Inl Undefined
     else Inr (S\<lparr>span_layers := (span_layers S)[k := Some (p # xs)],
                 span_layer_ids := OnLayerAddSpan c k (p # xs) (span_layer_ids S)\<rparr>))"

definition RemoveFromLayer :: "allocator_cfg \<Rightarrow> nat \<Rightarrow> nat \<Rightarrow> ScalableAllocator \<Rightarrow> ScalableAllocator res" where
  "RemoveFromLayer c k p S = rbind (layer_at k S) (\<lambda>xs.
     if p \<notin> set xs then Inl Undefined
     else let free = remove1 p xs
          in Inr (S\<lparr>span_layers := (span_layers S)[k := Some free],
                    span_layer_ids := OnLayerRemoveSpan c k free (span_layer_ids S)\<rparr>))"

definition FetchSpanLayer :: "host_env \<Rightarrow> allocator_cfg \<Rightarrow> nat \<Rightarrow> ScalableAllocator \<Rightarrow> (bool \<times> ScalableAllocator) res" where
  "FetchSpanLayer E c k S =
     (if span_layers S = [] \<or> span_layer_capacity c \<le> k then Inr (False, S)
      else rbind (vec_ix (span_layers S) k) (\<lambda>l.
        case l of Some _ \<Rightarrow> Inr (True, S)
        | None \<Rightarrow>
            let S' = S\<lparr>host_calls := host_calls S + 1\<rparr>
            in if new_ok E (host_calls S)
               then Inr (True, S'\<lparr>span_layers := (span_layers S)[k := Some []],
                                  span_layer_ids := OnLayerCreated c k (span_layer_ids S)\<rparr>)
               else Inr (False, S')))"

section \<open>Spans\<close>

definition on_span :: "nat \<Rightarrow> (PageSpan \<Rightarrow> PageSpan) \<Rightarrow> ScalableAllocator \<Rightarrow> ScalableAllocator res" where
  "on_span p f S = rbind (span_upd p f (spans S)) (\<lambda>h. Inr (S\<lparr>spans := h\<rparr>))"

definition BlockAlloc :: "host_env \<Rightarrow> nat option \<Rightarrow> nat \<Rightarrow> nat \<Rightarrow> ScalableAllocator \<Rightarrow> nat option \<times> ScalableAllocator" where
  "BlockAlloc E blk addr sz S =
     (let S' = S\<lparr>host_calls := host_calls S + 1\<rparr>
      in if new_ok E (host_calls S)
         then (Some (host_calls S), S'\<lparr>spans := (spans S)(host_calls S \<mapsto> PageSpan_new E blk addr sz)\<rparr>)
         else (None, S'))"

definition SpanFree :: "nat \<Rightarrow> ScalableAllocator \<Rightarrow> ScalableAllocator res" where
  "SpanFree p S = rbind (span_at (spans S) p) (\<lambda>_. Inr (S\<lparr>spans := (spans S)(p := None)\<rparr>))"

definition OccupySpan :: "host_env \<Rightarrow> allocator_cfg \<Rightarrow> nat \<Rightarrow> nat \<Rightarrow> ScalableAllocator \<Rightarrow> ScalableAllocator res" where
  "OccupySpan E c p len S = rbind (on_span p (PageSpan_Alloc E (page_idem_num c) len) S) (\<lambda>S.
     if linked p S then Inl Undefined
     else Inr (S\<lparr>occupied_spans := p # occupied_spans S, alloc_succ_count := alloc_succ_count S + 1\<rparr>))"

definition RemoveOccupied :: "nat \<Rightarrow> ScalableAllocator \<Rightarrow> ScalableAllocator res" where
  "RemoveOccupied p S =
     (if p \<in> set (occupied_spans S) then Inr (S\<lparr>occupied_spans := remove1 p (occupied_spans S)\<rparr>)
      else Inl Undefined)"

definition FetchLayerSpan :: "host_env \<Rightarrow> allocator_cfg \<Rightarrow> nat \<Rightarrow> ScalableAllocator \<Rightarrow> (nat option \<times> ScalableAllocator) res" where
  "FetchLayerSpan E c k S =
     (if span_layers S = [] then Inr (None, S)
      else rbind (vec_ix (span_layers S) k) (\<lambda>l.
        if l = None then Inr (None, S)
        else rbind (PopSpanFromLayer c k S) (\<lambda>(r, S).
          case r of None \<Rightarrow> Inr (None, S)
          | Some p \<Rightarrow> rbind (OccupySpan E c p k S) (\<lambda>S. Inr (Some p, S)))))"

definition SplitSpan :: "host_env \<Rightarrow> allocator_cfg \<Rightarrow> nat \<Rightarrow> nat \<Rightarrow> nat \<Rightarrow> nat \<Rightarrow> ScalableAllocator
    \<Rightarrow> (nat option \<times> ScalableAllocator) res" where
  "SplitSpan E c fix fit p sz S =
     (let left = (fit + 2 ^ 32 - fix) mod 2 ^ 32
      in rbind (span_at (spans S) p) (\<lambda>s.
         case BlockAlloc E None (PageLen_ForwardAddr left (page_idem_num c) (sp_addr s)) sz S of
           (None, S) \<Rightarrow> Inr (None, S)
         | (Some b, S) \<Rightarrow>
             rbind (SetBuddy p b (spans S)) (\<lambda>h.
             rbind (on_span p (SetPageLen (page_idem_num c) left) (S\<lparr>spans := h\<rparr>)) (\<lambda>S.
             rbind (FetchSpanLayer E c left S) (\<lambda>(layer, S).
             if \<not> layer then rbind (SpanFree p S) (\<lambda>S. Inr (None, S))
             else rbind (PushSpanToLayer c left p S) (\<lambda>S.
                  rbind (OccupySpan E c b fix S) (\<lambda>S. Inr (Some b, S))))))))"

section \<open>Statistics\<close>

definition GetIdlePageCountOfLayer :: "allocator_cfg \<Rightarrow> nat \<Rightarrow> ScalableAllocator \<Rightarrow> nat" where
  "GetIdlePageCountOfLayer c k S =
     (if span_layers S = [] \<or> span_layer_capacity c \<le> k then 0
      else case span_layers S ! k of None \<Rightarrow> 0 | Some xs \<Rightarrow> length xs * k mod 2 ^ 64)"

definition GetIdleMemSizeOfLayer :: "allocator_cfg \<Rightarrow> nat \<Rightarrow> ScalableAllocator \<Rightarrow> nat" where
  "GetIdleMemSizeOfLayer c k S = PageLen_GetMemSize (GetIdlePageCountOfLayer c k S mod 2 ^ 32) (page_idem_num c)"

definition GetIdleMemSize :: "allocator_cfg \<Rightarrow> ScalableAllocator \<Rightarrow> nat" where
  "GetIdleMemSize c S = fold (\<lambda>k m. add64 m (GetIdleMemSizeOfLayer c k S)) (span_layer_ids S) 0"

definition GetOccupiedPageCount :: "ScalableAllocator \<Rightarrow> nat res" where
  "GetOccupiedPageCount S =
     for_list (occupied_spans S) (\<lambda>p m. rbind (span_at (spans S) p) (\<lambda>s. Inr (add64 m (page_len s)))) 0"

definition GetOccupiedMemSize :: "allocator_cfg \<Rightarrow> ScalableAllocator \<Rightarrow> nat res" where
  "GetOccupiedMemSize c S =
     rbind (GetOccupiedPageCount S) (\<lambda>n. Inr (PageLen_GetMemSize (n mod 2 ^ 32) (page_idem_num c)))"

section \<open>Allocation\<close>

definition GetAllocSize :: "allocator_cfg \<Rightarrow> nat \<Rightarrow> nat" where
  "GetAllocSize c sz = (if sz < page_mem_size c then page_mem_size c else MemSize_GetAlignedOf sz (page_mem_size c))"

definition IsThresholdExceeded :: "allocator_cfg \<Rightarrow> nat \<Rightarrow> ScalableAllocator \<Rightarrow> bool" where
  "IsThresholdExceeded c sz S \<longleftrightarrow> sub64 (page_mem_size_total_threshold c) sz < GetOccupiedSize S"

definition Scalable_FetchNewSpan :: "host_env \<Rightarrow> allocator_cfg \<Rightarrow> nat \<Rightarrow> nat \<Rightarrow> ScalableAllocator
    \<Rightarrow> (nat option \<times> ScalableAllocator) res" where
  "Scalable_FetchNewSpan E c sz len S =
     (if IsThresholdExceeded c sz S \<and> 0 < GetIdleMemSize c S then Inr (None, S)
      else case DeviceAllocator_Alloc E sz S of
        (None, S) \<Rightarrow> Inr (None, S)
      | (Some b, S) \<Rightarrow>
          (case blocks S b of None \<Rightarrow> Inl Undefined
           | Some m \<Rightarrow>
               (case BlockAlloc E (Some b) (blk_addr m) sz S of
                  (None, S) \<Rightarrow> rbind (DeviceAllocator_Free E (Some b) S) (\<lambda>S. Inr (None, S))
                | (Some p, S) \<Rightarrow> rbind (OccupySpan E c p len S) (\<lambda>S. Inr (Some p, S)))))"

definition Rts_FetchNewSpan :: "host_env \<Rightarrow> allocator_cfg \<Rightarrow> nat \<Rightarrow> nat \<Rightarrow> ScalableAllocator
    \<Rightarrow> (nat option \<times> ScalableAllocator) res" where
  "Rts_FetchNewSpan E c sz len S =
     (let huge = huge_page_mem_size c
      in if huge \<le> sz then Scalable_FetchNewSpan E c sz len S
         else if IsThresholdExceeded c huge S \<and> 0 < GetIdleMemSize c S then Inr (None, S)
         else case DeviceAllocator_Alloc E huge S of
           (None, S) \<Rightarrow> Inr (None, S)
         | (Some b, S) \<Rightarrow>
             (case blocks S b of None \<Rightarrow> Inl Undefined
              | Some m \<Rightarrow>
                  (case BlockAlloc E (Some b) (blk_addr m) huge S of
                     (None, S) \<Rightarrow> rbind (DeviceAllocator_Free E (Some b) S) (\<lambda>S. Inr (None, S))
                   | (Some p, S) \<Rightarrow>
                       rbind (drain E p (spans S)) (\<lambda>h.
                       SplitSpan E c len (SpanLayerId_GetIdFromSize huge (page_idem_num c)) p sz (S\<lparr>spans := h\<rparr>)))))"

definition FetchNewSpan :: "host_env \<Rightarrow> allocator_cfg \<Rightarrow> nat \<Rightarrow> nat \<Rightarrow> ScalableAllocator
    \<Rightarrow> (nat option \<times> ScalableAllocator) res" where
  "FetchNewSpan E c = (if rts_caching c then Rts_FetchNewSpan E c else Scalable_FetchNewSpan E c)"

text \<open>The third component of the result is the reference parameter \<^verbatim>\<open>ret\<close>.\<close>

definition FetchSplitedSpan :: "host_env \<Rightarrow> allocator_cfg \<Rightarrow> nat \<Rightarrow> nat \<Rightarrow> nat \<Rightarrow> mem_status \<Rightarrow> ScalableAllocator
    \<Rightarrow> (nat option \<times> mem_status \<times> ScalableAllocator) res" where
  "FetchSplitedSpan E c fix fit sz ret S =
     (if span_layers S = [] \<or> fit \<le> fix then Inr (None, ret, S)
      else rbind (vec_ix (span_layers S) fit) (\<lambda>l.
        if l = None then Inr (None, ret, S)
        else rbind (PopSpanFromLayer c fit S) (\<lambda>(r, S).
          case r of None \<Rightarrow> Inr (None, ret, S)
          | Some p \<Rightarrow>
              rbind (span_at (spans S) p) (\<lambda>s.
              if set_try_count < try_count S \<and> sp_addr s \<noteq> base_addr S then
                rbind (OccupySpan E c p fit S) (\<lambda>S.
                Inr (Some p, PHYSICAL_MEM_USING, S\<lparr>try_count := 0\<rparr>))
              else if IsValidVirtualAddr (sp_addr s) S then
                rbind (SplitSpan E c fix fit p sz S) (\<lambda>(r, S). Inr (r, ret, S))
              else let (yes, s') = IsSplitable fix s; S = S\<lparr>spans := (spans S)(p \<mapsto> s')\<rparr>
                   in if \<not> yes then
                        rbind (FetchSpanLayer E c fit S) (\<lambda>(layer, S).
                        rbind (if layer then PushSpanToLayer c fit p S else Inr S) (\<lambda>S.
                        rbind (FetchNewSpan E c sz fix S) (\<lambda>(r, S). Inr (r, ret, S))))
                      else rbind (SplitSpan E c fix fit p sz S) (\<lambda>(r, S). Inr (r, ret, S))))))"

definition AllocImp :: "host_env \<Rightarrow> allocator_cfg \<Rightarrow> nat \<Rightarrow> ScalableAllocator
    \<Rightarrow> (nat option \<times> mem_status \<times> ScalableAllocator) res" where
  "AllocImp E c sz S =
     (let S = S\<lparr>try_count := try_count S + 1\<rparr>;
          alloc_size = GetAllocSize c sz;
          fix = SpanLayerId_GetIdFromSize alloc_size (page_idem_num c)
      in if span_layer_capacity c \<le> fix then Inr (None, SUCCESS, S)
         else
           rbind (rbind (FetchLayerSpan E c fix S) (\<lambda>(r, S).
             case r of Some p \<Rightarrow> Inr (Some p, SUCCESS, S)
             | None \<Rightarrow>
                 let fit = FindFitLayerId c ((fix + 1) mod 2 ^ 32) S
                 in if span_layer_capacity c \<le> fit
                    then rbind (FetchNewSpan E c alloc_size fix S) (\<lambda>(r, S). Inr (r, SUCCESS, S))
                    else FetchSplitedSpan E c fix fit alloc_size SUCCESS S))
           (\<lambda>(r, ret, S).
             case r of None \<Rightarrow> Inr (None, ret, S)
             | Some p \<Rightarrow>
                 rbind (span_at (spans S) p) (\<lambda>s.
                 if ret \<noteq> PHYSICAL_MEM_USING \<and> IsValidVirtualAddr (sp_addr s) S then expandable_mode
                 else rbind (on_span p (\<lambda>s. s\<lparr>real_size := sz\<rparr>) S) (\<lambda>S. Inr (Some p, ret, S)))))"

section \<open>Coalescing and release of spans\<close>

definition PickOutBuddy :: "allocator_cfg \<Rightarrow> nat option \<Rightarrow> ScalableAllocator \<Rightarrow> (nat option \<times> ScalableAllocator) res" where
  "PickOutBuddy c buddy S =
     (case buddy of None \<Rightarrow> Inr (None, S)
      | Some b \<Rightarrow>
          if span_layers S = [] then Inr (None, S)
          else rbind (span_at (spans S) b) (\<lambda>t.
            if sp_count t \<noteq> 0 then Inr (None, S)
            else if span_layer_capacity c \<le> page_len t then Inr (None, S)
            else rbind (vec_ix (span_layers S) (page_len t)) (\<lambda>l.
              if l = None then Inr (None, S)
              else rbind (RemoveFromLayer c (page_len t) b S) (\<lambda>S. Inr (Some b, S)))))"

definition TryMergePrev :: "allocator_cfg \<Rightarrow> nat \<Rightarrow> ScalableAllocator \<Rightarrow> (nat \<times> ScalableAllocator) res" where
  "TryMergePrev c p S =
     rbind (span_at (spans S) p) (\<lambda>s.
     rbind (PickOutBuddy c (buddy_prev s) S) (\<lambda>(r, S).
     case r of None \<Rightarrow> Inr (p, S)
     | Some b \<Rightarrow> rbind (MergeBuddy b p (spans S)) (\<lambda>h.
         rbind (SpanFree p (S\<lparr>spans := h\<rparr>)) (\<lambda>S. Inr (b, S)))))"

definition TryMergeNext :: "allocator_cfg \<Rightarrow> nat \<Rightarrow> ScalableAllocator \<Rightarrow> (nat \<times> ScalableAllocator) res" where
  "TryMergeNext c p S =
     rbind (span_at (spans S) p) (\<lambda>s.
     rbind (PickOutBuddy c (buddy_next s) S) (\<lambda>(r, S).
     case r of None \<Rightarrow> Inr (p, S)
     | Some b \<Rightarrow> rbind (MergeBuddy p b (spans S)) (\<lambda>h.
         rbind (SpanFree b (S\<lparr>spans := h\<rparr>)) (\<lambda>S. Inr (p, S)))))"

definition FreeSpan :: "host_env \<Rightarrow> allocator_cfg \<Rightarrow> nat \<Rightarrow> ScalableAllocator \<Rightarrow> ScalableAllocator res" where
  "FreeSpan E c p S =
     rbind (span_at (spans S) p) (\<lambda>s.
     if new_va_span s then expandable_mode
     else rbind (FetchSpanLayer E c (page_len s) S) (\<lambda>(layer, S).
       if \<not> layer then Inr S
       else rbind (PushSpanToLayer c (page_len s) p S) (\<lambda>S.
            Inr (S\<lparr>free_succ_count := free_succ_count S + 1\<rparr>))))"

text \<open>The statements that \<^verbatim>\<open>Free\<close> and \<^verbatim>\<open>FreeSpanEx\<close> end with.\<close>

definition release_span :: "host_env \<Rightarrow> allocator_cfg \<Rightarrow> nat \<Rightarrow> ScalableAllocator \<Rightarrow> ScalableAllocator res" where
  "release_span E c p S =
     rbind (RemoveOccupied p S) (\<lambda>S.
     rbind (TryMergeNext c p S) (\<lambda>(p, S).
     rbind (TryMergePrev c p S) (\<lambda>(p, S).
     FreeSpan E c p S)))"

definition FreeSpanEx :: "host_env \<Rightarrow> allocator_cfg \<Rightarrow> nat \<Rightarrow> ScalableAllocator \<Rightarrow> ScalableAllocator res" where
  "FreeSpanEx E c p S =
     rbind (drain E p (spans S)) (\<lambda>h. release_span E c p (S\<lparr>spans := h\<rparr>))"

text \<open>
  The loop of \<^verbatim>\<open>Alloc\<close>: \<open>n\<close> rounds are left, \<open>taken\<close> are the spans whose physical memory is in use
  elsewhere, newest first.
\<close>

fun alloc_rounds :: "host_env \<Rightarrow> allocator_cfg \<Rightarrow> nat \<Rightarrow> nat \<Rightarrow> nat option \<Rightarrow> nat list \<Rightarrow> ScalableAllocator
    \<Rightarrow> (nat option \<times> nat list \<times> ScalableAllocator) res" where
  "alloc_rounds E c sz n r taken S =
     (if n = 0 then Inr (r, taken, S)
      else rbind (AllocImp E c sz S) (\<lambda>(r, ret, S).
        if ret \<noteq> PHYSICAL_MEM_USING then Inr (r, taken, S)
        else alloc_rounds E c sz (n - 1) r (case r of None \<Rightarrow> taken | Some p \<Rightarrow> p # taken) S))"

declare alloc_rounds.simps [simp del]

definition Alloc :: "host_env \<Rightarrow> allocator_cfg \<Rightarrow> nat \<Rightarrow> ScalableAllocator \<Rightarrow> (nat option \<times> ScalableAllocator) res" where
  "Alloc E c sz S =
     (if page_mem_size_total_threshold c < sz then Inr (None, S)
      else
        rbind (alloc_rounds E c sz kSafeTryCount None [] (S\<lparr>try_count := 0\<rparr>)) (\<lambda>(r, taken, S).
        rbind (for_list (rev taken) (FreeSpanEx E c) S) (\<lambda>S.
        case r of None \<Rightarrow> Inr (None, S)
        | Some p \<Rightarrow>
            rbind (span_at (spans S) p) (\<lambda>s.
            let S = S\<lparr>theory_size := add64 (theory_size S) (PageSpan_GetSize (page_idem_num c) s),
                      real_theory_size := add64 (real_theory_size S) (real_size s)\<rparr>;
                S = S\<lparr>real_theory_min_size := max (real_theory_min_size S) (real_theory_size S),
                      theory_min_size := max (theory_min_size S) (theory_size S)\<rparr>;
                S = (if max_occupied_size S < GetOccupiedSize S \<or> new_va_span s
                     then S\<lparr>max_occupied_size := GetOccupiedSize S\<rparr> else S)
            in Inr (Some p, S)))))"

definition Free :: "host_env \<Rightarrow> allocator_cfg \<Rightarrow> nat option \<Rightarrow> ScalableAllocator \<Rightarrow> ScalableAllocator res" where
  "Free E c block S =
     (case block of None \<Rightarrow> Inr S
      | Some p \<Rightarrow>
          rbind (span_at (spans S) p) (\<lambda>s.
          let S = (if real_size s \<le> theory_size S
                   then S\<lparr>real_theory_size := sub64 (real_theory_size S) (real_size s),
                          theory_size := sub64 (theory_size S) (PageSpan_GetSize (page_idem_num c) s)\<rparr>
                   else S)
          in if new_va_span s \<or> IsValidVirtualAddr (sp_addr s) S then expandable_mode
             else rbind (case ref_span s of None \<Rightarrow> Inr S
                         | Some q \<Rightarrow> rbind (FreeSpanEx E c q S) (on_span p (\<lambda>s. s\<lparr>ref_span := None\<rparr>)))
                  (release_span E c p)))"

section \<open>Recycling and shutdown\<close>

definition SpanLayer_Recycle :: "host_env \<Rightarrow> nat \<Rightarrow> ScalableAllocator \<Rightarrow> ScalableAllocator res" where
  "SpanLayer_Recycle E k S =
     rbind (layer_at k S) (\<lambda>xs. for_list xs (\<lambda>p S.
       rbind (span_at (spans S) p) (\<lambda>s.
       if new_va_span s \<or> IsValidVirtualAddr (sp_addr s) S then expandable_mode
       else if HasSplited s then Inr S
       else rbind (layer_at k S) (\<lambda>ys.
            rbind (DeviceAllocator_Free E (block_addr s) (S\<lparr>span_layers := (span_layers S)[k := Some (remove1 p ys)]\<rparr>))
              (SpanFree p)))) S)"

definition Seq_Recycle :: "host_env \<Rightarrow> ScalableAllocator \<Rightarrow> ScalableAllocator res" where
  "Seq_Recycle E S = for_list (span_layer_ids S) (\<lambda>k S.
     if k < length (span_layers S) \<and> span_layers S ! k \<noteq> None then SpanLayer_Recycle E k S else Inr S) S"

text \<open>A null layer leaves the iterator where it is: the loop of the quick table never ends.\<close>

definition Quick_Recycle :: "host_env \<Rightarrow> ScalableAllocator \<Rightarrow> ScalableAllocator res" where
  "Quick_Recycle E S = for_list (span_layer_ids S) (\<lambda>k S.
     if length (span_layers S) \<le> k \<or> span_layers S ! k = None then Inl Undefined
     else rbind (SpanLayer_Recycle E k S) (\<lambda>S.
          rbind (layer_at k S) (\<lambda>xs.
          Inr (if xs = [] then S\<lparr>span_layer_ids := remove1 k (span_layer_ids S)\<rparr> else S)))) S"

definition Recycle :: "host_env \<Rightarrow> allocator_cfg \<Rightarrow> ScalableAllocator \<Rightarrow> ScalableAllocator res" where
  "Recycle E c S =
     (if 0 < new_va_size S then expandable_mode
      else rbind (if enable_quick_layer_mode c then Quick_Recycle E S else Seq_Recycle E S) (\<lambda>S.
           Inr (S\<lparr>recycle_count := recycle_count S + 1\<rparr>)))"

fun release_loop :: "host_env \<Rightarrow> nat \<Rightarrow> nat list \<Rightarrow> ScalableAllocator \<Rightarrow> ScalableAllocator res" where
  "release_loop E k [] S = Inr S"
| "release_loop E k (p # ps) S =
     (let S = S\<lparr>span_layers := (span_layers S)[k := Some ps]\<rparr>
      in rbind (span_at (spans S) p) (\<lambda>s.
         rbind (if IsBuddyHeader s
                then if new_va_span s \<or> IsValidVirtualAddr (sp_addr s) S then expandable_mode
                     else DeviceAllocator_Free E (block_addr s) S
                else Inr S) (\<lambda>S.
         rbind (SpanFree p S) (release_loop E k ps))))"

definition SpanLayer_Release :: "host_env \<Rightarrow> nat \<Rightarrow> ScalableAllocator \<Rightarrow> ScalableAllocator res" where
  "SpanLayer_Release E k S = rbind (layer_at k S) (\<lambda>xs. release_loop E k xs S)"

definition Seq_Release :: "host_env \<Rightarrow> ScalableAllocator \<Rightarrow> ScalableAllocator res" where
  "Seq_Release E S = for_list (span_layer_ids S) (\<lambda>k S.
     if k < length (span_layers S) \<and> span_layers S ! k \<noteq> None then SpanLayer_Release E k S else Inr S) S"

definition Quick_Release :: "host_env \<Rightarrow> ScalableAllocator \<Rightarrow> ScalableAllocator res" where
  "Quick_Release E S =
     rbind (for_list [0..<length (span_layers S)] (\<lambda>k S.
       if span_layers S ! k \<noteq> None then SpanLayer_Release E k S else Inr S) S)
     (\<lambda>S. Inr (S\<lparr>span_layer_ids := []\<rparr>))"

definition Scalable_Finalize :: "host_env \<Rightarrow> allocator_cfg \<Rightarrow> ScalableAllocator \<Rightarrow> (bool \<times> ScalableAllocator) res" where
  "Scalable_Finalize E c S =
     (if occupied_spans S \<noteq> [] then Inr (False, S)
      else if 0 < new_va_size S then expandable_mode
      else if span_layers S = [] then Inr (True, S)
      else rbind (if enable_quick_layer_mode c then Quick_Release E S else Seq_Release E S) (\<lambda>S.
           if virtual_memory_addr_base S \<noteq> 0 then expandable_mode
           else Inr (True, S\<lparr>span_layers := map (\<lambda>_. None) (span_layers S)\<rparr>)))"

definition ConvertToRootBlock :: "nat \<Rightarrow> ScalableAllocator \<Rightarrow> (nat option \<times> ScalableAllocator) res" where
  "ConvertToRootBlock p S =
     rbind (span_at (spans S) p) (\<lambda>s.
     if HasSplited s then Inr (None, S)
     else rbind (RemoveOccupied p S) (\<lambda>S. rbind (SpanFree p S) (\<lambda>S. Inr (block_addr s, S))))"

definition InitFixSizedAllocator :: "host_env \<Rightarrow> allocator_cfg \<Rightarrow> nat \<Rightarrow> nat \<Rightarrow> ScalableAllocator
    \<Rightarrow> (bool \<times> ScalableAllocator) res" where
  "InitFixSizedAllocator E c addr sz S =
     (case BlockAlloc E None addr sz (S\<lparr>is_fix_sized := True\<rparr>) of
        (None, S) \<Rightarrow> Inr (False, S)
      | (Some p, S) \<Rightarrow>
          rbind (on_span p (\<lambda>s. s\<lparr>splitable := True\<rparr>) (S\<lparr>base_addr := addr\<rparr>)) (\<lambda>S.
          rbind (drain E p (spans S)) (\<lambda>h.
          let k = SpanLayerId_GetIdFromSize sz (page_idem_num c)
          in rbind (FetchSpanLayer E c k (S\<lparr>spans := h\<rparr>)) (\<lambda>(layer, S).
             if layer then rbind (PushSpanToLayer c k p S) (\<lambda>S. Inr (True, S))
             else rbind (SpanFree p S) (\<lambda>S. Inr (False, S))))))"

text \<open>\<^verbatim>\<open>RtsCachingMemAllocator::Malloc\<close>.\<close>

definition AllocateWithTryRecycle :: "host_env \<Rightarrow> allocator_cfg \<Rightarrow> nat \<Rightarrow> ScalableAllocator
    \<Rightarrow> (nat option \<times> ScalableAllocator) res" where
  "AllocateWithTryRecycle E c sz S =
     rbind (Alloc E c sz S) (\<lambda>(r, S).
     if r \<noteq> None then Inr (r, S)
     else rbind (Recycle E c S) (Alloc E c sz))"

end
