(* ===== verification/SpanHeap.thy ===== *)
theory SpanHeap
  imports Scalable
begin

text \<open>
  The geometry of the span store: which part of a device block a span covers, how buddies are
  chained, and that splitting a span, merging two buddies, adding the first span of a new block
  and dropping the only span of a block keep it.
\<close>

section \<open>Chains of buddies\<close>

definition fin :: "allocator_cfg \<Rightarrow> PageSpan \<Rightarrow> nat" where
  "fin c s = sp_addr s + page_len s * 2 ^ page_idem_num c"

definition blk_fin :: "dev_block \<Rightarrow> nat" where
  "blk_fin m = blk_addr m + blk_size m"

text \<open>
  A span lies in the live block \<open>r p\<close>.  Its buddies are the spans before and behind it in the
  block; the first span of a block carries the block, the last one ends with it.
\<close>

definition span_ok :: "allocator_cfg \<Rightarrow> (nat \<Rightarrow> dev_block option) \<Rightarrow> (nat \<Rightarrow> nat) \<Rightarrow> span_store \<Rightarrow> nat \<Rightarrow> PageSpan \<Rightarrow> bool" where
  "span_ok c B r h p s \<longleftrightarrow>
     0 < page_len s \<and> page_len s < span_layer_capacity c \<and> \<not> new_va_span s \<and> ref_span s = None \<and>
     block_addr s = (if buddy_prev s = None then Some (r p) else None) \<and>
     (\<exists>m. B (r p) = Some m \<and> blk_size m < span_layer_capacity c * 2 ^ page_idem_num c \<and>
        blk_addr m \<le> sp_addr s \<and> fin c s \<le> blk_fin m \<and>
        (buddy_prev s = None \<longrightarrow> sp_addr s = blk_addr m) \<and> (buddy_next s = None \<longrightarrow> fin c s = blk_fin m)) \<and>
     (\<forall>q. buddy_next s = Some q \<longrightarrow> (\<exists>t. h q = Some t \<and> buddy_prev t = Some p \<and> sp_addr t = fin c s \<and> r q = r p)) \<and>
     (\<forall>q. buddy_prev s = Some q \<longrightarrow> (\<exists>t. h q = Some t \<and> buddy_next t = Some p))"

definition heap_ok :: "allocator_cfg \<Rightarrow> (nat \<Rightarrow> dev_block option) \<Rightarrow> (nat \<Rightarrow> nat) \<Rightarrow> span_store \<Rightarrow> bool" where
  "heap_ok c B r h \<longleftrightarrow>
     (\<forall>p s. h p = Some s \<longrightarrow> span_ok c B r h p s) \<and>
     (\<forall>p q s t. h p = Some s \<longrightarrow> h q = Some t \<longrightarrow> p \<noteq> q \<longrightarrow> fin c s \<le> sp_addr t \<or> fin c t \<le> sp_addr s)"

lemma heap_okD: "heap_ok c B r h \<Longrightarrow> h p = Some s \<Longrightarrow> span_ok c B r h p s"
  by (simp add: heap_ok_def)

lemma heap_ok_disjoint:
  "heap_ok c B r h \<Longrightarrow> h p = Some s \<Longrightarrow> h q = Some t \<Longrightarrow> p \<noteq> q \<Longrightarrow> fin c s \<le> sp_addr t \<or> fin c t \<le> sp_addr s"
  unfolding heap_ok_def by blast

lemma heap_okI:
  assumes "\<And>p s. h p = Some s \<Longrightarrow> span_ok c B r h p s"
    and "\<And>p q s t. h p = Some s \<Longrightarrow> h q = Some t \<Longrightarrow> p \<noteq> q \<Longrightarrow> fin c s \<le> sp_addr t \<or> fin c t \<le> sp_addr s"
  shows "heap_ok c B r h"
  unfolding heap_ok_def using assms by blast

lemma span_okE:
  assumes "span_ok c B r h p s"
  obtains m where "0 < page_len s" and "page_len s < span_layer_capacity c" and "\<not> new_va_span s" and "ref_span s = None"
    and "block_addr s = (if buddy_prev s = None then Some (r p) else None)"
    and "B (r p) = Some m" and "blk_addr m \<le> sp_addr s" and "fin c s \<le> blk_fin m"
    and "blk_size m < span_layer_capacity c * 2 ^ page_idem_num c"
    and "buddy_prev s = None \<Longrightarrow> sp_addr s = blk_addr m" and "buddy_next s = None \<Longrightarrow> fin c s = blk_fin m"
    and "\<And>q. buddy_next s = Some q \<Longrightarrow> \<exists>t. h q = Some t \<and> buddy_prev t = Some p \<and> sp_addr t = fin c s \<and> r q = r p"
    and "\<And>q. buddy_prev s = Some q \<Longrightarrow> \<exists>t. h q = Some t \<and> buddy_next t = Some p"
proof -
  from assms obtain m where "B (r p) = Some m" "blk_size m < span_layer_capacity c * 2 ^ page_idem_num c" "blk_addr m \<le> sp_addr s" "fin c s \<le> blk_fin m"
    "buddy_prev s = None \<longrightarrow> sp_addr s = blk_addr m" "buddy_next s = None \<longrightarrow> fin c s = blk_fin m"
    unfolding span_ok_def by (elim conjE exE)
  with assms show ?thesis unfolding span_ok_def by (elim conjE) (rule that, simp_all)
qed

lemma span_okI:
  assumes "0 < page_len s" and "page_len s < span_layer_capacity c" and "\<not> new_va_span s" and "ref_span s = None"
    and "block_addr s = (if buddy_prev s = None then Some (r p) else None)"
    and "B (r p) = Some m" and "blk_addr m \<le> sp_addr s" and "fin c s \<le> blk_fin m"
    and "blk_size m < span_layer_capacity c * 2 ^ page_idem_num c"
    and "buddy_prev s = None \<Longrightarrow> sp_addr s = blk_addr m" and "buddy_next s = None \<Longrightarrow> fin c s = blk_fin m"
    and "\<And>q. buddy_next s = Some q \<Longrightarrow> \<exists>t. h q = Some t \<and> buddy_prev t = Some p \<and> sp_addr t = fin c s \<and> r q = r p"
    and "\<And>q. buddy_prev s = Some q \<Longrightarrow> \<exists>t. h q = Some t \<and> buddy_next t = Some p"
  shows "span_ok c B r h p s"
  unfolding span_ok_def by (intro conjI exI [of _ m] allI impI) (use assms in simp_all)

lemma fin_grows: "span_ok c B r h p s \<Longrightarrow> sp_addr s < fin c s"
  by (auto simp: span_ok_def fin_def)

lemma next_ne: "heap_ok c B r h \<Longrightarrow> h p = Some s \<Longrightarrow> buddy_next s = Some q \<Longrightarrow> q \<noteq> p"
  using fin_grows heap_okD by (fastforce elim: span_okE)

text \<open>The fields that the geometry does not depend on.\<close>

definition same_geo :: "PageSpan \<Rightarrow> PageSpan \<Rightarrow> bool" where
  "same_geo s t \<longleftrightarrow> sp_addr t = sp_addr s \<and> page_len t = page_len s \<and> block_addr t = block_addr s \<and>
     buddy_prev t = buddy_prev s \<and> buddy_next t = buddy_next s \<and> new_va_span t = new_va_span s \<and> ref_span t = ref_span s"

lemma heap_ok_same_geo:
  assumes "heap_ok c B r h" and "h p = Some s" and "same_geo s t"
  shows "heap_ok c B r (h(p \<mapsto> t))"
proof (rule heap_okI)
  have ft: "fin c t = fin c s" using assms(3) by (simp add: fin_def same_geo_def)
  fix q u assume q: "(h(p \<mapsto> t)) q = Some u"
  then obtain u0 where u0: "h q = Some u0" "same_geo u0 u"
    using assms by (cases "q = p") (auto simp: same_geo_def)
  have ex: "\<exists>w. (h(p \<mapsto> t)) x = Some w \<and> same_geo v w" if "h x = Some v" for x v
    using that assms by (cases "x = p") (auto simp: same_geo_def)
  from heap_okD [OF assms(1) u0(1)] show "span_ok c B r (h(p \<mapsto> t)) q u"
  proof (rule span_okE, goal_cases)
    case (1 m)
    show ?case
    proof (rule span_okI [where m = m])
      show "\<exists>w. (h(p \<mapsto> t)) x = Some w \<and> buddy_prev w = Some q \<and> sp_addr w = fin c u \<and> r x = r q"
        if "buddy_next u = Some x" for x
        using 1(12) [of x] that u0(2) ex by (fastforce simp: same_geo_def fin_def)
      show "\<exists>w. (h(p \<mapsto> t)) x = Some w \<and> buddy_next w = Some q" if "buddy_prev u = Some x" for x
        using 1(13) [of x] that u0(2) ex by (fastforce simp: same_geo_def)
    qed (use 1 u0(2) in \<open>auto simp: same_geo_def fin_def\<close>)
  qed
next
  fix q q' u u' assume q: "(h(p \<mapsto> t)) q = Some u" "(h(p \<mapsto> t)) q' = Some u'" "q \<noteq> q'"
  obtain v v' where v: "h q = Some v" "same_geo v u" "h q' = Some v'" "same_geo v' u'"
    using q assms by (cases "q = p"; cases "q' = p") (auto simp: same_geo_def)
  with heap_ok_disjoint [OF assms(1) v(1,3) q(3)] show "fin c u \<le> sp_addr u' \<or> fin c u' \<le> sp_addr u"
    by (simp add: same_geo_def fin_def)
qed

section \<open>Splitting and merging\<close>

text \<open>
  The store after \<open>SetBuddy\<close>: \<open>s'\<close> and \<open>t'\<close> share the range of \<open>s\<close>, and the span behind \<open>s\<close>
  now follows \<open>t'\<close>.
\<close>

definition split_of :: "allocator_cfg \<Rightarrow> span_store \<Rightarrow> nat \<Rightarrow> nat \<Rightarrow> PageSpan \<Rightarrow> PageSpan \<Rightarrow> PageSpan \<Rightarrow> span_store \<Rightarrow> bool" where
  "split_of c h p b s s' t' h' \<longleftrightarrow>
     (h p = Some s \<and> h b = None) \<and>
     (h' p = Some s' \<and> sp_addr s' = sp_addr s \<and> block_addr s' = block_addr s \<and> buddy_prev s' = buddy_prev s \<and>
      buddy_next s' = Some b \<and> \<not> new_va_span s' \<and> ref_span s' = None) \<and>
     (h' b = Some t' \<and> sp_addr t' = fin c s' \<and> block_addr t' = None \<and> buddy_prev t' = Some p \<and>
      buddy_next t' = buddy_next s \<and> \<not> new_va_span t' \<and> ref_span t' = None) \<and>
     (0 < page_len s' \<and> 0 < page_len t' \<and> page_len s' + page_len t' = page_len s) \<and>
     (\<forall>q. q \<noteq> p \<longrightarrow> q \<noteq> b \<longrightarrow>
        h' q = map_option (\<lambda>u. if buddy_next s = Some q then u\<lparr>buddy_prev := Some b\<rparr> else u) (h q))"

lemma split_ofD:
  assumes "split_of c h p b s s' t' h'"
  shows "h p = Some s" "h b = None"
    and "h' p = Some s'" "sp_addr s' = sp_addr s" "block_addr s' = block_addr s" "buddy_prev s' = buddy_prev s"
      "buddy_next s' = Some b" "\<not> new_va_span s'" "ref_span s' = None"
    and "h' b = Some t'" "sp_addr t' = fin c s'" "block_addr t' = None" "buddy_prev t' = Some p"
      "buddy_next t' = buddy_next s" "\<not> new_va_span t'" "ref_span t' = None"
    and "0 < page_len s'" "0 < page_len t'" "page_len s' + page_len t' = page_len s"
    and "\<And>q. q \<noteq> p \<Longrightarrow> q \<noteq> b \<Longrightarrow>
      h' q = map_option (\<lambda>u. if buddy_next s = Some q then u\<lparr>buddy_prev := Some b\<rparr> else u) (h q)"
  using assms unfolding split_of_def by simp_all

lemma split_ends:
  assumes sp: "split_of c h p b s s' t' h'"
  shows "fin c t' = fin c s" "sp_addr s < fin c s'" "fin c s' < fin c s"
proof -
  note at = split_ofD(1) [OF sp] and new = split_ofD(2) [OF sp] and head = split_ofD(3-9) [OF sp]
    and tail = split_ofD(10-16) [OF sp] and lens = split_ofD(17-19) [OF sp] and rest = split_ofD(20) [OF sp]
  have "page_len s * 2 ^ page_idem_num c = page_len s' * 2 ^ page_idem_num c + page_len t' * 2 ^ page_idem_num c"
    using lens(3) by (simp flip: add_mult_distrib)
  then show "fin c t' = fin c s" "sp_addr s < fin c s'" "fin c s' < fin c s"
    using head tail lens by (auto simp: fin_def)
qed

lemma split_rest:
  assumes sp: "split_of c h p b s s' t' h'" and "q \<noteq> p" and "q \<noteq> b" and "h' q = Some u"
  obtains v where "h q = Some v" and "sp_addr u = sp_addr v" and "page_len u = page_len v" and "fin c u = fin c v"
    and "block_addr u = block_addr v" and "buddy_next u = buddy_next v" and "new_va_span u = new_va_span v"
    and "ref_span u = ref_span v"
    and "buddy_prev u = (if buddy_next s = Some q then Some b else buddy_prev v)"
  using split_ofD(20) [OF assms(1,2,3)] assms(4) that by (cases "h q") (auto simp: fin_def split: if_splits)

lemma split_kept:
  assumes sp: "split_of c h p b s s' t' h'" and "q \<noteq> p" and "h q = Some v"
  obtains u where "h' q = Some u" and "sp_addr u = sp_addr v" and "buddy_next u = buddy_next v"
    and "buddy_next s \<noteq> Some q \<Longrightarrow> buddy_prev u = buddy_prev v"
  using split_ofD(20) [OF assms(1), of q] assms split_ofD(2) [OF assms(1)] that by (cases "q = b") auto

lemma split_other:
  assumes ok: "heap_ok c B r h" and sp: "split_of c h p b s s' t' h'" and "q \<noteq> p" and "q \<noteq> b" and "h' q = Some u"
  shows "span_ok c B (r(b := r p)) h' q u"
proof (rule split_rest [OF assms(2-5)], goal_cases)
  case (1 v)
  note at = split_ofD(1) [OF sp] and new = split_ofD(2) [OF sp] and head = split_ofD(3-9) [OF sp]
    and tail = split_ofD(10-16) [OF sp] and lens = split_ofD(17-19) [OF sp] and rest = split_ofD(20) [OF sp]
  from heap_okD [OF ok 1(1)] show ?case
  proof (rule span_okE, goal_cases)
    case V: (1 m)
    show ?case
    proof (rule span_okI [where m = m])
      show "block_addr u = (if buddy_prev u = None then Some ((r(b := r p)) q) else None)"
      proof (cases "buddy_next s = Some q")
        case True
        then have "buddy_prev v = Some p"
          using heap_okD [OF ok at] 1(1) by (auto elim!: span_okE)
        then show ?thesis using True 1 V assms by simp
      qed (use 1 V assms in simp)
      show "buddy_prev u = None \<Longrightarrow> sp_addr u = blk_addr m"
        using 1 V by (auto split: if_splits)
      show "\<exists>w. h' x = Some w \<and> buddy_prev w = Some q \<and> sp_addr w = fin c u \<and> (r(b := r p)) x = (r(b := r p)) q"
        if x: "buddy_next u = Some x" for x
      proof -
        from V(12) [of x] x 1 obtain t where t: "h x = Some t" "buddy_prev t = Some q" "sp_addr t = fin c v" "r x = r q"
          by auto
        have "x \<noteq> b" using t(1) new by auto
        show ?thesis
        proof (cases "x = p")
          case True then show ?thesis using t at head 1 \<open>x \<noteq> b\<close> assms by auto
        next
          case False
          have "buddy_next s \<noteq> Some x"
            using heap_okD [OF ok at] t assms(3) by (auto elim!: span_okE)
          then show ?thesis
            using split_kept [OF sp False t(1)] t 1 \<open>x \<noteq> b\<close> assms(4) by (metis fun_upd_other)
        qed
      qed
      show "\<exists>w. h' x = Some w \<and> buddy_next w = Some q" if x: "buddy_prev u = Some x" for x
      proof (cases "buddy_next s = Some q")
        case True then show ?thesis using x 1 tail by auto
      next
        case False
        then obtain t where t: "h x = Some t" "buddy_next t = Some q"
          using V(13) [of x] x 1 by auto
        then have "x \<noteq> p" using False at by auto
        then show ?thesis using split_kept [OF sp _ t(1)] t by metis
      qed
    qed (use 1 V assms in simp_all)
  qed
qed

lemma split_heap:
  assumes ok: "heap_ok c B r h" and sp: "split_of c h p b s s' t' h'"
  shows "heap_ok c B (r(b := r p)) h'"
proof (rule heap_okI)
  note at = split_ofD(1) [OF sp] and new = split_ofD(2) [OF sp] and head = split_ofD(3-9) [OF sp]
    and tail = split_ofD(10-16) [OF sp] and lens = split_ofD(17-19) [OF sp] and rest = split_ofD(20) [OF sp]
  note ends = split_ends [OF sp]
  have pb: "b \<noteq> p" using at new by auto
  fix q u assume u: "h' q = Some u"
  obtain m where m: "B (r p) = Some m" "blk_addr m \<le> sp_addr s" "fin c s \<le> blk_fin m"
    "blk_size m < span_layer_capacity c * 2 ^ page_idem_num c"
    "page_len s < span_layer_capacity c" "buddy_prev s = None \<Longrightarrow> sp_addr s = blk_addr m"
    "buddy_next s = None \<Longrightarrow> fin c s = blk_fin m"
    using heap_okD [OF ok at] by (auto elim: span_okE)
  have nxt: "\<exists>w. h' x = Some w \<and> buddy_prev w = Some b \<and> sp_addr w = fin c t' \<and> r x = r p \<and> x \<noteq> b"
    if x: "buddy_next s = Some x" for x
  proof -
    obtain t where "h x = Some t" "sp_addr t = fin c s" "r x = r p"
      using heap_okD [OF ok at] x by (auto elim!: span_okE)
    then show ?thesis using rest [of x] next_ne [OF ok at x] new x ends(1) by (cases "x = b") auto
  qed
  have prv: "\<exists>w. h' x = Some w \<and> buddy_next w = Some p" if x: "buddy_prev s = Some x" for x
  proof -
    obtain t where t: "h x = Some t" "buddy_next t = Some p"
      using heap_okD [OF ok at] x by (auto elim!: span_okE)
    then have "x \<noteq> p" using next_ne [OF ok] by blast
    then show ?thesis using split_kept [OF sp _ t(1)] t by metis
  qed
  consider "q = p" | "q = b" | "q \<noteq> p" "q \<noteq> b" by blast
  then show "span_ok c B (r(b := r p)) h' q u"
  proof cases
    case 1
    have ba: "block_addr s = (if buddy_prev s = None then Some (r p) else None)"
      using heap_okD [OF ok at] by (auto elim: span_okE)
    show ?thesis unfolding 1
      by (rule span_okI [where m = m]) (use 1 u head tail lens ends m pb prv ba in auto)
  next
    case 2
    then have u2: "u = t'" using u tail(1) by simp
    show ?thesis unfolding 2 u2
    proof (rule span_okI [where m = m])
      show "\<exists>t. h' x = Some t \<and> buddy_prev t = Some b \<and> sp_addr t = fin c t' \<and> (r(b := r p)) x = (r(b := r p)) b"
        if "buddy_next t' = Some x" for x
        using nxt [of x] that tail(5) by auto
    qed (use head tail lens ends m in auto)
  qed (use split_other [OF ok sp] u in blast)
next
  note at = split_ofD(1) [OF sp] and new = split_ofD(2) [OF sp] and head = split_ofD(3-9) [OF sp]
    and tail = split_ofD(10-16) [OF sp] and lens = split_ofD(17-19) [OF sp] and rest = split_ofD(20) [OF sp]
  note ends = split_ends [OF sp]
  fix q q' u u' assume q: "h' q = Some u" "h' q' = Some u'" "q \<noteq> q'"
  have apart: "fin c s' \<le> sp_addr v \<or> fin c v \<le> sp_addr s'" "fin c t' \<le> sp_addr v \<or> fin c v \<le> sp_addr t'"
    if v: "h' x = Some v" "x \<noteq> p" "x \<noteq> b" for x v
  proof -
    obtain w where "h x = Some w" "sp_addr v = sp_addr w" "fin c v = fin c w"
      using split_rest [OF sp v(2,3,1)] by metis
    then have "fin c s \<le> sp_addr v \<or> fin c v \<le> sp_addr s"
      using heap_ok_disjoint [OF ok at] v(2) by metis
    then show "fin c s' \<le> sp_addr v \<or> fin c v \<le> sp_addr s'" "fin c t' \<le> sp_addr v \<or> fin c v \<le> sp_addr t'"
      using head(2) tail(2) ends by auto
  qed
  consider "q = p" "q' = b" | "q = b" "q' = p" | "q = p" "q' \<noteq> b" "q' \<noteq> p" | "q = b" "q' \<noteq> p" "q' \<noteq> b"
    | "q' = p" "q \<noteq> p" "q \<noteq> b" | "q' = b" "q \<noteq> p" "q \<noteq> b" | (rest) "q \<noteq> p" "q \<noteq> b" "q' \<noteq> p" "q' \<noteq> b"
    using q(3) by blast
  then show "fin c u \<le> sp_addr u' \<or> fin c u' \<le> sp_addr u"
  proof cases
    case rest
    obtain v where v: "h q = Some v" "sp_addr u = sp_addr v" "fin c u = fin c v"
      using split_rest [OF sp rest(1,2) q(1)] by metis
    obtain v' where v': "h q' = Some v'" "sp_addr u' = sp_addr v'" "fin c u' = fin c v'"
      using split_rest [OF sp rest(3,4) q(2)] by metis
    show ?thesis using heap_ok_disjoint [OF ok v(1) v'(1) q(3)] v v' by simp
  qed (use q head(1) tail(1,2) apart [of q u] apart [of q' u'] in auto)
qed

text \<open>The store after \<open>MergeBuddy\<close> and the release of the merged buddy \<open>t\<close>.\<close>

definition merge_of :: "allocator_cfg \<Rightarrow> span_store \<Rightarrow> nat \<Rightarrow> nat \<Rightarrow> PageSpan \<Rightarrow> PageSpan \<Rightarrow> PageSpan \<Rightarrow> span_store \<Rightarrow> bool" where
  "merge_of c h p b s t s' h' \<longleftrightarrow>
     (h p = Some s \<and> h b = Some t \<and> buddy_next s = Some b) \<and>
     (h' p = Some s' \<and> sp_addr s' = sp_addr s \<and> block_addr s' = block_addr s \<and> buddy_prev s' = buddy_prev s \<and>
      buddy_next s' = buddy_next t \<and> \<not> new_va_span s' \<and> ref_span s' = None \<and> page_len s' = page_len s + page_len t) \<and>
     h' b = None \<and>
     (\<forall>q. q \<noteq> p \<longrightarrow> q \<noteq> b \<longrightarrow>
        h' q = map_option (\<lambda>u. if buddy_next t = Some q then u\<lparr>buddy_prev := Some p\<rparr> else u) (h q))"

lemma merge_ofD:
  assumes "merge_of c h p b s t s' h'"
  shows "h p = Some s" "h b = Some t" "buddy_next s = Some b"
    and "h' p = Some s'" "sp_addr s' = sp_addr s" "block_addr s' = block_addr s" "buddy_prev s' = buddy_prev s"
      "buddy_next s' = buddy_next t" "\<not> new_va_span s'" "ref_span s' = None" "page_len s' = page_len s + page_len t"
    and "h' b = None"
    and "\<And>q. q \<noteq> p \<Longrightarrow> q \<noteq> b \<Longrightarrow>
      h' q = map_option (\<lambda>u. if buddy_next t = Some q then u\<lparr>buddy_prev := Some p\<rparr> else u) (h q)"
  using assms unfolding merge_of_def by simp_all

lemma merge_buddies:
  assumes ok: "heap_ok c B r h" and mg: "merge_of c h p b s t s' h'"
  shows "buddy_prev t = Some p" "sp_addr t = fin c s" "r b = r p" "b \<noteq> p" "fin c s' = fin c t"
    and "fin c s < fin c t" "sp_addr s < fin c s"
proof -
  note at = merge_ofD(1-3) [OF mg]
  show prt: "buddy_prev t = Some p" "sp_addr t = fin c s" "r b = r p"
    using heap_okD [OF ok at(1)] at by (auto elim!: span_okE)
  show "b \<noteq> p" using next_ne [OF ok at(1,3)] .
  show "fin c s' = fin c t"
    using merge_ofD(5,11) [OF mg] prt by (simp add: fin_def add_mult_distrib)
  show "fin c s < fin c t" "sp_addr s < fin c s"
    using fin_grows [OF heap_okD [OF ok at(2)]] fin_grows [OF heap_okD [OF ok at(1)]] prt by simp_all
qed

lemma merge_rest:
  assumes mg: "merge_of c h p b s t s' h'" and "q \<noteq> p" and "h' q = Some u"
  obtains v where "q \<noteq> b" and "h q = Some v" and "sp_addr u = sp_addr v" and "page_len u = page_len v" and "fin c u = fin c v"
    and "block_addr u = block_addr v" and "buddy_next u = buddy_next v" and "new_va_span u = new_va_span v"
    and "ref_span u = ref_span v"
    and "buddy_prev u = (if buddy_next t = Some q then Some p else buddy_prev v)"
proof -
  have "q \<noteq> b" using assms(3) merge_ofD(12) [OF mg] by auto
  then show ?thesis
    using merge_ofD(13) [OF mg assms(2)] assms(3) that by (cases "h q") (auto simp: fin_def split: if_splits)
qed

lemma merge_kept:
  assumes mg: "merge_of c h p b s t s' h'" and "q \<noteq> p" and "q \<noteq> b" and "h q = Some v"
  obtains u where "h' q = Some u" and "sp_addr u = sp_addr v" and "buddy_next u = buddy_next v"
    and "buddy_next t \<noteq> Some q \<Longrightarrow> buddy_prev u = buddy_prev v"
  using merge_ofD(13) [OF mg assms(2,3)] assms that by auto

lemma merge_other:
  assumes ok: "heap_ok c B r h" and mg: "merge_of c h p b s t s' h'" and "q \<noteq> p" and "h' q = Some u"
  shows "span_ok c B r h' q u"
proof (rule merge_rest [OF assms(2-4)], goal_cases)
  case (1 v)
  note at = merge_ofD(1-3) [OF mg] and head = merge_ofD(4-11) [OF mg] and bud = merge_buddies [OF ok mg]
  from heap_okD [OF ok 1(2)] show ?case
  proof (rule span_okE, goal_cases)
    case V: (1 m)
    show ?case
    proof (rule span_okI [where m = m])
      show "block_addr u = (if buddy_prev u = None then Some (r q) else None)"
      proof (cases "buddy_next t = Some q")
        case True
        then have "buddy_prev v = Some b"
          using heap_okD [OF ok at(2)] 1(2) by (auto elim!: span_okE)
        then show ?thesis using True 1 V by simp
      qed (use 1 V in simp)
      show "buddy_prev u = None \<Longrightarrow> sp_addr u = blk_addr m"
        using 1 V by (auto split: if_splits)
      show "\<exists>w. h' x = Some w \<and> buddy_prev w = Some q \<and> sp_addr w = fin c u \<and> r x = r q"
        if x: "buddy_next u = Some x" for x
      proof -
        from V(12) [of x] x 1 obtain w where w: "h x = Some w" "buddy_prev w = Some q" "sp_addr w = fin c v" "r x = r q"
          by auto
        have "x \<noteq> b" using w bud(1) at(2) assms(3) by auto
        show ?thesis
        proof (cases "x = p")
          case True then show ?thesis using w at head 1 by auto
        next
          case False
          have "buddy_next t \<noteq> Some x"
            using heap_okD [OF ok at(2)] w 1(1) by (auto elim!: span_okE)
          then show ?thesis using merge_kept [OF mg False \<open>x \<noteq> b\<close> w(1)] w 1 by metis
        qed
      qed
      show "\<exists>w. h' x = Some w \<and> buddy_next w = Some q" if x: "buddy_prev u = Some x" for x
      proof (cases "buddy_next t = Some q")
        case True then show ?thesis using x 1 head by auto
      next
        case False
        then obtain w where w: "h x = Some w" "buddy_next w = Some q"
          using V(13) [of x] x 1 by auto
        then have "x \<noteq> p" "x \<noteq> b" using False at 1(1) by auto
        then show ?thesis using merge_kept [OF mg _ _ w(1)] w by metis
      qed
    qed (use 1 V in simp_all)
  qed
qed

lemma buddies_fit:
  assumes ok: "heap_ok c B r h" and h: "h p = Some s" "buddy_next s = Some b" "h b = Some t"
  shows "page_len s + page_len t < span_layer_capacity c"
proof -
  obtain m where m: "B (r p) = Some m" "blk_addr m \<le> sp_addr s" "blk_size m < span_layer_capacity c * 2 ^ page_idem_num c"
    using heap_okD [OF ok h(1)] by (auto elim: span_okE)
  have "r b = r p" "sp_addr t = fin c s"
    using heap_okD [OF ok h(1)] h by (auto elim!: span_okE)
  moreover from this have "fin c t \<le> blk_fin m"
    using heap_okD [OF ok h(3)] m(1) by (auto elim: span_okE)
  ultimately have "(page_len s + page_len t) * 2 ^ page_idem_num c < span_layer_capacity c * 2 ^ page_idem_num c"
    using m(2,3) unfolding fin_def blk_fin_def add_mult_distrib by linarith
  then show ?thesis by simp
qed

lemma merge_capacity:
  assumes ok: "heap_ok c B r h" and mg: "merge_of c h p b s t s' h'"
  shows "page_len s' < span_layer_capacity c"
  using buddies_fit [OF ok merge_ofD(1,3,2) [OF mg]] merge_ofD(11) [OF mg] by simp

lemma merge_heap:
  assumes ok: "heap_ok c B r h" and mg: "merge_of c h p b s t s' h'"
  shows "heap_ok c B r h'"
proof (rule heap_okI)
  note at = merge_ofD(1-3) [OF mg] and head = merge_ofD(4-11) [OF mg] and bud = merge_buddies [OF ok mg]
  fix q u assume u: "h' q = Some u"
  show "span_ok c B r h' q u"
  proof (cases "q = p")
    case True
    then have us: "u = s'" using u head(1) by simp
    from heap_okD [OF ok at(1)] show ?thesis unfolding True us
    proof (rule span_okE, goal_cases)
      case S: (1 m)
      from heap_okD [OF ok at(2)] show ?case
      proof (rule span_okE, goal_cases)
        case T: (1 m')
        have m: "m' = m" using T(6) S(6) bud(3) by simp
        show ?case
        proof (rule span_okI [where m = m])
          show "\<exists>w. h' x = Some w \<and> buddy_prev w = Some p \<and> sp_addr w = fin c s' \<and> r x = r p"
            if x: "buddy_next s' = Some x" for x
          proof -
            obtain w where w: "h x = Some w" "buddy_prev w = Some b" "sp_addr w = fin c t" "r x = r b"
              using T(12) [of x] x head(5) by auto
            have "x \<noteq> p" using w at bud(2,6,7) by auto
            moreover have "x \<noteq> b" using w at bud by auto
            ultimately show ?thesis using merge_ofD(13) [OF mg, of x] w x head(5) bud(3,5) by simp
          qed
          show "\<exists>w. h' x = Some w \<and> buddy_next w = Some p" if x: "buddy_prev s' = Some x" for x
          proof -
            obtain w where w: "h x = Some w" "buddy_next w = Some p" using S(13) [of x] x head(4) by auto
            have "x \<noteq> p" using w next_ne [OF ok] by blast
            moreover have "x \<noteq> b"
            proof
              assume "x = b"
              then have "sp_addr s = fin c t" using T(12) [of p] w at by auto
              then show False using bud by simp
            qed
            ultimately show ?thesis using merge_kept [OF mg _ _ w(1)] w by metis
          qed
          show "page_len s' < span_layer_capacity c" by (rule merge_capacity [OF ok mg])
        qed (use S T head bud m in simp_all)
      qed
    qed
  qed (use merge_other [OF ok mg] u in blast)
next
  note at = merge_ofD(1-3) [OF mg] and head = merge_ofD(4-11) [OF mg] and bud = merge_buddies [OF ok mg]
  fix q q' u u' assume q: "h' q = Some u" "h' q' = Some u'" "q \<noteq> q'"
  have apart: "fin c s' \<le> sp_addr v \<or> fin c v \<le> sp_addr s'" if v: "h' x = Some v" "x \<noteq> p" for x v
  proof -
    obtain w where "x \<noteq> b" "h x = Some w" "sp_addr v = sp_addr w" "fin c v = fin c w"
      using merge_rest [OF mg v(2,1)] by metis
    then have "fin c s \<le> sp_addr v \<or> fin c v \<le> sp_addr s" "fin c t \<le> sp_addr v \<or> fin c v \<le> sp_addr t" "sp_addr v < fin c v"
      using heap_ok_disjoint [OF ok at(1)] heap_ok_disjoint [OF ok at(2)] v(2) fin_grows [OF heap_okD [OF ok]] by metis+
    then show ?thesis using head bud by auto
  qed
  consider "q = p" "q' \<noteq> p" | "q' = p" "q \<noteq> p" | (rest) "q \<noteq> p" "q' \<noteq> p" using q(3) by blast
  then show "fin c u \<le> sp_addr u' \<or> fin c u' \<le> sp_addr u"
  proof cases
    case rest
    obtain v where v: "h q = Some v" "sp_addr u = sp_addr v" "fin c u = fin c v"
      using merge_rest [OF mg rest(1) q(1)] by metis
    obtain v' where v': "h q' = Some v'" "sp_addr u' = sp_addr v'" "fin c u' = fin c v'"
      using merge_rest [OF mg rest(2) q(2)] by metis
    show ?thesis using heap_ok_disjoint [OF ok v(1) v'(1) q(3)] v v' by simp
  qed (use q head(1) apart [of q u] apart [of q' u'] in auto)
qed

section \<open>Blocks\<close>

lemma new_block_heap:
  assumes ok: "heap_ok c B r h" and "h p = None" and "B b = None"
    and free: "\<And>b' m'. B b' = Some m' \<Longrightarrow> blk_fin m \<le> blk_addr m' \<or> blk_fin m' \<le> blk_addr m"
    and s: "sp_addr s = blk_addr m" "fin c s = blk_fin m" "0 < page_len s" "page_len s < span_layer_capacity c"
      "block_addr s = Some b" "buddy_prev s = None" "buddy_next s = None" "\<not> new_va_span s" "ref_span s = None"
  shows "heap_ok c (B(b \<mapsto> m)) (r(p := b)) (h(p \<mapsto> s))"
proof (rule heap_okI)
  have "blk_size m = page_len s * 2 ^ page_idem_num c"
    using s(1,2) by (simp add: fin_def blk_fin_def)
  then have sz: "blk_size m < span_layer_capacity c * 2 ^ page_idem_num c"
    using s(4) by simp
  fix q u assume u: "(h(p \<mapsto> s)) q = Some u"
  show "span_ok c (B(b \<mapsto> m)) (r(p := b)) (h(p \<mapsto> s)) q u"
  proof (cases "q = p")
    case True
    then show ?thesis
      by (intro span_okI [where m = m]) (use u s sz in auto)
  next
    case False
    then have hq: "h q = Some u" using u by simp
    from heap_okD [OF ok hq] show ?thesis
    proof (rule span_okE, goal_cases)
      case V: (1 m')
      have "r q \<noteq> b" using V(6) assms(3) by auto
      show ?case
      proof (rule span_okI [where m = m'])
        show "\<exists>t. (h(p \<mapsto> s)) x = Some t \<and> buddy_prev t = Some q \<and> sp_addr t = fin c u \<and> (r(p := b)) x = (r(p := b)) q"
          if "buddy_next u = Some x" for x
          using V(12) [OF that] assms(2) False by (auto simp: fun_upd_def)
        show "\<exists>t. (h(p \<mapsto> s)) x = Some t \<and> buddy_next t = Some q" if "buddy_prev u = Some x" for x
          using V(13) [OF that] assms(2) by (auto simp: fun_upd_def)
      qed (use V False \<open>r q \<noteq> b\<close> in simp_all)
    qed
  qed
next
  fix q q' u u' assume q: "(h(p \<mapsto> s)) q = Some u" "(h(p \<mapsto> s)) q' = Some u'" "q \<noteq> q'"
  have apart: "fin c s \<le> sp_addr v \<or> fin c v \<le> sp_addr s" if hx: "h x = Some v" for x v
  proof -
    obtain m' where "B (r x) = Some m'" "blk_addr m' \<le> sp_addr v" "fin c v \<le> blk_fin m'"
      using heap_okD [OF ok hx] by (auto elim: span_okE)
    then show ?thesis using free [of "r x" m'] s by auto
  qed
  then show "fin c u \<le> sp_addr u' \<or> fin c u' \<le> sp_addr u"
    using q heap_ok_disjoint [OF ok, of q u q' u'] apart [of q' u'] apart [of q u] by (auto split: if_splits)
qed

text \<open>The only span of a block goes, and with it the block.\<close>

lemma drop_span_heap:
  assumes ok: "heap_ok c B r h" and s: "h p = Some s" "\<not> HasSplited s"
  shows "heap_ok c B r (h(p := None))"
    and "h q = Some u \<Longrightarrow> q \<noteq> p \<Longrightarrow> r q \<noteq> r p"
    and "block_addr s = Some (r p)"
proof -
  have np: "buddy_prev s = None" "buddy_next s = None" using s(2) by (auto simp: HasSplited_def)
  show "block_addr s = Some (r p)" using heap_okD [OF ok s(1)] np by (auto elim: span_okE)
  show "heap_ok c B r (h(p := None))"
  proof (rule heap_okI)
    fix q u assume u: "(h(p := None)) q = Some u"
    then have hq: "q \<noteq> p" "h q = Some u" by (auto split: if_splits)
    from heap_okD [OF ok hq(2)] show "span_ok c B r (h(p := None)) q u"
    proof (rule span_okE, goal_cases)
      case V: (1 m)
      show ?case
      proof (rule span_okI [where m = m])
        show "\<exists>t. (h(p := None)) x = Some t \<and> buddy_prev t = Some q \<and> sp_addr t = fin c u \<and> r x = r q"
          if "buddy_next u = Some x" for x
          using V(12) [OF that] s(1) np by auto
        show "\<exists>t. (h(p := None)) x = Some t \<and> buddy_next t = Some q" if "buddy_prev u = Some x" for x
          using V(13) [OF that] s(1) np by auto
      qed (use V in simp_all)
    qed
  next
    fix q q' u u' assume "(h(p := None)) q = Some u" "(h(p := None)) q' = Some u'" "q \<noteq> q'"
    then show "fin c u \<le> sp_addr u' \<or> fin c u' \<le> sp_addr u"
      using heap_ok_disjoint [OF ok, of q u q' u'] by (auto split: if_splits)
  qed
  show "r q \<noteq> r p" if q: "h q = Some u" "q \<noteq> p"
  proof
    assume rq: "r q = r p"
    obtain m where "B (r p) = Some m" "sp_addr s = blk_addr m" "fin c s = blk_fin m"
      using heap_okD [OF ok s(1)] np by (auto elim: span_okE)
    moreover have "blk_addr m \<le> sp_addr u" "fin c u \<le> blk_fin m"
      using heap_okD [OF ok q(1)] calculation(1) rq by (auto elim: span_okE)
    ultimately show False
      using heap_ok_disjoint [OF ok s(1) q(1)] q(2) fin_grows [OF heap_okD [OF ok q(1)]] fin_grows [OF heap_okD [OF ok s(1)]]
      by auto
  qed
qed

lemma drop_block_heap:
  assumes ok: "heap_ok c B r h" and "\<And>q u. h q = Some u \<Longrightarrow> r q \<noteq> b"
  shows "heap_ok c (B(b := None)) r h"
proof (rule heap_okI)
  fix q u assume hq: "h q = Some u"
  from heap_okD [OF ok hq] show "span_ok c (B(b := None)) r h q u"
    by (rule span_okE) (rule span_okI, use assms(2) [OF hq] in simp_all)
qed (use heap_ok_disjoint [OF ok] in blast)

end
