(* ===== verification/SpanLists.thy ===== *)
theory SpanLists
  imports SpanHeap
begin

text \<open>
  The lists of the allocator: every span is on the list of occupied spans or idle in the layer of
  its length, no two idle spans are buddies, and the lookup table agrees with the layers.
\<close>

section \<open>Idle and occupied spans\<close>

definition idle :: "layers \<Rightarrow> nat set" where
  "idle ls = {p. \<exists>k xs. k < length ls \<and> ls ! k = Some xs \<and> p \<in> set xs}"

text \<open>The spans of \<open>P\<close> are in the hands of a running operation.\<close>

definition lists_ok :: "allocator_cfg \<Rightarrow> nat set \<Rightarrow> span_store \<Rightarrow> nat list \<Rightarrow> layers \<Rightarrow> bool" where
  "lists_ok c P h occ ls \<longleftrightarrow>
     length ls = span_layer_capacity c \<and> distinct occ \<and>
     (\<forall>p\<in>set occ. \<exists>s. h p = Some s \<and> 0 < sp_count s) \<and>
     (\<forall>k xs. k < length ls \<longrightarrow> ls ! k = Some xs \<longrightarrow>
        distinct xs \<and> (\<forall>p\<in>set xs. \<exists>s. h p = Some s \<and> page_len s = k \<and> sp_count s = 0)) \<and>
     (\<forall>p s. h p = Some s \<longrightarrow> p \<in> P \<or> p \<in> set occ \<or> p \<in> idle ls) \<and>
     (\<forall>p\<in>P. p \<notin> set occ \<and> p \<notin> idle ls) \<and>
     (\<forall>p q s. h p = Some s \<longrightarrow> buddy_next s = Some q \<longrightarrow> p \<in> idle ls \<longrightarrow> q \<notin> idle ls)"

lemma lists_okD:
  assumes "lists_ok c P h occ ls"
  shows lo_len: "length ls = span_layer_capacity c" and lo_dist: "distinct occ"
    and lo_occ: "\<And>p. p \<in> set occ \<Longrightarrow> \<exists>s. h p = Some s \<and> 0 < sp_count s"
    and lo_layer: "\<And>k xs. k < length ls \<Longrightarrow> ls ! k = Some xs \<Longrightarrow> distinct xs"
    and lo_idle: "\<And>k xs p. k < length ls \<Longrightarrow> ls ! k = Some xs \<Longrightarrow> p \<in> set xs \<Longrightarrow>
        \<exists>s. h p = Some s \<and> page_len s = k \<and> sp_count s = 0"
    and lo_all: "\<And>p s. h p = Some s \<Longrightarrow> p \<in> P \<or> p \<in> set occ \<or> p \<in> idle ls"
    and lo_hand: "\<And>p. p \<in> P \<Longrightarrow> p \<notin> set occ \<and> p \<notin> idle ls"
    and lo_coal: "\<And>p q s. h p = Some s \<Longrightarrow> buddy_next s = Some q \<Longrightarrow> p \<in> idle ls \<Longrightarrow> q \<notin> idle ls"
  using assms unfolding lists_ok_def by simp_all

lemma lists_okI:
  assumes "length ls = span_layer_capacity c" and "distinct occ"
    and "\<And>p. p \<in> set occ \<Longrightarrow> \<exists>s. h p = Some s \<and> 0 < sp_count s"
    and "\<And>k xs. k < length ls \<Longrightarrow> ls ! k = Some xs \<Longrightarrow> distinct xs"
    and "\<And>k xs p. k < length ls \<Longrightarrow> ls ! k = Some xs \<Longrightarrow> p \<in> set xs \<Longrightarrow>
        \<exists>s. h p = Some s \<and> page_len s = k \<and> sp_count s = 0"
    and "\<And>p s. h p = Some s \<Longrightarrow> p \<in> P \<or> p \<in> set occ \<or> p \<in> idle ls"
    and "\<And>p. p \<in> P \<Longrightarrow> p \<notin> set occ \<and> p \<notin> idle ls"
    and "\<And>p q s. h p = Some s \<Longrightarrow> buddy_next s = Some q \<Longrightarrow> p \<in> idle ls \<Longrightarrow> q \<notin> idle ls"
  shows "lists_ok c P h occ ls"
  using assms unfolding lists_ok_def by simp

lemma idleI: "k < length ls \<Longrightarrow> ls ! k = Some xs \<Longrightarrow> p \<in> set xs \<Longrightarrow> p \<in> idle ls"
  by (auto simp: idle_def)

lemma idleE:
  assumes "p \<in> idle ls"
  obtains k xs where "k < length ls" and "ls ! k = Some xs" and "p \<in> set xs"
  using assms by (auto simp: idle_def)

lemma idle_span:
  assumes "lists_ok c P h occ ls" and "p \<in> idle ls"
  obtains s xs where "h p = Some s" and "sp_count s = 0" and "page_len s < length ls"
    and "ls ! page_len s = Some xs" and "p \<in> set xs"
  using idleE [OF assms(2)] lo_idle [OF assms(1)] by metis

lemma idle_occ: "lists_ok c P h occ ls \<Longrightarrow> p \<in> idle ls \<Longrightarrow> p \<notin> set occ"
  by (metis idle_span lo_occ less_numeral_extra(3) option.inject)

lemma layer_unique:
  "lists_ok c P h occ ls \<Longrightarrow> k < length ls \<Longrightarrow> ls ! k = Some xs \<Longrightarrow> p \<in> set xs \<Longrightarrow>
   k' < length ls \<Longrightarrow> ls ! k' = Some ys \<Longrightarrow> p \<in> set ys \<Longrightarrow> k' = k"
  by (metis lo_idle option.inject)

lemma idle_update:
  assumes "k < length ls"
  shows "idle (ls[k := Some ys]) = set ys \<union> {p. \<exists>k' xs. k' < length ls \<and> k' \<noteq> k \<and> ls ! k' = Some xs \<and> p \<in> set xs}"
proof (intro set_eqI iffI)
  fix p assume "p \<in> idle (ls[k := Some ys])"
  then obtain k' xs where "k' < length ls" "ls[k := Some ys] ! k' = Some xs" "p \<in> set xs"
    by (auto elim!: idleE)
  then show "p \<in> set ys \<union> {p. \<exists>k' xs. k' < length ls \<and> k' \<noteq> k \<and> ls ! k' = Some xs \<and> p \<in> set xs}"
    by (cases "k' = k") auto
next
  fix p assume "p \<in> set ys \<union> {p. \<exists>k' xs. k' < length ls \<and> k' \<noteq> k \<and> ls ! k' = Some xs \<and> p \<in> set xs}"
  then show "p \<in> idle (ls[k := Some ys])"
  proof (elim UnE CollectE exE conjE)
    assume "p \<in> set ys"
    then show ?thesis using assms by (intro idleI [of k _ ys]) simp_all
  next
    fix k' xs assume "k' < length ls" "k' \<noteq> k" "ls ! k' = Some xs" "p \<in> set xs"
    then show ?thesis by (intro idleI [of k' _ xs]) simp_all
  qed
qed

lemma idle_push: "k < length ls \<Longrightarrow> ls ! k = Some xs \<Longrightarrow> idle (ls[k := Some (p # xs)]) = insert p (idle ls)"
  using idle_update [of k ls "p # xs"] idle_update [of k ls xs] list_update_id [of ls k] by auto

lemma idle_create: "ls ! k = None \<Longrightarrow> idle (ls[k := Some []]) = idle ls"
  using idle_update [of k ls "[]"] by (cases "k < length ls") (force simp: idle_def)+

lemma idle_remove:
  assumes "lists_ok c P h occ ls" and "k < length ls" and "ls ! k = Some xs" and "p \<in> set xs"
  shows "idle (ls[k := Some (remove1 p xs)]) = idle ls - {p}"
proof -
  have other: "p \<notin> set ys" if "k' < length ls" "k' \<noteq> k" "ls ! k' = Some ys" for k' ys
    using layer_unique [OF assms] that by blast
  have "idle ls = idle (ls[k := Some xs])" using assms(3) by (metis list_update_id)
  then show ?thesis
    unfolding idle_update [OF assms(2)] using lo_layer [OF assms(1-3)] other by auto
qed

section \<open>Steps of the lists\<close>

lemma lists_push:
  assumes ok: "lists_ok c (insert p P) h occ ls" and s: "h p = Some s" "page_len s = k" "sp_count s = 0" "p \<notin> P"
    and k: "k < length ls" "ls ! k = Some xs"
    and nxt: "\<And>q. buddy_next s = Some q \<Longrightarrow> q \<noteq> p \<and> q \<notin> idle ls"
    and prv: "\<And>q t. h q = Some t \<Longrightarrow> buddy_next t = Some p \<Longrightarrow> q \<notin> idle ls"
  shows "lists_ok c P h occ (ls[k := Some (p # xs)])"
proof (rule lists_okI)
  note push = idle_push [OF k, of p]
  have hand: "p \<notin> set occ" "p \<notin> idle ls" using lo_hand [OF ok, of p] by simp_all
  show "length (ls[k := Some (p # xs)]) = span_layer_capacity c" using lo_len [OF ok] by simp
  show "distinct occ" by (rule lo_dist [OF ok])
  show "\<exists>s. h q = Some s \<and> 0 < sp_count s" if "q \<in> set occ" for q using lo_occ [OF ok that] .
  show "distinct ys" if "k' < length (ls[k := Some (p # xs)])" "ls[k := Some (p # xs)] ! k' = Some ys" for k' ys
    using that lo_layer [OF ok] k hand(2) by (cases "k' = k") (auto simp: idle_def)
  show "\<exists>s. h q = Some s \<and> page_len s = k' \<and> sp_count s = 0"
    if "k' < length (ls[k := Some (p # xs)])" "ls[k := Some (p # xs)] ! k' = Some ys" "q \<in> set ys" for k' ys q
    using that lo_idle [OF ok] k s by (cases "k' = k") auto
  show "q \<in> P \<or> q \<in> set occ \<or> q \<in> idle (ls[k := Some (p # xs)])" if "h q = Some t" for q t
    using lo_all [OF ok that] push by auto
  show "q \<notin> set occ \<and> q \<notin> idle (ls[k := Some (p # xs)])" if "q \<in> P" for q
    using lo_hand [OF ok, of q] that push s(4) by auto
  show "x \<notin> idle (ls[k := Some (p # xs)])"
    if "h q = Some t" "buddy_next t = Some x" "q \<in> idle (ls[k := Some (p # xs)])" for q x t
    using that lo_coal [OF ok that(1,2)] push nxt [of x] prv [of q t] s by (cases "q = p") auto
qed

lemma lists_remove:
  assumes ok: "lists_ok c P h occ ls" and k: "k < length ls" "ls ! k = Some xs" and p: "p \<in> set xs"
  shows "lists_ok c (insert p P) h occ (ls[k := Some (remove1 p xs)])"
proof (rule lists_okI)
  note rem = idle_remove [OF ok k p]
  have pi: "p \<in> idle ls" using k p by (rule idleI)
  show "length (ls[k := Some (remove1 p xs)]) = span_layer_capacity c" using lo_len [OF ok] by simp
  show "distinct occ" by (rule lo_dist [OF ok])
  show "\<exists>s. h q = Some s \<and> 0 < sp_count s" if "q \<in> set occ" for q using lo_occ [OF ok that] .
  show "distinct ys" if "k' < length (ls[k := Some (remove1 p xs)])" "ls[k := Some (remove1 p xs)] ! k' = Some ys" for k' ys
    using that lo_layer [OF ok] k by (cases "k' = k") auto
  show "\<exists>s. h q = Some s \<and> page_len s = k' \<and> sp_count s = 0"
    if "k' < length (ls[k := Some (remove1 p xs)])" "ls[k := Some (remove1 p xs)] ! k' = Some ys" "q \<in> set ys" for k' ys q
    using that lo_idle [OF ok] k set_remove1_subset [of p xs] by (cases "k' = k") (simp_all add: subset_iff)
  show "q \<in> insert p P \<or> q \<in> set occ \<or> q \<in> idle (ls[k := Some (remove1 p xs)])" if "h q = Some t" for q t
    using lo_all [OF ok that] rem by auto
  show "q \<notin> set occ \<and> q \<notin> idle (ls[k := Some (remove1 p xs)])" if "q \<in> insert p P" for q
    using lo_hand [OF ok, of q] that rem idle_occ [OF ok pi] by auto
  show "x \<notin> idle (ls[k := Some (remove1 p xs)])"
    if "h q = Some t" "buddy_next t = Some x" "q \<in> idle (ls[k := Some (remove1 p xs)])" for q x t
    using that lo_coal [OF ok that(1,2)] rem by auto
qed

lemma lists_create:
  assumes ok: "lists_ok c P h occ ls" and k: "ls ! k = None"
  shows "lists_ok c P h occ (ls[k := Some []])"
proof (rule lists_okI)
  show "length (ls[k := Some []]) = span_layer_capacity c" using lo_len [OF ok] by simp
  show "distinct occ" by (rule lo_dist [OF ok])
  show "\<exists>s. h q = Some s \<and> 0 < sp_count s" if "q \<in> set occ" for q using lo_occ [OF ok that] .
  show "distinct ys" if "k' < length (ls[k := Some []])" "ls[k := Some []] ! k' = Some ys" for k' ys
    using that lo_layer [OF ok] by (cases "k' = k") auto
  show "\<exists>s. h q = Some s \<and> page_len s = k' \<and> sp_count s = 0"
    if "k' < length (ls[k := Some []])" "ls[k := Some []] ! k' = Some ys" "q \<in> set ys" for k' ys q
    using that lo_idle [OF ok] by (cases "k' = k") auto
qed (use lo_all [OF ok] lo_hand [OF ok] lo_coal [OF ok] idle_create [OF k] in auto)

lemma lists_occupy:
  assumes ok: "lists_ok c (insert p P) h occ ls" and "h p = Some s" "0 < sp_count s" "p \<notin> P"
  shows "lists_ok c P h (p # occ) ls"
proof (rule lists_okI)
  show "length ls = span_layer_capacity c" by (rule lo_len [OF ok])
  show "distinct (p # occ)" using lo_dist [OF ok] lo_hand [OF ok, of p] by simp
  show "\<exists>s. h q = Some s \<and> 0 < sp_count s" if "q \<in> set (p # occ)" for q
    using that lo_occ [OF ok] assms(2,3) by auto
  show "q \<in> P \<or> q \<in> set (p # occ) \<or> q \<in> idle ls" if "h q = Some t" for q t
    using lo_all [OF ok that] by auto
  show "q \<notin> set (p # occ) \<and> q \<notin> idle ls" if "q \<in> P" for q
    using that lo_hand [OF ok, of q] assms(4) by auto
qed (use lo_layer [OF ok] lo_idle [OF ok] lo_coal [OF ok] in auto)

lemma lists_vacate:
  assumes ok: "lists_ok c P h occ ls" and "p \<in> set occ"
  shows "lists_ok c (insert p P) h (remove1 p occ) ls"
proof (rule lists_okI)
  note d = lo_dist [OF ok]
  show "distinct (remove1 p occ)" using d by simp
  show "\<exists>s. h q = Some s \<and> 0 < sp_count s" if "q \<in> set (remove1 p occ)" for q
    using that lo_occ [OF ok] by (auto dest: notin_set_remove1)
  show "q \<in> insert p P \<or> q \<in> set (remove1 p occ) \<or> q \<in> idle ls" if "h q = Some t" for q t
    using lo_all [OF ok that] d by auto
  show "q \<notin> set (remove1 p occ) \<and> q \<notin> idle ls" if "q \<in> insert p P" for q
    using that lo_hand [OF ok, of q] d idle_occ [OF ok, of p] assms(2) by (auto dest: notin_set_remove1)
qed (use lo_len [OF ok] lo_layer [OF ok] lo_idle [OF ok] lo_coal [OF ok] in auto)

text \<open>The store changes at the spans in hand only, up to fields that the lists do not depend on.\<close>

definition list_view :: "PageSpan \<Rightarrow> nat \<times> nat \<times> nat option" where
  "list_view s = (page_len s, sp_count s, buddy_next s)"

lemma lists_store:
  assumes ok: "lists_ok c P h occ ls"
    and same: "\<And>q. q \<notin> P \<Longrightarrow> q \<notin> P' \<Longrightarrow> map_option list_view (h' q) = map_option list_view (h q)"
    and gone: "\<And>q. q \<in> P \<Longrightarrow> q \<notin> P' \<Longrightarrow> h' q = None" and fresh: "\<And>q. q \<notin> P \<Longrightarrow> q \<in> P' \<Longrightarrow> h q = None"
  shows "lists_ok c P' h' occ ls"
proof -
  have out: "q \<notin> P \<and> q \<notin> P'" if "q \<in> set occ \<or> q \<in> idle ls" for q
    using that lo_hand [OF ok, of q] lo_occ [OF ok, of q] idle_span [OF ok, of q] fresh [of q] by (metis option.distinct(1))
  have new: "\<exists>t. h' q = Some t \<and> list_view t = list_view s" if "q \<in> set occ \<or> q \<in> idle ls" "h q = Some s" for q s
    using same [of q] out [OF that(1)] that(2) by (cases "h' q") auto
  have old: "\<exists>t. h q = Some t \<and> list_view t = list_view s" if "q \<notin> P'" "h' q = Some s" for q s
    using same [of q] gone [of q] that by (cases "h q"; cases "q \<in> P") auto
  show ?thesis
  proof (rule lists_okI)
    show "\<exists>s. h' q = Some s \<and> 0 < sp_count s" if "q \<in> set occ" for q
      using lo_occ [OF ok that] new [of q] that by (fastforce simp: list_view_def)
    show "\<exists>s. h' q = Some s \<and> page_len s = k \<and> sp_count s = 0" if "k < length ls" "ls ! k = Some xs" "q \<in> set xs" for k xs q
      using lo_idle [OF ok that] new [of q] idleI [OF that] by (fastforce simp: list_view_def)
    show "q \<in> P' \<or> q \<in> set occ \<or> q \<in> idle ls" if "h' q = Some t" for q t
      using old [OF _ that] lo_all [OF ok] gone [of q] that by fastforce
    show "q \<notin> set occ \<and> q \<notin> idle ls" if "q \<in> P'" for q using out [of q] that by blast
    show "x \<notin> idle ls" if "h' q = Some t" "buddy_next t = Some x" "q \<in> idle ls" for q x t
      using old [OF _ that(1)] out [of q] that(2,3) lo_coal [OF ok] by (fastforce simp: list_view_def)
  qed (use lo_len [OF ok] lo_dist [OF ok] lo_layer [OF ok] in auto)
qed

end
