(* ===== verification/SpanLut.thy ===== *)
theory SpanLut
  imports Spans
begin

text \<open>
  The contract of \<^verbatim>\<open>SpanLayerLut\<close> and its two implementations: the table is told when a layer is
  created and when a span enters or leaves a layer, and it finds the smallest layer from a given
  length on that has an idle span.
\<close>

section \<open>Sets as ascending lists\<close>

lemma emplace_set [simp]: "set (emplace x xs) = insert x (set xs)"
  by (auto simp: emplace_def set_insort_key)

lemma emplace_sorted: "sorted_wrt (<) xs \<Longrightarrow> sorted_wrt (<) (emplace x xs)"
  by (auto simp: emplace_def strict_sorted_iff sorted_insort distinct_insort)

lemma remove1_sorted: "sorted_wrt (<) xs \<Longrightarrow> sorted_wrt (<) (remove1 x xs)" for xs :: "nat list"
  by (auto simp: strict_sorted_iff sorted_remove1)

lemma lower_bound_filter: "sorted_wrt (<) xs \<Longrightarrow> lower_bound x xs = filter (\<lambda>y. x \<le> y) xs"
proof (induction xs)
  case (Cons y ys)
  show ?case
  proof (cases "y < x")
    case False
    then have "filter (\<lambda>y. x \<le> y) ys = ys"
      using Cons.prems by (intro filter_True) auto
    then show ?thesis using False by (simp add: lower_bound_def)
  qed (use Cons in \<open>simp add: lower_bound_def\<close>)
qed (simp add: lower_bound_def)

lemma filled_update: "k < length ls \<Longrightarrow> layer_filled (ls[k := Some ys]) j \<longleftrightarrow> (if j = k then ys \<noteq> [] else layer_filled ls j)"
  by (auto simp: layer_filled_def)

section \<open>The contract\<close>

text \<open>The first layer from \<open>len\<close> on with an idle span.\<close>

definition least_fit :: "layers \<Rightarrow> nat \<Rightarrow> nat" where
  "least_fit ls len =
     (case filter (\<lambda>k. len \<le> k \<and> layer_filled ls k) [0..<length ls] of
        [] \<Rightarrow> SPAN_LAYER_ID_INVALID | k # _ \<Rightarrow> k)"

lemma least_fitI:
  assumes "k < length ls" and "len \<le> k" and "layer_filled ls k"
    and "\<And>j. len \<le> j \<Longrightarrow> layer_filled ls j \<Longrightarrow> k \<le> j"
  shows "least_fit ls len = k"
proof -
  let ?P = "\<lambda>k. len \<le> k \<and> layer_filled ls k"
  have "[0..<length ls] = [0..<k] @ k # [Suc k..<length ls]"
    using assms(1) upt_add_eq_append [of 0 k "length ls - k"] upt_conv_Cons [of k "length ls"] by simp
  moreover have "filter ?P [0..<k] = []"
    using assms(4) by (force simp: filter_empty_conv)
  ultimately show ?thesis using assms(2,3) by (simp add: least_fit_def)
qed

lemma least_fit_none: "(\<And>j. len \<le> j \<Longrightarrow> \<not> layer_filled ls j) \<Longrightarrow> least_fit ls len = SPAN_LAYER_ID_INVALID"
  by (simp add: least_fit_def)

locale span_layer_lut =
  fixes table_ok :: "nat list \<Rightarrow> layers \<Rightarrow> bool"
    and created :: "nat \<Rightarrow> nat list \<Rightarrow> nat list"
    and added removed :: "nat \<Rightarrow> nat list \<Rightarrow> nat list \<Rightarrow> nat list"
    and find_fit :: "layers \<Rightarrow> nat list \<Rightarrow> nat \<Rightarrow> nat \<Rightarrow> nat"
  assumes empty_ok: "table_ok [] (replicate n None)"
    and created_ok: "table_ok ids ls \<Longrightarrow> k < length ls \<Longrightarrow> ls ! k = None \<Longrightarrow> table_ok (created k ids) (ls[k := Some []])"
    and added_ok: "table_ok ids ls \<Longrightarrow> k < length ls \<Longrightarrow> ls ! k = Some xs \<Longrightarrow>
      table_ok (added k (p # xs) ids) (ls[k := Some (p # xs)])"
    and removed_ok: "table_ok ids ls \<Longrightarrow> k < length ls \<Longrightarrow> ls ! k = Some xs \<Longrightarrow> (xs = [] \<Longrightarrow> free = []) \<Longrightarrow>
      table_ok (removed k free ids) (ls[k := Some free])"
    and find_hit: "table_ok ids ls \<Longrightarrow> find_fit ls ids len lift \<noteq> SPAN_LAYER_ID_INVALID \<Longrightarrow>
      layer_filled ls (find_fit ls ids len lift) \<and> len \<le> find_fit ls ids len lift"
    and find_min: "table_ok ids ls \<Longrightarrow> layer_filled ls k \<Longrightarrow> len \<le> k \<Longrightarrow> k < SPAN_LAYER_ID_INVALID \<Longrightarrow>
      length ls \<le> lift \<Longrightarrow> find_fit ls ids len lift \<le> k"
begin

lemma find_least:
  assumes "table_ok ids ls" and "length ls \<le> lift" and "length ls \<le> SPAN_LAYER_ID_INVALID"
  shows "find_fit ls ids len lift = least_fit ls len"
proof (cases "\<exists>k. layer_filled ls k \<and> len \<le> k")
  case True
  then obtain k where k: "layer_filled ls k" "len \<le> k" "k < SPAN_LAYER_ID_INVALID"
    using assms(3) by (auto simp: layer_filled_def)
  let ?f = "find_fit ls ids len lift"
  have "?f \<le> k" using find_min [OF assms(1) k assms(2)] .
  then have f: "layer_filled ls ?f" "len \<le> ?f"
    using find_hit [OF assms(1), of len lift] k(3) by auto
  show ?thesis
  proof (rule least_fitI [symmetric])
    show "?f < length ls" using f(1) by (simp add: layer_filled_def)
    show "?f \<le> j" if "len \<le> j" "layer_filled ls j" for j
      using find_min [OF assms(1) that(2,1) _ assms(2)] that(2) assms(3) by (simp add: layer_filled_def)
  qed (use f in simp_all)
next
  case False
  then have "find_fit ls ids len lift = SPAN_LAYER_ID_INVALID" using find_hit [OF assms(1)] by blast
  moreover have "least_fit ls len = SPAN_LAYER_ID_INVALID"
    by (rule least_fit_none) (use False in blast)
  ultimately show ?thesis by simp
qed

end

section \<open>The two tables\<close>

definition quick_ok :: "nat list \<Rightarrow> layers \<Rightarrow> bool" where
  "quick_ok ids ls \<longleftrightarrow> sorted_wrt (<) ids \<and> set ids = {k. layer_filled ls k}"

definition seq_ok :: "nat list \<Rightarrow> layers \<Rightarrow> bool" where
  "seq_ok ids ls \<longleftrightarrow> sorted_wrt (<) ids \<and> set ids \<subseteq> {..<length ls} \<and> (\<forall>k<length ls. ls ! k \<noteq> None \<longrightarrow> k \<in> set ids)"

lemma Seq_scan_hit: "Seq_scan ls lift ks \<noteq> SPAN_LAYER_ID_INVALID \<Longrightarrow>
    layer_filled ls (Seq_scan ls lift ks) \<and> Seq_scan ls lift ks \<in> set ks"
  by (induction ls lift ks rule: Seq_scan.induct) (auto split: if_splits)

lemma Seq_scan_min: "sorted_wrt (<) ks \<Longrightarrow> length ks \<le> lift \<Longrightarrow> k \<in> set ks \<Longrightarrow> layer_filled ls k \<Longrightarrow> Seq_scan ls lift ks \<le> k"
  by (induction ls lift ks rule: Seq_scan.induct) (auto simp: order.strict_implies_order)

lemma strict_sorted_length: "sorted_wrt (<) ids \<Longrightarrow> set ids \<subseteq> {..<n} \<Longrightarrow> length ids \<le> n" for ids :: "nat list"
  by (metis card_lessThan card_mono distinct_card finite_lessThan strict_sorted_iff)

lemma quick_created:
  assumes "quick_ok ids ls" and "k < length ls" and "ls ! k = None"
  shows "quick_ok ids (ls[k := Some []])"
proof -
  have "\<not> layer_filled ls k" using assms by (simp add: layer_filled_def)
  then have "layer_filled (ls[k := Some []]) j = layer_filled ls j" for j
    by (simp add: filled_update [OF assms(2)])
  then show ?thesis using assms by (simp add: quick_ok_def)
qed

lemma quick_added:
  assumes "quick_ok ids ls" and "k < length ls" and "ls ! k = Some xs"
  shows "quick_ok (Quick_OnLayerAddSpan k (p # xs) ids) (ls[k := Some (p # xs)])"
proof -
  have "layer_filled ls k = (xs \<noteq> [])" using assms by (simp add: layer_filled_def)
  then have "{j. layer_filled (ls[k := Some (p # xs)]) j} = insert k {j. layer_filled ls j}"
    unfolding filled_update [OF assms(2)] by auto
  moreover have "xs \<noteq> [] \<Longrightarrow> k \<in> set ids" using assms by (simp add: quick_ok_def layer_filled_def)
  ultimately show ?thesis
    using assms(1) by (cases "xs = []") (auto simp: quick_ok_def Quick_OnLayerAddSpan_def emplace_sorted)
qed

lemma quick_removed:
  assumes "quick_ok ids ls" and "k < length ls" and "ls ! k = Some xs" and "xs = [] \<Longrightarrow> free = []"
  shows "quick_ok (Quick_OnLayerRemoveSpan k free ids) (ls[k := Some free])"
proof (cases "free = []")
  case True
  have "{j. layer_filled (ls[k := Some free]) j} = {j. layer_filled ls j} - {k}"
    unfolding filled_update [OF assms(2)] using True by auto
  then show ?thesis using assms(1) True
    by (simp add: quick_ok_def Quick_OnLayerRemoveSpan_def strict_sorted_iff sorted_remove1)
next
  case False
  then have "layer_filled ls k" using assms(2-4) by (auto simp: layer_filled_def)
  then have "{j. layer_filled (ls[k := Some free]) j} = {j. layer_filled ls j}"
    unfolding filled_update [OF assms(2)] using False by auto
  then show ?thesis using assms(1) False by (simp add: quick_ok_def Quick_OnLayerRemoveSpan_def)
qed

lemma quick_hit:
  assumes "quick_ok ids ls" and "Quick_FindFitLayerId ids len lift \<noteq> SPAN_LAYER_ID_INVALID"
  shows "layer_filled ls (Quick_FindFitLayerId ids len lift) \<and> len \<le> Quick_FindFitLayerId ids len lift"
proof -
  obtain k ks where ks: "lower_bound len ids = k # ks" "Quick_FindFitLayerId ids len lift = k"
    using assms(2) by (auto simp: Quick_FindFitLayerId_def split: if_splits list.splits)
  then have "k \<in> set (lower_bound len ids)" by simp
  then show ?thesis using assms(1) ks(2) by (auto simp: quick_ok_def lower_bound_filter)
qed

lemma quick_min:
  assumes "quick_ok ids ls" and "layer_filled ls k" and "len \<le> k" and "length ls \<le> lift"
  shows "Quick_FindFitLayerId ids len lift \<le> k"
proof -
  have s: "sorted_wrt (<) ids" "k \<in> set ids" using assms(1,2) by (simp_all add: quick_ok_def)
  have "k \<in> set (lower_bound len ids)" "sorted_wrt (<) (lower_bound len ids)"
    unfolding lower_bound_filter [OF s(1)] using s assms(3) by (simp_all add: sorted_wrt_filter)
  moreover have "lift \<noteq> 0" using assms(2,4) by (auto simp: layer_filled_def)
  ultimately show ?thesis
    by (auto simp: Quick_FindFitLayerId_def less_imp_le split: list.splits)
qed

interpretation quick_lut: span_layer_lut quick_ok "\<lambda>k ids. ids" Quick_OnLayerAddSpan Quick_OnLayerRemoveSpan
  "\<lambda>ls. Quick_FindFitLayerId"
proof
  show "quick_ok [] (replicate n None)" for n
    by (simp add: quick_ok_def layer_filled_def)
qed (fact quick_created, fact quick_added, fact quick_removed, fact quick_hit, rule quick_min)

interpretation seq_lut: span_layer_lut seq_ok Seq_OnLayerCreated "\<lambda>k free ids. ids" "\<lambda>k free ids. ids"
  Seq_FindFitLayerId
proof
  show "seq_ok [] (replicate n None)" for n
    by (simp add: seq_ok_def)
  show "seq_ok (Seq_OnLayerCreated k ids) (ls[k := Some []])" if "seq_ok ids ls" "k < length ls" "ls ! k = None" for ids ls k
    using that by (auto simp: seq_ok_def Seq_OnLayerCreated_def emplace_sorted nth_list_update split: if_splits)
  show "seq_ok ids (ls[k := Some (p # xs)])" if "seq_ok ids ls" "k < length ls" "ls ! k = Some xs" for ids ls k xs p
    using that by (auto simp: seq_ok_def nth_list_update split: if_splits)
  show "seq_ok ids (ls[k := Some free])" if "seq_ok ids ls" "k < length ls" "ls ! k = Some xs" for ids ls k xs free
    using that by (auto simp: seq_ok_def nth_list_update split: if_splits)
  show "layer_filled ls (Seq_FindFitLayerId ls ids len lift) \<and> len \<le> Seq_FindFitLayerId ls ids len lift"
    if "seq_ok ids ls" "Seq_FindFitLayerId ls ids len lift \<noteq> SPAN_LAYER_ID_INVALID" for ids ls len lift
    using that Seq_scan_hit [of ls lift "lower_bound len ids"]
    by (auto simp: seq_ok_def Seq_FindFitLayerId_def lower_bound_filter split: if_splits)
  show "Seq_FindFitLayerId ls ids len lift \<le> k"
    if "seq_ok ids ls" "layer_filled ls k" "len \<le> k" "length ls \<le> lift" for ids ls k len lift
  proof -
    have "lift \<noteq> 0" using that(2,4) by (auto simp: layer_filled_def)
    have "k \<in> set ids" using that(1,2) by (auto simp: seq_ok_def layer_filled_def)
    moreover have "length ids \<le> lift"
      using strict_sorted_length [of ids "length ls"] that(1,4) by (simp add: seq_ok_def)
    then have "length (filter (\<lambda>y. len \<le> y) ids) \<le> lift"
      using length_filter_le le_trans by blast
    ultimately show ?thesis
      using that(1-3) \<open>lift \<noteq> 0\<close>
      by (auto simp: seq_ok_def Seq_FindFitLayerId_def lower_bound_filter sorted_wrt_filter intro!: Seq_scan_min)
  qed
qed

section \<open>Agreement\<close>

text \<open>
  Both tables are told of the same events: layers that are created, spans that enter a layer or
  leave it.  The quick table ignores the first kind, the sequential table the others.
\<close>

datatype lut_event = LayerCreated nat | SpanAdded nat nat | SpanRemoved nat nat

fun lut_apply :: "lut_event \<Rightarrow> layers \<times> nat list \<times> nat list \<Rightarrow> (layers \<times> nat list \<times> nat list) option" where
  "lut_apply (LayerCreated k) (ls, q, s) =
     (if k < length ls \<and> ls ! k = None then Some (ls[k := Some []], q, Seq_OnLayerCreated k s) else None)"
| "lut_apply (SpanAdded k p) (ls, q, s) =
     (if k < length ls then
        (case ls ! k of None \<Rightarrow> None
         | Some xs \<Rightarrow> Some (ls[k := Some (p # xs)], Quick_OnLayerAddSpan k (p # xs) q, s))
      else None)"
| "lut_apply (SpanRemoved k p) (ls, q, s) =
     (if k < length ls then
        (case ls ! k of None \<Rightarrow> None
         | Some xs \<Rightarrow>
             if p \<in> set xs
             then Some (ls[k := Some (remove1 p xs)], Quick_OnLayerRemoveSpan k (remove1 p xs) q, s)
             else None)
      else None)"

fun lut_run :: "lut_event list \<Rightarrow> layers \<times> nat list \<times> nat list \<Rightarrow> (layers \<times> nat list \<times> nat list) option" where
  "lut_run [] st = Some st"
| "lut_run (e # es) st = (case lut_apply e st of None \<Rightarrow> None | Some st \<Rightarrow> lut_run es st)"

lemma lut_apply_ok:
  assumes "lut_apply e (ls, q, s) = Some (ls', q', s')" and "quick_ok q ls" and "seq_ok s ls"
  shows "quick_ok q' ls' \<and> seq_ok s' ls' \<and> length ls' = length ls"
proof (cases e)
  case (LayerCreated k)
  then show ?thesis
    using assms quick_lut.created_ok seq_lut.created_ok by (auto split: if_splits)
next
  case (SpanAdded k p)
  then show ?thesis
    using assms quick_lut.added_ok seq_lut.added_ok by (auto split: if_splits option.splits)
next
  case (SpanRemoved k p)
  then show ?thesis
    using assms quick_lut.removed_ok [of q ls k] seq_lut.removed_ok [of s ls k]
    by (auto split: if_splits option.splits)
qed

lemma lut_run_ok:
  assumes "lut_run es (ls, q, s) = Some (ls', q', s')" and "quick_ok q ls" and "seq_ok s ls"
  shows "quick_ok q' ls' \<and> seq_ok s' ls' \<and> length ls' = length ls"
  using assms
proof (induction es arbitrary: ls q s)
  case (Cons e es)
  then obtain ls1 q1 s1 where "lut_apply e (ls, q, s) = Some (ls1, q1, s1)" "lut_run es (ls1, q1, s1) = Some (ls', q', s')"
    by (auto split: option.splits)
  with lut_apply_ok [OF this(1) Cons.prems(2,3)] Cons.IH show ?case by metis
qed simp



end
