(* ===== verification/ScalableInv.thy ===== *)
theory ScalableInv
  imports SpanLists SpanLut
begin

text \<open>
  The invariant of the page allocator and its preservation by every operation.  \<open>core\<close> is the part
  about the lists and the lookup table, which every intermediate state of an operation keeps;
  \<open>heap_ok\<close> is the geometry of the spans, which holds before and after an operation.
\<close>

section \<open>Hypotheses\<close>

text \<open>
  The host does not run out of memory; \<^verbatim>\<open>AddCount\<close> makes an unused block used, \<^verbatim>\<open>SubCount\<close> lowers
  a positive count; \<^verbatim>\<open>rtMalloc\<close> returns, in its \<open>n\<close>-th call, memory that overlaps none of the blocks
  that earlier calls handed out and that are still in use.
\<close>

definition env_ok :: "host_env \<Rightarrow> bool" where
  "env_ok E \<longleftrightarrow> (\<forall>n. new_ok E n) \<and> 0 < add_count E 0 \<and> (\<forall>n>0. sub_count E n < n) \<and>
     (\<forall>n B sz a. rtMalloc E n B sz = Some a \<longrightarrow> (\<forall>b<n. \<forall>m. B b = Some m \<longrightarrow> a + sz \<le> blk_addr m \<or> blk_fin m \<le> a))"

lemma env_okD:
  assumes "env_ok E"
  shows env_new: "new_ok E n" and env_add: "0 < add_count E 0" and env_sub: "0 < n \<Longrightarrow> sub_count E n < n"
    and env_malloc: "rtMalloc E n B sz = Some a \<Longrightarrow> b < n \<Longrightarrow> B b = Some m \<Longrightarrow> a + sz \<le> blk_addr m \<or> blk_fin m \<le> a"
  using assms unfolding env_ok_def by blast+

text \<open>
  Page counts up to the total threshold fit into 32 bits, and the huge page of
  \<^verbatim>\<open>RtsCachingMemAllocator\<close> is a whole number of pages below the threshold.
\<close>

definition cfg_ok :: "allocator_cfg \<Rightarrow> bool" where
  "cfg_ok c \<longleftrightarrow> page_idem_num c < 32 \<and> page_mem_size_total_threshold c div 2 ^ page_idem_num c < 2 ^ 32 - 1 \<and>
     (rts_caching c \<longrightarrow> 2 ^ page_idem_num c dvd huge_page_mem_size c \<and> huge_page_mem_size c \<le> page_mem_size_total_threshold c)"

lemma capacity: "cfg_ok c \<Longrightarrow> span_layer_capacity c = page_mem_size_total_threshold c div 2 ^ page_idem_num c + 1"
  by (simp add: cfg_ok_def span_layer_capacity_def SpanLayerId_GetIdFromSize_def PageLen_GetLenFromSize_def)

lemma capacity_bounds: "cfg_ok c \<Longrightarrow> 0 < span_layer_capacity c \<and> span_layer_capacity c < 2 ^ 32"
  by (simp add: capacity cfg_ok_def)

section \<open>Lookup table\<close>

definition lut_ok :: "allocator_cfg \<Rightarrow> nat list \<Rightarrow> layers \<Rightarrow> bool" where
  "lut_ok c ids ls \<longleftrightarrow> (if enable_quick_layer_mode c then quick_ok ids ls else seq_ok ids ls)"

lemma lut_created: "lut_ok c ids ls \<Longrightarrow> k < length ls \<Longrightarrow> ls ! k = None \<Longrightarrow> lut_ok c (OnLayerCreated c k ids) (ls[k := Some []])"
  using quick_lut.created_ok seq_lut.created_ok by (auto simp: lut_ok_def OnLayerCreated_def)

lemma lut_added: "lut_ok c ids ls \<Longrightarrow> k < length ls \<Longrightarrow> ls ! k = Some xs \<Longrightarrow>
    lut_ok c (OnLayerAddSpan c k (p # xs) ids) (ls[k := Some (p # xs)])"
  using quick_lut.added_ok seq_lut.added_ok by (auto simp: lut_ok_def OnLayerAddSpan_def)

lemma lut_removed: "lut_ok c ids ls \<Longrightarrow> k < length ls \<Longrightarrow> ls ! k = Some xs \<Longrightarrow> (xs = [] \<Longrightarrow> free = []) \<Longrightarrow>
    lut_ok c (OnLayerRemoveSpan c k free ids) (ls[k := Some free])"
  using quick_lut.removed_ok seq_lut.removed_ok by (auto simp: lut_ok_def OnLayerRemoveSpan_def)

lemma lut_find:
  assumes "lut_ok c (span_layer_ids S) (span_layers S)" and "FindFitLayerId c len S < span_layer_capacity c" and "cfg_ok c"
  shows "layer_filled (span_layers S) (FindFitLayerId c len S)" and "len \<le> FindFitLayerId c len S"
proof -
  have "FindFitLayerId c len S \<noteq> SPAN_LAYER_ID_INVALID"
    using assms(2) capacity_bounds [OF assms(3)] by (simp add: SPAN_LAYER_ID_INVALID_def)
  then show "layer_filled (span_layers S) (FindFitLayerId c len S)" and "len \<le> FindFitLayerId c len S"
    using assms(1) quick_lut.find_hit [of "span_layer_ids S" "span_layers S" len "span_layer_lift_max c"]
      seq_lut.find_hit [of "span_layer_ids S" "span_layers S" len "span_layer_lift_max c"]
    by (auto simp: lut_ok_def FindFitLayerId_def split: if_splits)
qed

section \<open>Invariant\<close>

definition core :: "allocator_cfg \<Rightarrow> nat set \<Rightarrow> ScalableAllocator \<Rightarrow> bool" where
  "core c P S \<longleftrightarrow> lists_ok c P (spans S) (occupied_spans S) (span_layers S) \<and>
     lut_ok c (span_layer_ids S) (span_layers S) \<and>
     (\<forall>p. spans S p \<noteq> None \<longrightarrow> p < host_calls S) \<and> (\<forall>b. blocks S b \<noteq> None \<longrightarrow> b \<le> alloc_count S) \<and>
     virtual_memory_addr_base S = 0 \<and> new_va_size S = 0"

definition alloc_inv :: "allocator_cfg \<Rightarrow> (nat \<Rightarrow> nat) \<Rightarrow> ScalableAllocator \<Rightarrow> bool" where
  "alloc_inv c r S \<longleftrightarrow> core c {} S \<and> heap_ok c (blocks S) r (spans S)"

lemma coreD:
  assumes "core c P S"
  shows core_lists: "lists_ok c P (spans S) (occupied_spans S) (span_layers S)"
    and core_lut: "lut_ok c (span_layer_ids S) (span_layers S)"
    and core_span: "spans S p = Some s \<Longrightarrow> p < host_calls S"
    and core_block: "blocks S b = Some m \<Longrightarrow> b \<le> alloc_count S"
    and core_plain: "virtual_memory_addr_base S = 0" "new_va_size S = 0"
  using assms unfolding core_def by auto

lemma coreI:
  assumes "lists_ok c P (spans S) (occupied_spans S) (span_layers S)" and "lut_ok c (span_layer_ids S) (span_layers S)"
    and "\<And>p s. spans S p = Some s \<Longrightarrow> p < host_calls S" and "\<And>b m. blocks S b = Some m \<Longrightarrow> b \<le> alloc_count S"
    and "virtual_memory_addr_base S = 0" and "new_va_size S = 0"
  shows "core c P S"
  using assms unfolding core_def by auto

lemma core_novirt [simp]: "core c P S \<Longrightarrow> \<not> IsValidVirtualAddr a S"
  by (simp add: IsValidVirtualAddr_def core_plain)

lemma core_layers: "core c P S \<Longrightarrow> cfg_ok c \<Longrightarrow> length (span_layers S) = span_layer_capacity c \<and> span_layers S \<noteq> []"
  using lo_len [OF core_lists] capacity_bounds by fastforce

text \<open>What an operation on layers leaves alone.\<close>

definition same_spans :: "ScalableAllocator \<Rightarrow> ScalableAllocator \<Rightarrow> bool" where
  "same_spans S S' \<longleftrightarrow> spans S' = spans S \<and> occupied_spans S' = occupied_spans S \<and> blocks S' = blocks S"

lemma linked_iff: "linked p S \<longleftrightarrow> p \<in> set (occupied_spans S) \<or> p \<in> idle (span_layers S)"
  by (auto simp: linked_def list_ex_length idle_def split: option.splits)

lemma hand_unlinked: "core c P S \<Longrightarrow> p \<in> P \<Longrightarrow> \<not> linked p S"
  using lo_hand [OF core_lists] by (auto simp: linked_iff)

section \<open>Steps on layers\<close>

lemma fetch_layer:
  assumes "core c P S" and "env_ok E" and "cfg_ok c" and "k < span_layer_capacity c"
  obtains S' xs where "FetchSpanLayer E c k S = Inr (True, S')" and "core c P S'" and "same_spans S S'"
    and "k < length (span_layers S')" and "span_layers S' ! k = Some xs"
    and "idle (span_layers S') = idle (span_layers S)"
proof -
  note len = core_layers [OF assms(1,3)] and k = assms(4)
  show thesis
  proof (cases "span_layers S ! k")
    case (Some xs)
    then show ?thesis
      using that [of S xs] assms(1) len k by (simp add: FetchSpanLayer_def vec_ix_def same_spans_def)
  next
    case None
    let ?S = "S\<lparr>host_calls := host_calls S + 1, span_layers := (span_layers S)[k := Some []],
      span_layer_ids := OnLayerCreated c k (span_layer_ids S)\<rparr>"
    have "core c P ?S"
      by (rule coreI) (use lists_create [OF core_lists [OF assms(1)] None] lut_created [OF core_lut [OF assms(1)] _ None]
          core_span [OF assms(1)] core_block [OF assms(1)] core_plain [OF assms(1)] len k in \<open>auto simp: less_Suc_eq\<close>)
    then show ?thesis
      using that [of ?S "[]"] len k None idle_create [OF None] env_new [OF assms(2)]
      by (simp add: FetchSpanLayer_def vec_ix_def same_spans_def Let_def)
  qed
qed

lemma push_layer:
  assumes core: "core c (insert p P) S" and k: "k < length (span_layers S)" "span_layers S ! k = Some xs"
    and s: "spans S p = Some s" "page_len s = k" "sp_count s = 0" "p \<notin> P"
    and nxt: "\<And>q. buddy_next s = Some q \<Longrightarrow> q \<noteq> p \<and> q \<notin> idle (span_layers S)"
    and prv: "\<And>q t. spans S q = Some t \<Longrightarrow> buddy_next t = Some p \<Longrightarrow> q \<notin> idle (span_layers S)"
  obtains S' where "PushSpanToLayer c k p S = Inr S'" and "core c P S'" and "same_spans S S'"
    and "idle (span_layers S') = insert p (idle (span_layers S))"
proof -
  let ?S = "S\<lparr>span_layers := (span_layers S)[k := Some (p # xs)],
    span_layer_ids := OnLayerAddSpan c k (p # xs) (span_layer_ids S)\<rparr>"
  have "core c P ?S"
    by (rule coreI) (use lists_push [OF core_lists [OF core] s k nxt prv] lut_added [OF core_lut [OF core] k]
        core_span [OF core] core_block [OF core] core_plain [OF core] in auto)
  then show ?thesis
    using that [of ?S] k idle_push [OF k, of p] hand_unlinked [OF core, of p]
    by (simp add: PushSpanToLayer_def layer_at_def vec_ix_def same_spans_def)
qed

lemma remove_layer:
  assumes core: "core c P S" and k: "k < length (span_layers S)" "span_layers S ! k = Some xs" "p \<in> set xs"
  obtains S' where "RemoveFromLayer c k p S = Inr S'" and "core c (insert p P) S'" and "same_spans S S'"
    and "idle (span_layers S') = idle (span_layers S) - {p}"
proof -
  let ?S = "S\<lparr>span_layers := (span_layers S)[k := Some (remove1 p xs)],
    span_layer_ids := OnLayerRemoveSpan c k (remove1 p xs) (span_layer_ids S)\<rparr>"
  have "core c (insert p P) ?S"
    by (rule coreI) (use lists_remove [OF core_lists [OF core] k] lut_removed [OF core_lut [OF core] k(1,2)]
        core_span [OF core] core_block [OF core] core_plain [OF core] k in auto)
  then show ?thesis
    using that [of ?S] k idle_remove [OF core_lists [OF core] k]
    by (simp add: RemoveFromLayer_def layer_at_def vec_ix_def same_spans_def Let_def)
qed

lemma pop_layer:
  assumes core: "core c P S" and k: "k < length (span_layers S)" "span_layers S ! k = Some (p # xs)"
  obtains S' s where "PopSpanFromLayer c k S = Inr (Some p, S')" and "core c (insert p P) S'" and "same_spans S S'"
    and "idle (span_layers S') = idle (span_layers S) - {p}"
    and "try_count S' = try_count S" and "spans S p = Some s" and "page_len s = k" and "sp_count s = 0"
    and "p \<in> idle (span_layers S)"
proof -
  let ?S = "S\<lparr>span_layers := (span_layers S)[k := Some xs],
    span_layer_ids := OnLayerRemoveSpan c k xs (span_layer_ids S)\<rparr>"
  have p: "p \<in> set (p # xs)" by simp
  have "core c (insert p P) ?S"
    by (rule coreI) (use lists_remove [OF core_lists [OF core] k p] lut_removed [OF core_lut [OF core] k, of xs]
        core_span [OF core] core_block [OF core] core_plain [OF core] k in auto)
  moreover obtain s where "spans S p = Some s" "page_len s = k" "sp_count s = 0"
    using lo_idle [OF core_lists [OF core] k p] by blast
  ultimately show ?thesis
    using that [of ?S s] k idle_remove [OF core_lists [OF core] k p] idleI [OF k p]
    by (simp add: PopSpanFromLayer_def layer_at_def vec_ix_def same_spans_def Let_def)
qed

lemma pop_empty_layer:
  assumes core: "core c P S" and k: "k < length (span_layers S)" "span_layers S ! k = Some []"
  obtains S' where "PopSpanFromLayer c k S = Inr (None, S')" and "core c P S'" and "same_spans S S'"
    and "span_layers S' = span_layers S" and "try_count S' = try_count S"
proof -
  let ?S = "S\<lparr>span_layers := (span_layers S)[k := Some []],
    span_layer_ids := OnLayerRemoveSpan c k [] (span_layer_ids S)\<rparr>"
  have same: "(span_layers S)[k := Some []] = span_layers S" using k by (metis list_update_id)
  have "core c P ?S"
    by (rule coreI) (use core_lists [OF core] lut_removed [OF core_lut [OF core] k, of "[]"]
        core_span [OF core] core_block [OF core] core_plain [OF core] k same in auto)
  then show ?thesis
    using that [of ?S] k same by (simp add: PopSpanFromLayer_def layer_at_def vec_ix_def same_spans_def Let_def)
qed

text \<open>A span in hand is occupied; its geometry changes in the length only.\<close>

lemma occupy:
  assumes core: "core c (insert p P) S" and s: "spans S p = Some s" "p \<notin> P" and "env_ok E"
  obtains S' s' where "OccupySpan E c p len S = Inr S'" and "core c P S'" and "spans S' = (spans S)(p \<mapsto> s')"
    and "occupied_spans S' = p # occupied_spans S" and "span_layers S' = span_layers S" and "blocks S' = blocks S"
    and "page_len s' = len" and "same_geo (s\<lparr>page_len := len\<rparr>) s'" and "0 < sp_count s'"
proof -
  let ?s = "PageSpan_Alloc E (page_idem_num c) len s"
  let ?S = "S\<lparr>spans := (spans S)(p \<mapsto> ?s), occupied_spans := p # occupied_spans S, alloc_succ_count := alloc_succ_count S + 1\<rparr>"
  have s': "page_len ?s = len" "same_geo (s\<lparr>page_len := len\<rparr>) ?s" "0 < sp_count ?s"
    using env_add [OF assms(4)] by (auto simp: PageSpan_Alloc_def SetPageLen_def Let_def same_geo_def)
  have "lists_ok c (insert p P) ((spans S)(p \<mapsto> ?s)) (occupied_spans S) (span_layers S)"
    by (rule lists_store [OF core_lists [OF core]]) auto
  then have "lists_ok c P ((spans S)(p \<mapsto> ?s)) (p # occupied_spans S) (span_layers S)"
    by (rule lists_occupy) (use s s' in auto)
  then have "core c P ?S"
    by - (rule coreI, use core_lut [OF core] core_span [OF core] core_block [OF core] core_plain [OF core] s(1)
        in \<open>auto split: if_splits\<close>)
  moreover have "\<not> linked p (S\<lparr>spans := (spans S)(p \<mapsto> ?s)\<rparr>)"
    using hand_unlinked [OF core, of p] by (simp add: linked_def)
  ultimately show ?thesis
    using that [of ?S ?s] s s' by (simp add: OccupySpan_def on_span_def span_upd_def span_at_def)
qed

section \<open>Granting spans\<close>

text \<open>The memory in the hands of the clients: the address and the size of every occupied span.\<close>

definition extent :: "allocator_cfg \<Rightarrow> PageSpan \<Rightarrow> nat \<times> nat" where
  "extent c s = (sp_addr s, page_len s * 2 ^ page_idem_num c)"

definition live :: "allocator_cfg \<Rightarrow> ScalableAllocator \<Rightarrow> nat \<Rightarrow> (nat \<times> nat) option" where
  "live c S p = (if p \<in> set (occupied_spans S) then map_option (extent c) (spans S p) else None)"

lemma live_same:
  assumes "occupied_spans S' = occupied_spans S"
    and "\<And>q. q \<in> set (occupied_spans S) \<Longrightarrow> map_option (extent c) (spans S' q) = map_option (extent c) (spans S q)"
  shows "live c S' = live c S"
  using assms by (auto simp: live_def)

lemma same_spans_live: "same_spans S S' \<Longrightarrow> live c S' = live c S"
  by (auto simp: same_spans_def live_def)

lemma live_grant:
  assumes "occupied_spans S' = p # occupied_spans S" and "spans S' p = Some s"
    and "\<And>q. q \<in> set (occupied_spans S) \<Longrightarrow> q \<noteq> p \<Longrightarrow> map_option (extent c) (spans S' q) = map_option (extent c) (spans S q)"
  shows "live c S' = (live c S)(p \<mapsto> extent c s)"
  using assms by (auto simp: live_def fun_eq_iff)

text \<open>The outcome of an attempt to allocate \<open>len\<close> pages.\<close>

definition attempt :: "allocator_cfg \<Rightarrow> nat \<Rightarrow> ScalableAllocator \<Rightarrow> nat option \<Rightarrow> ScalableAllocator \<Rightarrow> bool" where
  "attempt c len S x S' \<longleftrightarrow> (\<exists>r. alloc_inv c r S') \<and>
     (case x of None \<Rightarrow> live c S' = live c S
      | Some p \<Rightarrow> p \<notin> set (occupied_spans S) \<and> p \<in> set (occupied_spans S') \<and>
          (\<exists>a. live c S' = (live c S)(p \<mapsto> (a, len * 2 ^ page_idem_num c))))"

lemma attempt_live: "attempt c len S x S' \<Longrightarrow> live c S0 = live c S \<Longrightarrow> occupied_spans S0 = occupied_spans S \<Longrightarrow> attempt c len S0 x S'"
  by (simp add: attempt_def split: option.splits)

lemma fetch_layer_span:
  assumes inv: "alloc_inv c r S" and E: "env_ok E" and c: "cfg_ok c" and k: "k < span_layer_capacity c"
  obtains x S' where "FetchLayerSpan E c k S = Inr (x, S')" and "attempt c k S x S'"
    and "x = None \<Longrightarrow> alloc_inv c r S' \<and> try_count S' = try_count S \<and> same_spans S S'"
proof -
  have core: "core c {} S" and heap: "heap_ok c (blocks S) r (spans S)" using inv by (simp_all add: alloc_inv_def)
  note len = core_layers [OF core c]
  consider (null) "span_layers S ! k = None" | (empty) "span_layers S ! k = Some []"
    | (span) p xs where "span_layers S ! k = Some (p # xs)"
    by (metis list.exhaust option.exhaust)
  then show thesis
  proof cases
    case null
    then show ?thesis
      using that [of None S] len k inv by (auto simp: FetchLayerSpan_def vec_ix_def attempt_def same_spans_def)
  next
    case empty
    then obtain S' where S': "PopSpanFromLayer c k S = Inr (None, S')" "core c {} S'" "same_spans S S'" "try_count S' = try_count S"
      using pop_empty_layer [OF core, of k] len k by metis
    then have "alloc_inv c r S'" using heap by (simp add: alloc_inv_def same_spans_def)
    then show ?thesis
      using that [of None S'] len k empty S' same_spans_live [OF S'(3), of c]
      by (auto simp: FetchLayerSpan_def vec_ix_def attempt_def)
  next
    case span
    then obtain S1 s where S1: "PopSpanFromLayer c k S = Inr (Some p, S1)" "core c (insert p {}) S1" "same_spans S S1"
      "spans S p = Some s" "page_len s = k" "p \<in> idle (span_layers S)"
      using pop_layer [OF core, of k] len k by metis
    have sp: "spans S1 p = Some s" using S1(3,4) by (simp add: same_spans_def)
    from occupy [OF S1(2) sp _ E, of k] obtain S2 s' where S2: "OccupySpan E c p k S1 = Inr S2" "core c {} S2"
      "spans S2 = (spans S1)(p \<mapsto> s')" "occupied_spans S2 = p # occupied_spans S1" "blocks S2 = blocks S1"
      "page_len s' = k" "same_geo (s\<lparr>page_len := k\<rparr>) s'" by blast
    have "same_geo s s'" using S2(6,7) S1(5) by (simp add: same_geo_def)
    then have "alloc_inv c r S2"
      using heap_ok_same_geo [OF heap S1(4)] S2 S1(3) by (simp add: alloc_inv_def same_spans_def)
    moreover have "live c S2 = (live c S)(p \<mapsto> extent c s')"
      by (rule live_grant) (use S2 S1(3) in \<open>auto simp: same_spans_def\<close>)
    moreover have "p \<notin> set (occupied_spans S)" using idle_occ [OF core_lists [OF core] S1(6)] .
    ultimately show ?thesis
      using that [of "Some p" S2] len k span S1 S2 by (auto simp: FetchLayerSpan_def vec_ix_def attempt_def extent_def)
  qed
qed

section \<open>Splitting\<close>

lemma mem_size: "cfg_ok c \<Longrightarrow> n < 2 ^ 32 \<Longrightarrow> PageLen_GetMemSize n (page_idem_num c) = n * 2 ^ page_idem_num c"
proof -
  assume c: "cfg_ok c" and n: "n < 2 ^ 32"
  have "(2 :: nat) ^ page_idem_num c \<le> 2 ^ 32"
    using c by (intro power_increasing) (simp_all add: cfg_ok_def)
  then have "n * 2 ^ page_idem_num c < 2 ^ 32 * 2 ^ 32"
    using n by (intro mult_less_le_imp_less) simp_all
  then show ?thesis by (simp add: PageLen_GetMemSize_def)
qed

lemma SetBuddy_store:
  assumes "h p = Some s" and "h b = Some t" and "p \<noteq> b" and "\<And>n. buddy_next s = Some n \<Longrightarrow> n \<noteq> p \<and> n \<noteq> b \<and> h n \<noteq> None"
  obtains h' where "SetBuddy p b h = Inr h'" and "h' p = Some (s\<lparr>buddy_next := Some b\<rparr>)"
    and "h' b = Some (t\<lparr>buddy_next := buddy_next s, buddy_prev := Some p\<rparr>)"
    and "\<And>q. q \<noteq> p \<Longrightarrow> q \<noteq> b \<Longrightarrow>
      h' q = map_option (\<lambda>u. if buddy_next s = Some q then u\<lparr>buddy_prev := Some b\<rparr> else u) (h q)"
proof (cases "buddy_next s")
  case None
  then show ?thesis
    using that [of "h(p \<mapsto> s\<lparr>buddy_next := Some b\<rparr>, b \<mapsto> t\<lparr>buddy_next := None, buddy_prev := Some p\<rparr>)"] assms(1-3)
    by (simp add: SetBuddy_def span_upd_def span_at_def option.map_id0 [unfolded id_def])
next
  case (Some n)
  then obtain u where u: "h n = Some u" "n \<noteq> p" "n \<noteq> b" using assms(4) by auto
  show ?thesis
    using that [of "h(n \<mapsto> u\<lparr>buddy_prev := Some b\<rparr>, p \<mapsto> s\<lparr>buddy_next := Some b\<rparr>,
        b \<mapsto> t\<lparr>buddy_next := Some n, buddy_prev := Some p\<rparr>)"] assms(1-3) Some u
    by (auto simp: SetBuddy_def span_upd_def span_at_def option.map_id0 [unfolded id_def])
qed

text \<open>The new span is linked behind \<open>p\<close> and \<open>p\<close> is shortened.\<close>

lemma split_prepare:
  assumes core: "core c {p} S" and s: "spans S p = Some s"
    and nxt: "\<And>n. buddy_next s = Some n \<Longrightarrow> n \<noteq> p \<and> spans S n \<noteq> None"
  obtains h where "SetBuddy p (host_calls S) ((spans S)(host_calls S \<mapsto> t)) = Inr h"
    and "h p = Some (s\<lparr>buddy_next := Some (host_calls S)\<rparr>)"
    and "h (host_calls S) = Some (t\<lparr>buddy_next := buddy_next s, buddy_prev := Some p\<rparr>)"
    and "\<And>q. q \<noteq> p \<Longrightarrow> q \<noteq> host_calls S \<Longrightarrow>
      h q = map_option (\<lambda>u. if buddy_next s = Some q then u\<lparr>buddy_prev := Some (host_calls S)\<rparr> else u) (spans S q)"
    and "core c (insert p {host_calls S}) (S\<lparr>host_calls := host_calls S + 1, spans := h(p \<mapsto> s1)\<rparr>)"
proof -
  let ?b = "host_calls S"
  have fresh: "spans S ?b = None" using core_span [OF core, of ?b] by (cases "spans S ?b") auto
  have pb: "p \<noteq> ?b" using s fresh by auto
  obtain h where h: "SetBuddy p ?b ((spans S)(?b \<mapsto> t)) = Inr h" "h p = Some (s\<lparr>buddy_next := Some ?b\<rparr>)"
    "h ?b = Some (t\<lparr>buddy_next := buddy_next s, buddy_prev := Some p\<rparr>)"
    "\<And>q. q \<noteq> p \<Longrightarrow> q \<noteq> ?b \<Longrightarrow>
      h q = map_option (\<lambda>u. if buddy_next s = Some q then u\<lparr>buddy_prev := Some ?b\<rparr> else u) (((spans S)(?b \<mapsto> t)) q)"
    by (rule SetBuddy_store [of "(spans S)(?b \<mapsto> t)" p s ?b t]) (use s pb nxt fresh in auto)
  have h4: "h q = map_option (\<lambda>u. if buddy_next s = Some q then u\<lparr>buddy_prev := Some ?b\<rparr> else u) (spans S q)"
    if "q \<noteq> p" "q \<noteq> ?b" for q using h(4) [OF that] that by simp
  have "lists_ok c {p, ?b} (h(p \<mapsto> s1)) (occupied_spans S) (span_layers S)"
  proof (rule lists_store [OF core_lists [OF core]])
    show "map_option list_view ((h(p \<mapsto> s1)) q) = map_option list_view (spans S q)" if "q \<notin> {p}" "q \<notin> {p, ?b}" for q
      using h4 [of q] that by (cases "spans S q") (auto simp: list_view_def)
  qed (use fresh in auto)
  moreover have "q < ?b + 1" if "(h(p \<mapsto> s1)) q = Some u" for q u
    using h4 [of q] that core_span [OF core] s by (cases "q = p"; cases "q = ?b"; cases "spans S q") fastforce+
  ultimately have "core c (insert p {?b}) (S\<lparr>host_calls := ?b + 1, spans := h(p \<mapsto> s1)\<rparr>)"
    by - (rule coreI, use core_lut [OF core] core_block [OF core] core_plain [OF core] in auto)
  then show ?thesis using that [OF h(1-3) h4] by blast
qed

text \<open>The shortened span goes into its layer, the new one to the client.\<close>

lemma split_finish:
  assumes core: "core c (insert p {b}) S" and p: "spans S p = Some s" "page_len s = left" "sp_count s = 0" "buddy_next s = Some b"
    and b: "spans S b = Some t" "p \<noteq> b" and E: "env_ok E" and c: "cfg_ok c" and left: "left < span_layer_capacity c"
    and prv: "\<forall>q u. spans S q = Some u \<longrightarrow> buddy_next u = Some p \<longrightarrow> q \<notin> idle (span_layers S)"
  obtains S' t' where "rbind (FetchSpanLayer E c left S) (\<lambda>(layer, S).
         if \<not> layer then rbind (SpanFree p S) (\<lambda>S. Inr (None, S))
         else rbind (PushSpanToLayer c left p S) (\<lambda>S. rbind (OccupySpan E c b n S) (\<lambda>S. Inr (Some b, S)))) = Inr (Some b, S')"
    and "core c {} S'" and "spans S' = (spans S)(b \<mapsto> t')" and "occupied_spans S' = b # occupied_spans S"
    and "blocks S' = blocks S" and "page_len t' = n" and "same_geo (t\<lparr>page_len := n\<rparr>) t'"
proof -
  obtain S1 xs where S1: "FetchSpanLayer E c left S = Inr (True, S1)" "core c (insert p {b}) S1" "same_spans S S1"
    "left < length (span_layers S1)" "span_layers S1 ! left = Some xs" "idle (span_layers S1) = idle (span_layers S)"
    using fetch_layer [OF core E c left] by blast
  have sp: "spans S1 p = Some s" "spans S1 = spans S" using S1(3) p(1) by (simp_all add: same_spans_def)
  have "b \<notin> idle (span_layers S)" using lo_hand [OF core_lists [OF core], of b] by simp
  then obtain S2 where S2: "PushSpanToLayer c left p S1 = Inr S2" "core c {b} S2" "same_spans S1 S2"
    using push_layer [OF S1(2,4,5) sp(1) p(2,3)] p(4) b(2) prv S1(6) sp(2) by (metis option.inject singletonD)
  have sb: "spans S2 b = Some t" using S2(3) sp(2) b(1) by (simp add: same_spans_def)
  obtain S3 t' where S3: "OccupySpan E c b n S2 = Inr S3" "core c {} S3" "spans S3 = (spans S2)(b \<mapsto> t')"
    "occupied_spans S3 = b # occupied_spans S2" "blocks S3 = blocks S2" "page_len t' = n"
    "same_geo (t\<lparr>page_len := n\<rparr>) t'"
    using occupy [OF S2(2) sb _ E, of n] by blast
  show ?thesis
    using that [of S3 t'] S1(1,3) S2(1,3) S3 by (simp add: same_spans_def)
qed

lemma split_span:
  assumes core: "core c {p} S" and s: "spans S p = Some s" "sp_count s = 0"
    and heap: "heap_ok c (blocks S) r ((spans S)(p \<mapsto> s\<lparr>page_len := fit\<rparr>))"
    and E: "env_ok E" and c: "cfg_ok c" and fit: "0 < fix" "fix < fit"
    and prv: "\<forall>q t. spans S q = Some t \<longrightarrow> buddy_next t = Some p \<longrightarrow> q \<notin> idle (span_layers S)"
  obtains b S' where "SplitSpan E c fix fit p sz S = Inr (Some b, S')" and "attempt c fix S (Some b) S'"
proof -
  let ?s = "s\<lparr>page_len := fit\<rparr>" and ?b = "host_calls S" and ?left = "fit - fix"
  let ?t = "PageSpan_new E None (sp_addr s + ?left * 2 ^ page_idem_num c) sz"
  let ?s1 = "SetPageLen (page_idem_num c) ?left (s\<lparr>buddy_next := Some ?b\<rparr>)"
  have ok: "span_ok c (blocks S) r ((spans S)(p \<mapsto> ?s)) p ?s" by (rule heap_okD [OF heap]) simp
  then have cap: "fit < span_layer_capacity c" and geo: "\<not> new_va_span s" "ref_span s = None" by (auto elim: span_okE)
  then have f32: "fit < 2 ^ 32" using capacity_bounds [OF c] by simp
  have left: "(fit + 2 ^ 32 - fix) mod 2 ^ 32 = ?left"
  proof -
    have "fit + 2 ^ 32 - fix = ?left + 2 ^ 32" using fit by simp
    then show ?thesis using f32 by (simp only: mod_add_self2) simp
  qed
  have fresh: "spans S ?b = None" "p \<noteq> ?b" using core_span [OF core] s(1) by (auto intro: ccontr)
  have nxt: "n \<noteq> p \<and> spans S n \<noteq> None" if "buddy_next s = Some n" for n
    using ok that next_ne [OF heap, of p ?s n] by (auto elim!: span_okE)
  obtain h where h: "SetBuddy p ?b ((spans S)(?b \<mapsto> ?t)) = Inr h" "h p = Some (s\<lparr>buddy_next := Some ?b\<rparr>)"
    "h ?b = Some (?t\<lparr>buddy_next := buddy_next s, buddy_prev := Some p\<rparr>)"
    "\<And>q. q \<noteq> p \<Longrightarrow> q \<noteq> ?b \<Longrightarrow>
      h q = map_option (\<lambda>u. if buddy_next s = Some q then u\<lparr>buddy_prev := Some ?b\<rparr> else u) (spans S q)"
    "core c (insert p {?b}) (S\<lparr>host_calls := host_calls S + 1, spans := h(p \<mapsto> ?s1)\<rparr>)"
    using split_prepare [OF core s(1) nxt, of ?t ?s1] by blast
  let ?S2 = "S\<lparr>host_calls := host_calls S + 1, spans := h(p \<mapsto> ?s1)\<rparr>"
  have s1: "page_len ?s1 = ?left" "sp_count ?s1 = 0" "buddy_next ?s1 = Some ?b" using s(2) by (simp_all add: SetPageLen_def)
  have bhand: "?b \<notin> idle (span_layers S)" using lo_hand [OF core_lists [OF h(5)], of ?b] by simp
  have prv2: "\<forall>q u. spans ?S2 q = Some u \<longrightarrow> buddy_next u = Some p \<longrightarrow> q \<notin> idle (span_layers ?S2)"
  proof (intro allI impI)
    fix q u assume "spans ?S2 q = Some u" "buddy_next u = Some p"
    then show "q \<notin> idle (span_layers ?S2)"
      using h(4) [of q] prv s1(3) fresh(2) bhand
      by (cases "q = ?b"; cases "q = p"; cases "spans S q") (auto split: if_splits)
  qed
  have sp2: "spans ?S2 p = Some ?s1" and lt: "?left < span_layer_capacity c" using cap by simp_all
  have sb2: "spans ?S2 ?b = Some (?t\<lparr>buddy_next := buddy_next s, buddy_prev := Some p\<rparr>)" using h(3) fresh(2) by simp
  obtain S5 t2 where S5: "rbind (FetchSpanLayer E c ?left ?S2) (\<lambda>(layer, S).
         if \<not> layer then rbind (SpanFree p S) (\<lambda>S. Inr (None, S))
         else rbind (PushSpanToLayer c ?left p S) (\<lambda>S. rbind (OccupySpan E c ?b fix S) (\<lambda>S. Inr (Some ?b, S)))) = Inr (Some ?b, S5)"
    "core c {} S5" "spans S5 = (spans ?S2)(?b \<mapsto> t2)" "occupied_spans S5 = ?b # occupied_spans ?S2"
    "blocks S5 = blocks ?S2" "page_len t2 = fix"
    "same_geo (?t\<lparr>buddy_next := buddy_next s, buddy_prev := Some p, page_len := fix\<rparr>) t2"
    using split_finish [OF h(5) sp2 s1 sb2 fresh(2) E c lt prv2, where n = "fix"] by blast
  have "split_of c ((spans S)(p \<mapsto> ?s)) p ?b ?s ?s1 t2 (spans S5)"
    unfolding split_of_def S5(3) using fresh h(4) S5(6,7) fit geo s(1)
    by (simp add: same_geo_def SetPageLen_def fin_def PageSpan_new_def)
  then have "alloc_inv c (r(?b := r p)) S5"
    using split_heap [OF heap] S5(2,5) by (simp add: alloc_inv_def)
  moreover have "live c S5 = (live c S)(?b \<mapsto> extent c t2)"
  proof (rule live_grant)
    show "map_option (extent c) (spans S5 q) = map_option (extent c) (spans S q)"
      if "q \<in> set (occupied_spans S)" "q \<noteq> ?b" for q
      using that S5(3) h(4) [of q] lo_hand [OF core_lists [OF core], of p]
      by (cases "spans S q") (auto simp: extent_def)
  qed (use S5 in simp_all)
  moreover have "?b \<notin> set (occupied_spans S)" using lo_occ [OF core_lists [OF core], of ?b] fresh(1) by auto
  ultimately have "attempt c fix S (Some ?b) S5"
    using S5(4,6) by (auto simp: attempt_def extent_def)
  moreover have "SplitSpan E c fix fit p sz S = Inr (Some ?b, S5)"
    using s(1) left f32 h(1,2) S5(1) env_new [OF E] mem_size [OF c, of ?left]
    by (simp add: SplitSpan_def span_at_def span_upd_def on_span_def BlockAlloc_def PageLen_ForwardAddr_def Let_def)
  ultimately show ?thesis using that by blast
qed

section \<open>New blocks\<close>

definition got_block :: "ScalableAllocator \<Rightarrow> nat \<Rightarrow> dev_block \<Rightarrow> ScalableAllocator \<Rightarrow> bool" where
  "got_block S b m S' \<longleftrightarrow> spans S' = spans S \<and> occupied_spans S' = occupied_spans S \<and> span_layers S' = span_layers S \<and>
     blocks S' = (blocks S)(b \<mapsto> m) \<and> blocks S b = None \<and>
     (\<forall>b' m'. blocks S b' = Some m' \<longrightarrow> blk_fin m \<le> blk_addr m' \<or> blk_fin m' \<le> blk_addr m)"

lemma dev_alloc:
  assumes core: "core c P S" and E: "env_ok E"
  obtains (fail) S' where "DeviceAllocator_Alloc E sz S = (None, S')" and "core c P S'" and "same_spans S S'"
    | (block) b m S' where "DeviceAllocator_Alloc E sz S = (Some b, S')" and "core c P S'" and "got_block S b m S'"
      and "blk_size m = sz"
proof (cases "rtMalloc E (alloc_count S + 1) (blocks S) sz")
  case None
  let ?S = "S\<lparr>alloc_count := alloc_count S + 1\<rparr>"
  have "core c P ?S"
    by (rule coreI) (use core_lists [OF core] core_lut [OF core] core_span [OF core] core_block [OF core] core_plain [OF core]
        in \<open>auto simp: le_Suc_eq\<close>)
  then show ?thesis
    using fail [of ?S] None by (simp add: DeviceAllocator_Alloc_def RtMemAllocator_Alloc_def same_spans_def)
next
  case (Some a)
  let ?b = "alloc_count S + 1" and ?m = "\<lparr>blk_addr = a, blk_size = sz\<rparr>"
  let ?S = "S\<lparr>alloc_count := ?b, host_calls := host_calls S + 1, blocks := (blocks S)(?b \<mapsto> ?m),
    occupied_size := add64 (occupied_size S) sz\<rparr>"
  have "core c P ?S"
    by (rule coreI) (use core_lists [OF core] core_lut [OF core] core_span [OF core] core_block [OF core] core_plain [OF core]
        in \<open>auto simp: le_Suc_eq less_Suc_eq split: if_splits\<close>)
  moreover have "blocks S ?b = None" using core_block [OF core, of ?b] by (cases "blocks S ?b") auto
  moreover have "\<forall>b' m'. blocks S b' = Some m' \<longrightarrow> blk_fin ?m \<le> blk_addr m' \<or> blk_fin m' \<le> blk_addr ?m"
    using env_malloc [OF E Some] core_block [OF core] by (simp add: blk_fin_def less_Suc_eq_le)
  ultimately show ?thesis
    using block [of ?b ?S ?m] Some env_new [OF E]
    by (simp add: DeviceAllocator_Alloc_def RtMemAllocator_Alloc_def got_block_def Let_def)
qed

lemma fresh_id:
  assumes core: "core c P S"
  shows "spans S (host_calls S) = None" and "host_calls S \<notin> set (occupied_spans S)"
proof -
  show fr: "spans S (host_calls S) = None" using core_span [OF core, of "host_calls S"] by (cases "spans S (host_calls S)") auto
  then show "host_calls S \<notin> set (occupied_spans S)" using lo_occ [OF core_lists [OF core], of "host_calls S"] by auto
qed

lemma fresh_span:
  assumes core: "core c {} S"
  shows "core c {host_calls S} (S\<lparr>host_calls := host_calls S + 1, spans := (spans S)(host_calls S \<mapsto> s)\<rparr>)"
proof -
  have "lists_ok c {host_calls S} ((spans S)(host_calls S \<mapsto> s)) (occupied_spans S) (span_layers S)"
    by (rule lists_store [OF core_lists [OF core]]) (use fresh_id(1) [OF core] in auto)
  then show ?thesis
    by - (rule coreI, use core_lut [OF core] core_span [OF core] core_block [OF core] core_plain [OF core]
        in \<open>auto simp: less_Suc_eq split: if_splits\<close>)
qed

lemma fresh_heap:
  assumes "heap_ok c (blocks S) r (spans S)" and "got_block S b m S'" and "core c {} S'"
    and "sp_addr s = blk_addr m" "fin c s = blk_fin m" "0 < page_len s" "page_len s < span_layer_capacity c"
      "block_addr s = Some b" "buddy_prev s = None" "buddy_next s = None" "\<not> new_va_span s" "ref_span s = None"
  shows "heap_ok c (blocks S') (r(host_calls S' := b)) ((spans S')(host_calls S' \<mapsto> s))"
proof -
  have g: "spans S' = spans S" "blocks S' = (blocks S)(b \<mapsto> m)" "blocks S b = None"
    "\<forall>b' m'. blocks S b' = Some m' \<longrightarrow> blk_fin m \<le> blk_addr m' \<or> blk_fin m' \<le> blk_addr m"
    using assms(2) by (simp_all add: got_block_def)
  have "spans S (host_calls S') = None" using fresh_id(1) [OF assms(3)] g(1) by simp
  then show ?thesis unfolding g(1,2) by (rule new_block_heap [OF assms(1) _ g(3)]) (use g(4) assms in auto)
qed

lemma attempt_none:
  assumes "alloc_inv c r S" and "core c {} S'" and "same_spans S S'"
  shows "attempt c len S None S'"
proof -
  have "alloc_inv c r S'" using assms by (simp add: alloc_inv_def same_spans_def)
  then show ?thesis using same_spans_live [OF assms(3), of c] by (auto simp: attempt_def)
qed

lemma new_span_whole:
  assumes heap: "heap_ok c (blocks S) r (spans S)" and E: "env_ok E" and len: "0 < len" "len < span_layer_capacity c"
    and g: "got_block S b m S1" "core c {} S1" "blk_size m = len * 2 ^ page_idem_num c"
  obtains S2 where "OccupySpan E c (host_calls S1) len (S1\<lparr>host_calls := host_calls S1 + 1,
      spans := (spans S1)(host_calls S1 \<mapsto> PageSpan_new E (Some b) (blk_addr m) sz)\<rparr>) = Inr S2"
    and "attempt c len S (Some (host_calls S1)) S2"
proof -
  let ?p = "host_calls S1" and ?s = "PageSpan_new E (Some b) (blk_addr m) sz"
  let ?S1 = "S1\<lparr>host_calls := host_calls S1 + 1, spans := (spans S1)(?p \<mapsto> ?s)\<rparr>"
  have g1: "spans S1 = spans S" "occupied_spans S1 = occupied_spans S" using g(1) by (simp_all add: got_block_def)
  have s1: "spans ?S1 ?p = Some ?s" by simp
  obtain S2 s' where S2: "OccupySpan E c ?p len ?S1 = Inr S2" "core c {} S2" "spans S2 = (spans ?S1)(?p \<mapsto> s')"
    "occupied_spans S2 = ?p # occupied_spans ?S1" "blocks S2 = blocks ?S1" "page_len s' = len"
    "same_geo (?s\<lparr>page_len := len\<rparr>) s'"
    using occupy [OF fresh_span [OF g(2), of ?s] s1 _ E, of len] by blast
  have "heap_ok c (blocks S1) (r(?p := b)) ((spans S1)(?p \<mapsto> s'))"
    by (rule fresh_heap [OF heap g(1,2)])
      (use S2(6,7) len g(3) in \<open>simp_all add: same_geo_def PageSpan_new_def fin_def blk_fin_def\<close>)
  then have "alloc_inv c (r(?p := b)) S2" using S2 by (simp add: alloc_inv_def)
  moreover have "live c S2 = (live c S)(?p \<mapsto> extent c s')"
    by (rule live_grant) (use S2 g1 in auto)
  ultimately have "attempt c len S (Some ?p) S2"
    using S2(4,6) g1(2) fresh_id(2) [OF g(2)] by (auto simp: attempt_def extent_def)
  then show ?thesis using that S2(1) by blast
qed

lemma new_span_split:
  assumes heap: "heap_ok c (blocks S) r (spans S)" and E: "env_ok E" and c: "cfg_ok c"
    and len: "0 < len" "len < fit" "fit < span_layer_capacity c"
    and g: "got_block S b m S1" "core c {} S1" "blk_size m = fit * 2 ^ page_idem_num c"
  obtains q S2 where "SplitSpan E c len fit (host_calls S1) sz (S1\<lparr>host_calls := host_calls S1 + 1,
      spans := (spans S1)(host_calls S1 \<mapsto> (PageSpan_new E (Some b) (blk_addr m) hsz)\<lparr>sp_count := 0\<rparr>)\<rparr>) = Inr (Some q, S2)"
    and "attempt c len S (Some q) S2"
proof -
  let ?p = "host_calls S1" and ?s = "(PageSpan_new E (Some b) (blk_addr m) hsz)\<lparr>sp_count := 0\<rparr>"
  let ?S1 = "S1\<lparr>host_calls := host_calls S1 + 1, spans := (spans S1)(?p \<mapsto> ?s)\<rparr>"
  have g1: "spans S1 = spans S" "occupied_spans S1 = occupied_spans S" using g(1) by (simp_all add: got_block_def)
  have "heap_ok c (blocks S1) (r(?p := b)) ((spans S1)(?p \<mapsto> ?s\<lparr>page_len := fit\<rparr>))"
    by (rule fresh_heap [OF heap g(1,2)]) (use len g(3) in \<open>simp_all add: PageSpan_new_def fin_def blk_fin_def\<close>)
  then have hp: "heap_ok c (blocks ?S1) (r(?p := b)) ((spans ?S1)(?p \<mapsto> ?s\<lparr>page_len := fit\<rparr>))" by simp
  have prv: "\<forall>q t. spans ?S1 q = Some t \<longrightarrow> buddy_next t = Some ?p \<longrightarrow> q \<notin> idle (span_layers ?S1)"
  proof (intro allI impI)
    fix q t assume q: "spans ?S1 q = Some t" "buddy_next t = Some ?p"
    then have "q \<noteq> ?p" by (auto simp: PageSpan_new_def)
    then have "spans S q = Some t" using q(1) g1(1) by simp
    from heap_okD [OF heap this] have "\<exists>u. spans S ?p = Some u" using q(2) by (auto elim!: span_okE)
    then show "q \<notin> idle (span_layers ?S1)" using fresh_id(1) [OF g(2)] g1(1) by simp
  qed
  have s: "spans ?S1 ?p = Some ?s" "sp_count ?s = 0" by simp_all
  obtain q S2 where S2: "SplitSpan E c len fit ?p sz ?S1 = Inr (Some q, S2)" "attempt c len ?S1 (Some q) S2"
    using split_span [OF fresh_span [OF g(2)] s hp E c len(1,2) prv] by blast
  have "live c ?S1 = live c S"
    by (rule live_same) (use g1 fresh_id(2) [OF g(2)] in auto)
  then have "attempt c len S (Some q) S2" using attempt_live [OF S2(2), of S] g1(2) by simp
  then show ?thesis using that S2(1) by blast
qed

lemma Scalable_new_span:
  assumes inv: "alloc_inv c r S" and E: "env_ok E" and len: "0 < len" "len < span_layer_capacity c"
  obtains x S' where "Scalable_FetchNewSpan E c (len * 2 ^ page_idem_num c) len S = Inr (x, S')" and "attempt c len S x S'"
proof -
  let ?sz = "len * 2 ^ page_idem_num c"
  have core: "core c {} S" and heap: "heap_ok c (blocks S) r (spans S)" using inv by (simp_all add: alloc_inv_def)
  show thesis
  proof (cases "IsThresholdExceeded c ?sz S \<and> 0 < GetIdleMemSize c S")
    case True
    then show ?thesis
      using that [of None S] attempt_none [OF inv core] by (simp add: Scalable_FetchNewSpan_def same_spans_def)
  next
    case False
    from core E show ?thesis
    proof (cases rule: dev_alloc [where sz = ?sz])
      case (fail S')
      then show ?thesis using that [of None S'] attempt_none [OF inv fail(2,3)] False by (simp add: Scalable_FetchNewSpan_def)
    next
      case (block b m S1)
      then obtain S2 where "OccupySpan E c (host_calls S1) len (S1\<lparr>host_calls := host_calls S1 + 1,
          spans := (spans S1)(host_calls S1 \<mapsto> PageSpan_new E (Some b) (blk_addr m) ?sz)\<rparr>) = Inr S2"
        "attempt c len S (Some (host_calls S1)) S2"
        using new_span_whole [OF heap E len block(3,2,4), of ?sz] by blast
      then show ?thesis
        using that [of "Some (host_calls S1)" S2] False block(1,3) env_new [OF E]
        by (simp add: Scalable_FetchNewSpan_def BlockAlloc_def got_block_def Let_def)
    qed
  qed
qed

text \<open>The loop that takes all uses of a span away ends, since every round lowers the count.\<close>

lemma drain_ends: "env_ok E \<Longrightarrow> n \<le> fuel \<Longrightarrow> drain_loop E fuel n = Inr 0"
proof (induction fuel arbitrary: n)
  case (Suc fuel)
  then show ?case using env_sub [OF Suc.prems(1), of n] by (cases "n = 0") (simp_all add: drain_loop.simps)
qed (simp add: drain_loop.simps)

lemma drain_span: "env_ok E \<Longrightarrow> h p = Some s \<Longrightarrow> drain E p h = Inr (h(p \<mapsto> s\<lparr>sp_count := 0\<rparr>))"
  by (simp add: drain_def span_at_def span_upd_def drain_ends)

lemma huge_layer:
  assumes c: "cfg_ok c" "rts_caching c"
  obtains fit where "huge_page_mem_size c = fit * 2 ^ page_idem_num c" and "fit < span_layer_capacity c"
    and "SpanLayerId_GetIdFromSize (huge_page_mem_size c) (page_idem_num c) = fit"
proof -
  from c obtain k where k: "huge_page_mem_size c = k * 2 ^ page_idem_num c" by (auto simp: cfg_ok_def dvd_def mult.commute)
  then have "k \<le> page_mem_size_total_threshold c div 2 ^ page_idem_num c"
    using c by (simp add: cfg_ok_def less_eq_div_iff_mult_less_eq)
  then have lt: "k < span_layer_capacity c" using capacity [OF c(1)] by simp
  moreover have "SpanLayerId_GetIdFromSize (huge_page_mem_size c) (page_idem_num c) = k"
    using k lt capacity_bounds [OF c(1)] by (simp add: SpanLayerId_GetIdFromSize_def PageLen_GetLenFromSize_def)
  ultimately show ?thesis using that k by blast
qed

lemma Rts_new_span:
  assumes inv: "alloc_inv c r S" and E: "env_ok E" and c: "cfg_ok c" "rts_caching c" and len: "0 < len" "len < span_layer_capacity c"
  obtains x S' where "Rts_FetchNewSpan E c (len * 2 ^ page_idem_num c) len S = Inr (x, S')" and "attempt c len S x S'"
proof -
  let ?sz = "len * 2 ^ page_idem_num c" and ?huge = "huge_page_mem_size c"
  have core: "core c {} S" and heap: "heap_ok c (blocks S) r (spans S)" using inv by (simp_all add: alloc_inv_def)
  obtain fit where fit: "?huge = fit * 2 ^ page_idem_num c" "fit < span_layer_capacity c"
    "SpanLayerId_GetIdFromSize ?huge (page_idem_num c) = fit" by (rule huge_layer [OF c])
  consider (whole) "?huge \<le> ?sz" | (idle) "?sz < ?huge" "IsThresholdExceeded c ?huge S \<and> 0 < GetIdleMemSize c S"
    | (new) "?sz < ?huge" "\<not> (IsThresholdExceeded c ?huge S \<and> 0 < GetIdleMemSize c S)" by linarith
  then show thesis
  proof cases
    case whole
    obtain x S' where "Scalable_FetchNewSpan E c ?sz len S = Inr (x, S')" "attempt c len S x S'"
      using Scalable_new_span [OF inv E len] by blast
    then show ?thesis using that whole by (simp add: Rts_FetchNewSpan_def)
  next
    case idle
    then show ?thesis using that [of None S] attempt_none [OF inv core] by (simp add: Rts_FetchNewSpan_def same_spans_def)
  next
    case new
    from core E show ?thesis
    proof (cases rule: dev_alloc [where sz = ?huge])
      case (fail S')
      then show ?thesis using that [of None S'] attempt_none [OF inv fail(2,3)] new by (simp add: Rts_FetchNewSpan_def)
    next
      case (block b m S1)
      let ?p = "host_calls S1" and ?s = "PageSpan_new E (Some b) (blk_addr m) ?huge"
      have lt: "len < fit" using new(1) fit(1) by simp
      have sz: "blk_size m = fit * 2 ^ page_idem_num c" using block(4) fit(1) by simp
      obtain q S2 where S2: "SplitSpan E c len fit ?p ?sz (S1\<lparr>host_calls := host_calls S1 + 1,
          spans := (spans S1)(?p \<mapsto> ?s\<lparr>sp_count := 0\<rparr>)\<rparr>) = Inr (Some q, S2)" "attempt c len S (Some q) S2"
        using new_span_split [OF heap E c(1) len(1) lt fit(2) block(3,2) sz, of ?sz ?huge] by blast
      have "drain E ?p ((spans S1)(?p \<mapsto> ?s)) = Inr ((spans S1)(?p \<mapsto> ?s\<lparr>sp_count := 0\<rparr>))"
        using drain_span [OF E, of "(spans S1)(?p \<mapsto> ?s)" ?p] by simp
      then show ?thesis
        using that [OF _ S2(2)] new block(1,3) S2(1) fit(3) env_new [OF E]
        by (simp add: Rts_FetchNewSpan_def BlockAlloc_def got_block_def Let_def)
    qed
  qed
qed

lemma new_span:
  assumes "alloc_inv c r S" and "env_ok E" and "cfg_ok c" and "0 < len" "len < span_layer_capacity c"
  obtains x S' where "FetchNewSpan E c (len * 2 ^ page_idem_num c) len S = Inr (x, S')" and "attempt c len S x S'"
proof (cases "rts_caching c")
  case True
  then show ?thesis using Rts_new_span [OF assms(1-3) True assms(4,5)] that by (metis FetchNewSpan_def)
next
  case False
  then show ?thesis using Scalable_new_span [OF assms(1,2,4,5)] that by (metis FetchNewSpan_def)
qed

section \<open>Sizes\<close>

definition pages :: "allocator_cfg \<Rightarrow> nat \<Rightarrow> nat" where
  "pages c sz = (if sz = 0 then 1 else (sz + 2 ^ page_idem_num c - 1) div 2 ^ page_idem_num c)"

lemma and_not_mask_nat: "unat (w AND NOT (mask i)) = unat w div 2 ^ i * 2 ^ i" if "i < 64" for w :: "64 word"
proof -
  have "w AND NOT (mask i) = push_bit i (drop_bit i w)"
    by (rule bit_eqI) (auto simp: bit_simps)
  then have eq: "unat (w AND NOT (mask i)) = push_bit i (unat (drop_bit i w)) mod 2 ^ 64"
    by (simp add: unsigned_push_bit_eq take_bit_eq_mod)
  have "unat w div 2 ^ i * 2 ^ i \<le> unat w" by simp
  moreover have "unat w < 2 ^ LENGTH(64)" by (rule unsigned_less)
  ultimately have "unat w div 2 ^ i * 2 ^ i < 2 ^ LENGTH(64)" by (rule le_less_trans)
  moreover have "unat (drop_bit i w) = drop_bit i (unat w)"
    by (simp only: unsigned_drop_bit_eq take_bit_nat_eq_self [OF unsigned_less])
  then have "unat (drop_bit i w) = unat w div 2 ^ i" by (simp only: drop_bit_eq_div [of i "unat w"])
  ultimately show ?thesis using eq by (simp add: push_bit_eq_mult del: drop_bit_eq_div)
qed

lemma aligned_size:
  assumes "i < 32" and "sz < 2 ^ 63"
  shows "MemSize_GetAlignedOf sz (2 ^ i) = (sz + 2 ^ i - 1) div 2 ^ i * 2 ^ i"
proof -
  have p: "(2 :: nat) ^ i < 2 ^ 63" using assms(1) by (intro power_strict_increasing) simp_all
  have m: "(word_of_nat (2 ^ i) :: 64 word) - 1 = mask i" by (simp add: mask_eq_exp_minus_1)
  have "(word_of_nat sz + word_of_nat (2 ^ i) - 1 :: 64 word) = word_of_nat (sz + 2 ^ i - 1)"
  proof -
    have "sz + 2 ^ i = (sz + 2 ^ i - 1) + 1" by simp
    then have "(word_of_nat (sz + 2 ^ i) :: 64 word) = word_of_nat (sz + 2 ^ i - 1) + 1"
      by (metis of_nat_1 of_nat_add)
    then show ?thesis by (simp del: of_nat_power)
  qed
  moreover have "unat (word_of_nat (sz + 2 ^ i - 1) :: 64 word) = sz + 2 ^ i - 1"
    using p assms(2) by (simp add: unsigned_of_nat take_bit_nat_eq_self)
  ultimately show ?thesis
    unfolding MemSize_GetAlignedOf_def m using and_not_mask_nat [of i] assms(1) by simp
qed

lemma threshold_bound: "cfg_ok c \<Longrightarrow> page_mem_size_total_threshold c < 2 ^ 63"
proof -
  assume c: "cfg_ok c"
  have "page_mem_size_total_threshold c < (page_mem_size_total_threshold c div 2 ^ page_idem_num c + 1) * 2 ^ page_idem_num c"
    using dividend_less_div_times [of "2 ^ page_idem_num c" "page_mem_size_total_threshold c"] by simp
  also have "\<dots> \<le> 2 ^ 32 * 2 ^ 31"
    using c by (intro mult_le_mono power_increasing) (simp_all add: cfg_ok_def)
  finally show ?thesis by simp
qed

lemma pages_size:
  assumes c: "cfg_ok c" and sz: "sz \<le> page_mem_size_total_threshold c"
  shows "GetAllocSize c sz = pages c sz * 2 ^ page_idem_num c" and "0 < pages c sz"
    and "SpanLayerId_GetIdFromSize (GetAllocSize c sz) (page_idem_num c) = pages c sz"
proof -
  let ?P = "2 ^ page_idem_num c :: nat"
  have page: "page_mem_size c = ?P" using mem_size [OF c, of 1] by (simp add: page_mem_size_def)
  have pos: "0 < pages c sz"
    by (cases "sz = 0") (auto simp: pages_def div_greater_zero_iff)
  have small: "pages c sz = 1" if "sz < ?P"
  proof (cases "sz = 0")
    case False
    have "(sz + ?P - 1) div ?P = (sz - 1 + ?P) div ?P" using False by simp
    also have "\<dots> = 1" using that by (simp add: div_add_self2)
    finally show ?thesis using False by (simp add: pages_def)
  qed (simp add: pages_def)
  have "0 < ?P" by simp
  show eq: "GetAllocSize c sz = pages c sz * ?P"
  proof (cases "sz < ?P")
    case False
    then have "sz \<noteq> 0" using \<open>0 < ?P\<close> by (metis not_gr_zero)
    moreover have "sz < 2 ^ 63" using sz threshold_bound [OF c] by simp
    ultimately show ?thesis
      using False aligned_size [of "page_idem_num c" sz] c by (simp add: GetAllocSize_def page pages_def cfg_ok_def)
  qed (use small page in \<open>simp add: GetAllocSize_def\<close>)
  have "pages c sz \<le> page_mem_size_total_threshold c div ?P + 1"
  proof (cases "sz = 0")
    case False
    have "(sz + ?P - 1) div ?P \<le> (page_mem_size_total_threshold c + ?P) div ?P" using sz by (intro div_le_mono) simp
    also have "\<dots> = page_mem_size_total_threshold c div ?P + 1" by (rule div_add_self2) simp
    finally show ?thesis using False by (simp add: pages_def)
  qed (simp add: pages_def)
  then have "pages c sz < 2 ^ 32" using c by (simp add: cfg_ok_def)
  then show "SpanLayerId_GetIdFromSize (GetAllocSize c sz) (page_idem_num c) = pages c sz"
    by (simp add: eq SpanLayerId_GetIdFromSize_def PageLen_GetLenFromSize_def)
  show "0 < pages c sz" by (rule pos)
qed

lemma pages_least:
  "sz \<le> pages c sz * 2 ^ page_idem_num c" "pages c sz * 2 ^ page_idem_num c < sz + 2 ^ page_idem_num c \<or> sz = 0"
proof -
  let ?P = "2 ^ page_idem_num c :: nat"
  have d: "(sz + ?P - 1) div ?P * ?P + (sz + ?P - 1) mod ?P = sz + ?P - 1" by (rule div_mult_mod_eq)
  have m: "(sz + ?P - 1) mod ?P < ?P" by simp
  have p: "0 < ?P" by simp
  have "sz \<le> (sz + ?P - 1) div ?P * ?P" using d m p by linarith
  then show "sz \<le> pages c sz * ?P" by (simp add: pages_def)
  have "(sz + ?P - 1) div ?P * ?P < sz + ?P" using d p by linarith
  then show "pages c sz * ?P < sz + ?P \<or> sz = 0" by (simp add: pages_def)
qed

lemma split_try:
  assumes "IsSplitable len s = (yes, s')"
  shows "same_geo s s'" and "sp_count s' = sp_count s"
  using assms by (auto simp: IsSplitable_def same_geo_def Let_def split: if_splits)

lemma touch_hand:
  assumes core: "core c {p} S" and heap: "heap_ok c (blocks S) r (spans S)" and s: "spans S p = Some s" "same_geo s s'"
  shows "core c {p} (S\<lparr>spans := (spans S)(p \<mapsto> s')\<rparr>)" and "heap_ok c (blocks S) r ((spans S)(p \<mapsto> s'))"
    and "live c (S\<lparr>spans := (spans S)(p \<mapsto> s')\<rparr>) = live c S"
proof -
  show "heap_ok c (blocks S) r ((spans S)(p \<mapsto> s'))" by (rule heap_ok_same_geo [OF heap s])
  have "lists_ok c {p} ((spans S)(p \<mapsto> s')) (occupied_spans S) (span_layers S)"
    by (rule lists_store [OF core_lists [OF core]]) auto
  then show "core c {p} (S\<lparr>spans := (spans S)(p \<mapsto> s')\<rparr>)"
    by - (rule coreI, use core_lut [OF core] core_span [OF core] core_block [OF core] core_plain [OF core] s(1)
        in \<open>auto split: if_splits\<close>)
  show "live c (S\<lparr>spans := (spans S)(p \<mapsto> s')\<rparr>) = live c S"
    by (rule live_same) (use s in \<open>auto simp: same_geo_def extent_def\<close>)
qed

section \<open>Allocation\<close>

lemma splited_span:
  assumes inv: "alloc_inv c r S" and E: "env_ok E" and c: "cfg_ok c" and len: "0 < len" "len < fit" "fit < span_layer_capacity c"
    and filled: "layer_filled (span_layers S) fit" and tries: "try_count S \<le> set_try_count"
  obtains x S' where "FetchSplitedSpan E c len fit (len * 2 ^ page_idem_num c) SUCCESS S = Inr (x, SUCCESS, S')"
    and "attempt c len S x S'"
proof -
  let ?sz = "len * 2 ^ page_idem_num c"
  have core: "core c {} S" and heap: "heap_ok c (blocks S) r (spans S)" using inv by (simp_all add: alloc_inv_def)
  note ln = core_layers [OF core c]
  obtain p xs where layer: "fit < length (span_layers S)" "span_layers S ! fit = Some (p # xs)"
    using filled by (auto simp: layer_filled_def neq_Nil_conv split: option.splits)
  obtain S1 s where S1: "PopSpanFromLayer c fit S = Inr (Some p, S1)" "core c (insert p {}) S1" "same_spans S S1"
    "idle (span_layers S1) = idle (span_layers S) - {p}" "try_count S1 = try_count S"
    "spans S p = Some s" "page_len s = fit" "sp_count s = 0" "p \<in> idle (span_layers S)"
    using pop_layer [OF core layer] by blast
  have sp: "spans S1 p = Some s" "blocks S1 = blocks S" "spans S1 = spans S" using S1(3,6) by (simp_all add: same_spans_def)
  obtain yes s' where split: "IsSplitable len s = (yes, s')" by fastforce
  note geo = split_try [OF split]
  let ?S2 = "S1\<lparr>spans := (spans S1)(p \<mapsto> s')\<rparr>"
  have heap1: "heap_ok c (blocks S1) r (spans S1)" using heap sp by simp
  note t = touch_hand [OF S1(2) heap1 sp(1) geo(1)]
  have live2: "live c ?S2 = live c S" "occupied_spans ?S2 = occupied_spans S"
    using t(3) same_spans_live [OF S1(3), of c] S1(3) by (simp_all add: same_spans_def)
  have s2: "spans ?S2 p = Some s'" "page_len s' = fit" "sp_count s' = 0" "s'\<lparr>page_len := fit\<rparr> = s'"
    using geo S1(7,8) by (simp_all add: same_geo_def)
  have prv: "\<forall>q u. spans ?S2 q = Some u \<longrightarrow> buddy_next u = Some p \<longrightarrow> q \<notin> idle (span_layers ?S2)"
    using lo_coal [OF core_lists [OF core]] S1(4,9) sp(3) by auto
  have pre: "FetchSplitedSpan E c len fit ?sz SUCCESS S =
     (if \<not> yes then
        rbind (FetchSpanLayer E c fit ?S2) (\<lambda>(layer, S).
        rbind (if layer then PushSpanToLayer c fit p S else Inr S) (\<lambda>S.
        rbind (FetchNewSpan E c ?sz len S) (\<lambda>(r, S). Inr (r, SUCCESS, S))))
      else rbind (SplitSpan E c len fit p ?sz ?S2) (\<lambda>(r, S). Inr (r, SUCCESS, S)))"
    using ln len(2) layer S1(1,5) sp(1) tries split core_novirt [OF S1(2)]
    by (simp add: FetchSplitedSpan_def vec_ix_def span_at_def)
  show thesis
  proof (cases yes)
    case True
    have hp: "heap_ok c (blocks ?S2) r ((spans ?S2)(p \<mapsto> s'\<lparr>page_len := fit\<rparr>))" using t(2) s2(4) by simp
    obtain b S3 where S3: "SplitSpan E c len fit p ?sz ?S2 = Inr (Some b, S3)" "attempt c len ?S2 (Some b) S3"
      using split_span [OF t(1) s2(1,3) hp E c len(1,2) prv] by blast
    then show ?thesis using that [of "Some b" S3] True pre attempt_live [OF S3(2), of S] live2 by simp
  next
    case False
    obtain S3 ys where S3: "FetchSpanLayer E c fit ?S2 = Inr (True, S3)" "core c (insert p {}) S3" "same_spans ?S2 S3"
      "fit < length (span_layers S3)" "span_layers S3 ! fit = Some ys" "idle (span_layers S3) = idle (span_layers ?S2)"
      using fetch_layer [OF t(1) E c len(3)] by blast
    have "spans S3 p = Some s'" using S3(3) s2(1) by (simp add: same_spans_def)
    moreover have "q \<noteq> p \<and> q \<notin> idle (span_layers S3)" if "buddy_next s' = Some q" for q
    proof -
      have "buddy_next s = Some q" using that geo(1) by (simp add: same_geo_def)
      then show ?thesis using lo_coal [OF core_lists [OF core] S1(6) _ S1(9)] next_ne [OF heap S1(6)] S3(6) S1(4) by auto
    qed
    moreover have "q \<notin> idle (span_layers S3)" if "spans S3 q = Some u" "buddy_next u = Some p" for q u
      using prv that S3(3,6) by (simp add: same_spans_def)
    ultimately obtain S4 where S4: "PushSpanToLayer c fit p S3 = Inr S4" "core c {} S4" "same_spans S3 S4"
      using push_layer [OF S3(2,4,5) _ s2(2,3)] by (metis empty_iff)
    have same: "same_spans ?S2 S4" using S3(3) S4(3) by (simp add: same_spans_def)
    then have inv4: "alloc_inv c r S4" using t(2) S4(2) by (simp add: alloc_inv_def same_spans_def)
    have "len < span_layer_capacity c" using len by simp
    from new_span [OF inv4 E c len(1) this]
    obtain x S5 where S5: "FetchNewSpan E c ?sz len S4 = Inr (x, S5)" "attempt c len S4 x S5" by blast
    have "attempt c len S x S5"
      using attempt_live [OF S5(2), of S] same_spans_live [OF same, of c] live2 same by (simp add: same_spans_def)
    then show ?thesis using that [of x S5] False pre S3(1) S4(1) S5(1) by simp
  qed
qed

text \<open>Fields that the invariant does not mention.\<close>

lemma inv_fields [simp]:
  "alloc_inv c r (S\<lparr>try_count := n\<rparr>) = alloc_inv c r S" "live c (S\<lparr>try_count := n\<rparr>) = live c S"
  "alloc_inv c r (S\<lparr>theory_size := n\<rparr>) = alloc_inv c r S" "live c (S\<lparr>theory_size := n\<rparr>) = live c S"
  "alloc_inv c r (S\<lparr>real_theory_size := n\<rparr>) = alloc_inv c r S" "live c (S\<lparr>real_theory_size := n\<rparr>) = live c S"
  "alloc_inv c r (S\<lparr>theory_min_size := n\<rparr>) = alloc_inv c r S" "live c (S\<lparr>theory_min_size := n\<rparr>) = live c S"
  "alloc_inv c r (S\<lparr>real_theory_min_size := n\<rparr>) = alloc_inv c r S" "live c (S\<lparr>real_theory_min_size := n\<rparr>) = live c S"
  "alloc_inv c r (S\<lparr>max_occupied_size := n\<rparr>) = alloc_inv c r S" "live c (S\<lparr>max_occupied_size := n\<rparr>) = live c S"
  "alloc_inv c r (S\<lparr>recycle_count := n\<rparr>) = alloc_inv c r S" "live c (S\<lparr>recycle_count := n\<rparr>) = live c S"
  "alloc_inv c r (S\<lparr>free_succ_count := n\<rparr>) = alloc_inv c r S" "live c (S\<lparr>free_succ_count := n\<rparr>) = live c S"
  by (simp_all add: alloc_inv_def core_def live_def fun_eq_iff)

lemma attempt_from: "attempt c len (S\<lparr>try_count := n\<rparr>) x S' = attempt c len S x S'"
  by (simp add: attempt_def split: option.split)

text \<open>The real size is noted in a span that the client already has.\<close>

lemma set_real_size:
  assumes "attempt c len S (Some p) S'"
  obtains S'' where "on_span p (\<lambda>s. s\<lparr>real_size := n\<rparr>) S' = Inr S''" and "attempt c len S (Some p) S''"
    and "\<exists>s. spans S'' p = Some s \<and> real_size s = n"
proof -
  obtain r where inv: "alloc_inv c r S'" and p: "p \<in> set (occupied_spans S')" using assms by (auto simp: attempt_def)
  have core: "core c {} S'" and heap: "heap_ok c (blocks S') r (spans S')" using inv by (simp_all add: alloc_inv_def)
  obtain s where s: "spans S' p = Some s" using lo_occ [OF core_lists [OF core] p] by blast
  let ?s = "s\<lparr>real_size := n\<rparr>" and ?S = "S'\<lparr>spans := (spans S')(p \<mapsto> s\<lparr>real_size := n\<rparr>)\<rparr>"
  have "lists_ok c {} ((spans S')(p \<mapsto> ?s)) (occupied_spans S') (span_layers S')"
    by (rule lists_store [OF core_lists [OF core]]) (use s in \<open>auto simp: list_view_def\<close>)
  then have "core c {} ?S"
    by - (rule coreI, use core_lut [OF core] core_span [OF core] core_block [OF core] core_plain [OF core] s
        in \<open>auto split: if_splits\<close>)
  moreover have "heap_ok c (blocks S') r ((spans S')(p \<mapsto> ?s))"
    by (rule heap_ok_same_geo [OF heap s]) (simp add: same_geo_def)
  ultimately have "alloc_inv c r ?S" by (simp add: alloc_inv_def)
  moreover have "live c ?S = live c S'"
    by (rule live_same) (use s in \<open>auto simp: extent_def\<close>)
  ultimately have "attempt c len S (Some p) ?S" using assms by (auto simp: attempt_def)
  then show ?thesis using that [of ?S] s by (simp add: on_span_def span_upd_def span_at_def)
qed

text \<open>The three ways to find a span: its own layer, a larger layer, the device.\<close>

lemma find_span:
  assumes inv: "alloc_inv c r S" and E: "env_ok E" and c: "cfg_ok c" and len: "0 < len" "len < span_layer_capacity c"
    and tries: "try_count S \<le> set_try_count"
  obtains x S' where "rbind (FetchLayerSpan E c len S) (\<lambda>(r, S).
       case r of Some p \<Rightarrow> Inr (Some p, SUCCESS, S)
       | None \<Rightarrow>
           let fit = FindFitLayerId c ((len + 1) mod 2 ^ 32) S
           in if span_layer_capacity c \<le> fit
              then rbind (FetchNewSpan E c (len * 2 ^ page_idem_num c) len S) (\<lambda>(r, S). Inr (r, SUCCESS, S))
              else FetchSplitedSpan E c len fit (len * 2 ^ page_idem_num c) SUCCESS S) = Inr (x, SUCCESS, S')"
    and "attempt c len S x S'"
proof -
  obtain x S1 where S1: "FetchLayerSpan E c len S = Inr (x, S1)" "attempt c len S x S1"
    "x = None \<Longrightarrow> alloc_inv c r S1 \<and> try_count S1 = try_count S \<and> same_spans S S1"
    using fetch_layer_span [OF inv E c len(2)] by blast
  show thesis
  proof (cases x)
    case (Some p)
    then show ?thesis using that [of "Some p" S1] S1 by simp
  next
    case None
    then have inv1: "alloc_inv c r S1" and tries1: "try_count S1 \<le> set_try_count" and same: "same_spans S S1"
      using S1(3) tries by simp_all
    have base: "attempt c len S y S'" if "attempt c len S1 y S'" for y S'
      using attempt_live [OF that, of S] same_spans_live [OF same, of c] same by (simp add: same_spans_def)
    let ?fit = "FindFitLayerId c ((len + 1) mod 2 ^ 32) S1"
    have next_id: "(len + 1) mod 2 ^ 32 = len + 1" using len capacity_bounds [OF c] by simp
    show ?thesis
    proof (cases "span_layer_capacity c \<le> ?fit")
      case True
      obtain y S2 where "FetchNewSpan E c (len * 2 ^ page_idem_num c) len S1 = Inr (y, S2)" "attempt c len S1 y S2"
        using new_span [OF inv1 E c len] by blast
      then show ?thesis using that [OF _ base, of y S2] S1(1) None True by (simp add: Let_def)
    next
      case False
      have lut: "lut_ok c (span_layer_ids S1) (span_layers S1)" using inv1 core_lut by (auto simp: alloc_inv_def)
      have fit: "layer_filled (span_layers S1) ?fit" "len < ?fit" "?fit < span_layer_capacity c"
        using lut_find [OF lut _ c, of "(len + 1) mod 2 ^ 32"] False next_id by simp_all
      obtain y S2 where "FetchSplitedSpan E c len ?fit (len * 2 ^ page_idem_num c) SUCCESS S1 = Inr (y, SUCCESS, S2)"
        "attempt c len S1 y S2"
        using splited_span [OF inv1 E c len(1) fit(2,3,1) tries1] by blast
      then show ?thesis using that [OF _ base, of y S2] S1(1) None False by (simp add: Let_def)
    qed
  qed
qed

lemma AllocImp_attempt:
  assumes inv: "alloc_inv c r S" and E: "env_ok E" and c: "cfg_ok c" and sz: "sz \<le> page_mem_size_total_threshold c"
    and tries: "try_count S < set_try_count"
  obtains x S' where "AllocImp E c sz S = Inr (x, SUCCESS, S')" and "attempt c (pages c sz) S x S'"
    and "\<And>p. x = Some p \<Longrightarrow> \<exists>s. spans S' p = Some s \<and> real_size s = sz"
proof -
  let ?len = "pages c sz" and ?S = "S\<lparr>try_count := try_count S + 1\<rparr>"
  note pg = pages_size [OF c sz]
  show thesis
  proof (cases "span_layer_capacity c \<le> ?len")
    case True
    have "attempt c ?len S None ?S" using inv by (auto simp: attempt_def)
    then show ?thesis using that [of None ?S] True pg(3) by (simp add: AllocImp_def Let_def)
  next
    case False
    then have lt: "?len < span_layer_capacity c" by simp
    have inv1: "alloc_inv c r ?S" and tr1: "try_count ?S \<le> set_try_count" using inv tries by simp_all
    obtain x S1 where S1: "rbind (FetchLayerSpan E c ?len ?S) (\<lambda>(r, S).
       case r of Some p \<Rightarrow> Inr (Some p, SUCCESS, S)
       | None \<Rightarrow>
           let fit = FindFitLayerId c ((?len + 1) mod 2 ^ 32) S
           in if span_layer_capacity c \<le> fit
              then rbind (FetchNewSpan E c (?len * 2 ^ page_idem_num c) ?len S) (\<lambda>(r, S). Inr (r, SUCCESS, S))
              else FetchSplitedSpan E c ?len fit (?len * 2 ^ page_idem_num c) SUCCESS S) = Inr (x, SUCCESS, S1)"
      "attempt c ?len ?S x S1"
      using find_span [OF inv1 E c pg(2) lt tr1] by blast
    have start: "AllocImp E c sz S = (case x of None \<Rightarrow> Inr (None, SUCCESS, S1)
       | Some p \<Rightarrow> rbind (span_at (spans S1) p) (\<lambda>s.
           if IsValidVirtualAddr (sp_addr s) S1 then expandable_mode
           else rbind (on_span p (\<lambda>s. s\<lparr>real_size := sz\<rparr>) S1) (\<lambda>S. Inr (Some p, SUCCESS, S))))"
      using lt S1(1) unfolding AllocImp_def Let_def pg(1) pg(3) [unfolded pg(1)] by (simp split: option.split)
    have S1': "attempt c ?len S x S1" using S1(2) by (simp only: attempt_from)
    show ?thesis
    proof (cases x)
      case None
      then show ?thesis using that [of None S1] start S1' by simp
    next
      case (Some p)
      obtain S2 where S2: "on_span p (\<lambda>s. s\<lparr>real_size := sz\<rparr>) S1 = Inr S2" "attempt c ?len S (Some p) S2"
        "\<exists>s. spans S2 p = Some s \<and> real_size s = sz"
        using set_real_size S1' Some by blast
      obtain r' where "core c {} S1" "p \<in> set (occupied_spans S1)" using S1' Some by (auto simp: attempt_def alloc_inv_def)
      then obtain s where "spans S1 p = Some s" "\<not> IsValidVirtualAddr (sp_addr s) S1"
        using lo_occ [OF core_lists] core_novirt by blast
      then show ?thesis using that [of "Some p" S2] start Some S2 by (simp add: span_at_def)
    qed
  qed
qed

lemma Alloc_attempt:
  assumes inv: "alloc_inv c r S" and E: "env_ok E" and c: "cfg_ok c" and sz: "sz \<le> page_mem_size_total_threshold c"
  obtains x S' where "Alloc E c sz S = Inr (x, S')" and "attempt c (pages c sz) S x S'"
    and "\<And>p. x = Some p \<Longrightarrow> \<exists>s. spans S' p = Some s \<and> real_size s = sz"
proof -
  have inv0: "alloc_inv c r (S\<lparr>try_count := 0\<rparr>)" and tr: "try_count (S\<lparr>try_count := 0\<rparr>) < set_try_count"
    using inv by (simp_all add: set_try_count_def)
  obtain x S1 where S1: "AllocImp E c sz (S\<lparr>try_count := 0\<rparr>) = Inr (x, SUCCESS, S1)"
    "attempt c (pages c sz) (S\<lparr>try_count := 0\<rparr>) x S1" "\<And>p. x = Some p \<Longrightarrow> \<exists>s. spans S1 p = Some s \<and> real_size s = sz"
    using AllocImp_attempt [OF inv0 E c sz tr] by blast
  have at: "attempt c (pages c sz) S x S1" using S1(2) by (simp only: attempt_from)
  have rounds: "alloc_rounds E c sz kSafeTryCount None [] (S\<lparr>try_count := 0\<rparr>) = Inr (x, [], S1)"
    using S1(1) by (subst alloc_rounds.simps) (simp add: kSafeTryCount_def)
  show thesis
  proof (cases x)
    case None
    then show ?thesis using that [of None S1] at rounds sz by (simp add: Alloc_def)
  next
    case (Some p)
    then obtain s where s: "spans S1 p = Some s" "real_size s = sz" using S1(3) by blast
    let ?S2 = "S1\<lparr>theory_size := add64 (theory_size S1) (PageSpan_GetSize (page_idem_num c) s),
                  real_theory_size := add64 (real_theory_size S1) (real_size s)\<rparr>"
    let ?S3 = "?S2\<lparr>real_theory_min_size := max (real_theory_min_size ?S2) (real_theory_size ?S2),
                  theory_min_size := max (theory_min_size ?S2) (theory_size ?S2)\<rparr>"
    let ?S4 = "if max_occupied_size ?S3 < GetOccupiedSize ?S3 \<or> new_va_span s
               then ?S3\<lparr>max_occupied_size := GetOccupiedSize ?S3\<rparr> else ?S3"
    have "Alloc E c sz S = Inr (Some p, ?S4)"
      using rounds sz s Some unfolding Alloc_def by (simp add: span_at_def Let_def)
    moreover have "attempt c (pages c sz) S (Some p) ?S4"
      using at Some by (simp add: attempt_def)
    ultimately show ?thesis using that [of "Some p" ?S4] s by simp
  qed
qed

end
