(* ===== verification/ScalableFree.thy ===== *)
theory ScalableFree
  imports ScalableInv
begin

text \<open>
  Giving a span back: it is merged with its idle buddies and goes into the layer of its new length.
  The memory of the other clients is untouched, and no two idle buddies remain.
\<close>

section \<open>Merging\<close>

lemma MergeBuddy_store:
  assumes "h p = Some s" and "h b = Some t" and "p \<noteq> b" and "buddy_next s = Some b" and "buddy_prev t = Some p"
    and "page_len s + page_len t < 2 ^ 32" and "\<forall>n. buddy_next t = Some n \<longrightarrow> n \<noteq> p \<and> n \<noteq> b \<and> h n \<noteq> None"
  obtains h' s' where "MergeBuddy p b h = Inr h'" and "h' p = Some s'" and "h' b = Some t"
    and "sp_count s' = sp_count s" and "page_len s' = page_len s + page_len t" and "buddy_next s' = buddy_next t"
    and "same_geo s (s'\<lparr>page_len := page_len s, buddy_next := buddy_next s\<rparr>)"
    and "\<forall>q. q \<noteq> p \<longrightarrow> q \<noteq> b \<longrightarrow>
      h' q = map_option (\<lambda>u. if buddy_next t = Some q then u\<lparr>buddy_prev := Some p\<rparr> else u) (h q)"
proof -
  let ?u = "s\<lparr>buddy_next := buddy_next t, page_len := page_len s + page_len t\<rparr>"
  let ?s = "if HasSplited ?u then ?u else ?u\<lparr>try_split_page_len := 0\<rparr>"
  have s': "sp_count ?s = sp_count s" "page_len ?s = page_len s + page_len t" "buddy_next ?s = buddy_next t"
    "same_geo s (?s\<lparr>page_len := page_len s, buddy_next := buddy_next s\<rparr>)"
    by (auto simp: same_geo_def)
  show thesis
  proof (cases "buddy_next t")
    case None
    then show ?thesis
      using that [of "h(p \<mapsto> ?s)" ?s] assms(1-6) s'
      by (simp add: MergeBuddy_def span_upd_def span_at_def Let_def option.map_id0 [unfolded id_def])
  next
    case (Some n)
    then obtain u where u: "h n = Some u" "n \<noteq> p" "n \<noteq> b" using assms(7) by auto
    then show ?thesis
      using that [of "h(n \<mapsto> u\<lparr>buddy_prev := Some p\<rparr>, p \<mapsto> ?s)" ?s] assms(1-6) s' Some
      by (auto simp: MergeBuddy_def span_upd_def span_at_def Let_def option.map_id0 [unfolded id_def])
  qed
qed

text \<open>\<open>MergeBuddy p b\<close> followed by the release of \<open>b\<close>, both in hand.\<close>

lemma merge_step:
  assumes core: "core c (insert p {b}) S" and heap: "heap_ok c (blocks S) r (spans S)" and c: "cfg_ok c"
    and s: "spans S p = Some s" "spans S b = Some t" "buddy_next s = Some b"
  obtains h S' s' where "MergeBuddy p b (spans S) = Inr h" and "SpanFree b (S\<lparr>spans := h\<rparr>) = Inr S'"
    and "core c {p} S'" and "heap_ok c (blocks S') r (spans S')" and "spans S' p = Some s'"
    and "sp_count s' = sp_count s" and "buddy_next s' = buddy_next t" and "buddy_prev s' = buddy_prev s"
    and "span_layers S' = span_layers S" and "live c S' = live c S" and "occupied_spans S' = occupied_spans S"
proof -
  have bt: "buddy_prev t = Some p" and pb: "p \<noteq> b"
    using heap_okD [OF heap s(1)] s next_ne [OF heap s(1,3)] by (auto elim!: span_okE)
  have sum: "page_len s + page_len t < 2 ^ 32"
    using buddies_fit [OF heap s(1,3,2)] capacity_bounds [OF c] by simp
  have nb: "\<forall>n. buddy_next t = Some n \<longrightarrow> n \<noteq> p \<and> n \<noteq> b \<and> spans S n \<noteq> None"
  proof (intro allI impI)
    fix n assume n: "buddy_next t = Some n"
    obtain u where u: "spans S n = Some u" "buddy_prev u = Some b" "sp_addr u = fin c t"
      using heap_okD [OF heap s(2)] n by (auto elim!: span_okE)
    have "n \<noteq> b" using next_ne [OF heap s(2) n] .
    moreover have "n \<noteq> p"
    proof
      assume "n = p"
      then have "sp_addr s = fin c t" using u s(1) by simp
      moreover have "sp_addr t = fin c s" using heap_okD [OF heap s(1)] s by (auto elim!: span_okE)
      ultimately show False using fin_grows [OF heap_okD [OF heap s(1)]] fin_grows [OF heap_okD [OF heap s(2)]] by simp
    qed
    ultimately show "n \<noteq> p \<and> n \<noteq> b \<and> spans S n \<noteq> None" using u by simp
  qed
  obtain h s' where h: "MergeBuddy p b (spans S) = Inr h" "h p = Some s'" "h b = Some t" "sp_count s' = sp_count s"
    "page_len s' = page_len s + page_len t" "buddy_next s' = buddy_next t"
    "same_geo s (s'\<lparr>page_len := page_len s, buddy_next := buddy_next s\<rparr>)"
    "\<forall>q. q \<noteq> p \<longrightarrow> q \<noteq> b \<longrightarrow>
      h q = map_option (\<lambda>u. if buddy_next t = Some q then u\<lparr>buddy_prev := Some p\<rparr> else u) (spans S q)"
    using MergeBuddy_store [OF s(1,2) pb s(3) bt sum nb] by blast
  let ?h = "h(b := None)" and ?S = "S\<lparr>spans := h(b := None)\<rparr>"
  have geo: "\<not> new_va_span s" "ref_span s = None" using heap_okD [OF heap s(1)] by (auto elim: span_okE)
  have mg: "merge_of c (spans S) p b s t s' ?h"
    unfolding merge_of_def using s h pb geo by (simp add: same_geo_def)
  have hq: "?h q = map_option (\<lambda>u. if buddy_next t = Some q then u\<lparr>buddy_prev := Some p\<rparr> else u) (spans S q)"
    if "q \<noteq> p" "q \<noteq> b" for q using h(8) that by simp
  have "lists_ok c {p} ?h (occupied_spans S) (span_layers S)"
  proof (rule lists_store [OF core_lists [OF core]])
    show "map_option list_view (?h q) = map_option list_view (spans S q)" if "q \<notin> insert p {b}" "q \<notin> {p}" for q
      using hq [of q] that by (cases "spans S q") (auto simp: list_view_def)
  qed auto
  moreover have "q < host_calls S" if "?h q = Some u" for q u
    using hq [of q] that core_span [OF core] s(1) by (cases "q = p"; cases "spans S q") (auto split: if_splits)
  ultimately have "core c {p} ?S"
    by - (rule coreI, use core_lut [OF core] core_block [OF core] core_plain [OF core] in auto)
  moreover have "live c ?S = live c S"
  proof (rule live_same)
    fix q assume "q \<in> set (occupied_spans S)"
    then have "q \<noteq> p" "q \<noteq> b" using lo_hand [OF core_lists [OF core], of p] lo_hand [OF core_lists [OF core], of b] by auto
    then show "map_option (extent c) (spans ?S q) = map_option (extent c) (spans S q)"
      using hq [of q] by (cases "spans S q") (auto simp: extent_def)
  qed simp
  ultimately show ?thesis
    using that [of h ?S s'] h merge_heap [OF heap mg] pb by (simp add: SpanFree_def span_at_def same_geo_def)
qed

text \<open>An idle buddy is taken out of its layer, an occupied one is left.\<close>

lemma pick_out:
  assumes core: "core c {p} S" and heap: "heap_ok c (blocks S) r (spans S)" and c: "cfg_ok c"
    and b: "spans S b = Some t" "b \<noteq> p"
  obtains (taken) S' where "PickOutBuddy c (Some b) S = Inr (Some b, S')" and "core c {p, b} S'" and "same_spans S S'"
      and "idle (span_layers S') = idle (span_layers S) - {b}" and "b \<in> idle (span_layers S)"
    | (kept) "PickOutBuddy c (Some b) S = Inr (None, S)" and "b \<notin> idle (span_layers S)"
proof (cases "b \<in> idle (span_layers S)")
  case True
  note ln = core_layers [OF core c]
  obtain xs where xs: "sp_count t = 0" "page_len t < length (span_layers S)" "span_layers S ! page_len t = Some xs" "b \<in> set xs"
    using idle_span [OF core_lists [OF core] True] b(1) by (metis option.inject)
  obtain S' where S': "RemoveFromLayer c (page_len t) b S = Inr S'" "core c (insert b {p}) S'" "same_spans S S'"
    "idle (span_layers S') = idle (span_layers S) - {b}"
    using remove_layer [OF core xs(2-4)] by blast
  then show ?thesis
    using taken [of S'] True xs ln b(1) by (simp add: PickOutBuddy_def span_at_def vec_ix_def insert_commute)
next
  case False
  then have "b \<in> set (occupied_spans S)" using lo_all [OF core_lists [OF core] b(1)] b(2) by auto
  then have "sp_count t \<noteq> 0" using lo_occ [OF core_lists [OF core], of b] b(1) by auto
  then show ?thesis using kept False b(1) by (simp add: PickOutBuddy_def span_at_def)
qed

section \<open>Release\<close>

text \<open>The state between the steps of a release: \<open>p\<close> is in hand, unused, and has no idle buddy behind it.\<close>

definition releasing :: "allocator_cfg \<Rightarrow> (nat \<Rightarrow> nat) \<Rightarrow> nat \<Rightarrow> PageSpan \<Rightarrow> ScalableAllocator \<Rightarrow> bool" where
  "releasing c r p s S \<longleftrightarrow> core c {p} S \<and> heap_ok c (blocks S) r (spans S) \<and> spans S p = Some s \<and> sp_count s = 0"

definition no_idle_next :: "PageSpan \<Rightarrow> ScalableAllocator \<Rightarrow> bool" where
  "no_idle_next s S \<longleftrightarrow> (\<forall>q. buddy_next s = Some q \<longrightarrow> q \<notin> idle (span_layers S))"

lemma merge_next:
  assumes rel: "releasing c r p s S" and c: "cfg_ok c"
  obtains S' s' where "TryMergeNext c p S = Inr (p, S')" and "releasing c r p s' S'" and "no_idle_next s' S'"
    and "live c S' = live c S" and "occupied_spans S' = occupied_spans S"
proof -
  have core: "core c {p} S" and heap: "heap_ok c (blocks S) r (spans S)" and s: "spans S p = Some s" "sp_count s = 0"
    using rel by (simp_all add: releasing_def)
  show thesis
  proof (cases "buddy_next s")
    case None
    then show ?thesis
      using that [of S s] rel s by (simp add: TryMergeNext_def PickOutBuddy_def span_at_def no_idle_next_def)
  next
    case (Some b)
    obtain t where t: "spans S b = Some t" using heap_okD [OF heap s(1)] Some by (auto elim!: span_okE)
    have bp: "b \<noteq> p" using next_ne [OF heap s(1) Some] .
    from core heap c t bp show ?thesis
    proof (cases rule: pick_out)
      case (taken S1)
      have S1: "spans S1 = spans S" "blocks S1 = blocks S" "occupied_spans S1 = occupied_spans S" "live c S1 = live c S"
        using taken(3) same_spans_live [OF taken(3)] by (simp_all add: same_spans_def)
      have heap1: "heap_ok c (blocks S1) r (spans S1)" "spans S1 p = Some s" "spans S1 b = Some t"
        using S1 heap s t by simp_all
      obtain h S2 s' where S2: "MergeBuddy p b (spans S1) = Inr h" "SpanFree b (S1\<lparr>spans := h\<rparr>) = Inr S2" "core c {p} S2"
        "heap_ok c (blocks S2) r (spans S2)" "spans S2 p = Some s'" "sp_count s' = sp_count s" "buddy_next s' = buddy_next t"
        "span_layers S2 = span_layers S1" "live c S2 = live c S1" "occupied_spans S2 = occupied_spans S1"
        using merge_step [OF taken(2) heap1(1) c heap1(2,3) Some] by blast
      have "no_idle_next s' S2"
        unfolding no_idle_next_def S2(7,8) taken(4) using lo_coal [OF core_lists [OF core] t _ taken(5)] by blast
      then show ?thesis
        using that [of S2 s'] S1 S2 s taken(1) Some by (simp add: TryMergeNext_def span_at_def releasing_def)
    next
      case kept
      then show ?thesis
        using that [of S s] rel s Some by (simp add: TryMergeNext_def span_at_def no_idle_next_def)
    qed
  qed
qed

definition no_idle_prev :: "nat \<Rightarrow> ScalableAllocator \<Rightarrow> bool" where
  "no_idle_prev p S \<longleftrightarrow> (\<forall>q t. spans S q = Some t \<longrightarrow> buddy_next t = Some p \<longrightarrow> q \<notin> idle (span_layers S))"

lemma prev_unique:
  assumes "heap_ok c B r h" and "h q = Some t" and "buddy_next t = Some p" and "h p = Some s"
  shows "buddy_prev s = Some q"
  using heap_okD [OF assms(1,2)] assms(3,4) by (auto elim!: span_okE)

lemma merge_prev:
  assumes rel: "releasing c r p s S" and nn: "no_idle_next s S" and c: "cfg_ok c"
  obtains p' S' s' where "TryMergePrev c p S = Inr (p', S')" and "releasing c r p' s' S'" and "no_idle_next s' S'"
    and "no_idle_prev p' S'" and "live c S' = live c S" and "occupied_spans S' = occupied_spans S"
proof -
  have core: "core c {p} S" and heap: "heap_ok c (blocks S) r (spans S)" and s: "spans S p = Some s" "sp_count s = 0"
    using rel by (simp_all add: releasing_def)
  show thesis
  proof (cases "buddy_prev s")
    case None
    then have "no_idle_prev p S" using prev_unique [OF heap _ _ s(1)] by (auto simp: no_idle_prev_def)
    then show ?thesis
      using that [of p S s] rel nn s None by (simp add: TryMergePrev_def PickOutBuddy_def span_at_def)
  next
    case (Some b)
    obtain t where t: "spans S b = Some t" "buddy_next t = Some p"
      using heap_okD [OF heap s(1)] Some by (auto elim!: span_okE)
    have bp: "b \<noteq> p" using next_ne [OF heap t] by simp
    from core heap c t(1) bp show ?thesis
    proof (cases rule: pick_out)
      case (taken S1)
      have S1: "spans S1 = spans S" "blocks S1 = blocks S" "occupied_spans S1 = occupied_spans S" "live c S1 = live c S"
        using taken(3) same_spans_live [OF taken(3)] by (simp_all add: same_spans_def)
      have heap1: "heap_ok c (blocks S1) r (spans S1)" "spans S1 p = Some s" "spans S1 b = Some t"
        "core c (insert b {p}) S1"
        using S1 heap s t taken(2) by (simp_all add: insert_commute)
      obtain h S2 s' where S2: "MergeBuddy b p (spans S1) = Inr h" "SpanFree p (S1\<lparr>spans := h\<rparr>) = Inr S2" "core c {b} S2"
        "heap_ok c (blocks S2) r (spans S2)" "spans S2 b = Some s'" "sp_count s' = sp_count t" "buddy_next s' = buddy_next s"
        "buddy_prev s' = buddy_prev t"
        "span_layers S2 = span_layers S1" "live c S2 = live c S1" "occupied_spans S2 = occupied_spans S1"
        using merge_step [OF heap1(4,1) c heap1(3,2) t(2)] by blast
      have cnt: "sp_count t = 0" using idle_span [OF core_lists [OF core] taken(5)] t(1) by (metis option.inject)
      have "no_idle_next s' S2"
        unfolding no_idle_next_def S2(7,9) taken(4) using nn by (auto simp: no_idle_next_def)
      moreover have "no_idle_prev b S2"
        unfolding no_idle_prev_def S2(9) taken(4)
      proof (intro allI impI notI)
        fix q u assume q: "spans S2 q = Some u" "buddy_next u = Some b" "q \<in> idle (span_layers S) - {b}"
        have "buddy_prev t = Some q" using prev_unique [OF S2(4) q(1,2) S2(5)] S2(8) by simp
        then obtain w where "spans S q = Some w" "buddy_next w = Some b"
          using heap_okD [OF heap t(1)] by (auto elim!: span_okE)
        then show False using lo_coal [OF core_lists [OF core]] q(3) taken(5) by blast
      qed
      ultimately show ?thesis
        using that [of b S2 s'] S1 S2 s cnt taken(1) Some by (simp add: TryMergePrev_def span_at_def releasing_def)
    next
      case kept
      have "no_idle_prev p S"
        unfolding no_idle_prev_def using prev_unique [OF heap _ _ s(1)] Some kept(2) by auto
      then show ?thesis
        using that [of p S s] rel nn s Some kept by (simp add: TryMergePrev_def span_at_def)
    qed
  qed
qed

lemma free_span:
  assumes rel: "releasing c r p s S" and nn: "no_idle_next s S" and np: "no_idle_prev p S" and c: "cfg_ok c" and E: "env_ok E"
  obtains S' where "FreeSpan E c p S = Inr S'" and "alloc_inv c r S'" and "live c S' = live c S"
    and "occupied_spans S' = occupied_spans S"
proof -
  have core: "core c {p} S" and heap: "heap_ok c (blocks S) r (spans S)" and s: "spans S p = Some s" "sp_count s = 0"
    using rel by (simp_all add: releasing_def)
  have geo: "page_len s < span_layer_capacity c" "\<not> new_va_span s" using heap_okD [OF heap s(1)] by (auto elim: span_okE)
  obtain S1 xs where S1: "FetchSpanLayer E c (page_len s) S = Inr (True, S1)" "core c (insert p {}) S1" "same_spans S S1"
    "page_len s < length (span_layers S1)" "span_layers S1 ! page_len s = Some xs" "idle (span_layers S1) = idle (span_layers S)"
    using fetch_layer [OF core E c geo(1)] by blast
  have sp: "spans S1 p = Some s" "spans S1 = spans S" using S1(3) s(1) by (simp_all add: same_spans_def)
  obtain S2 where S2: "PushSpanToLayer c (page_len s) p S1 = Inr S2" "core c {} S2" "same_spans S1 S2"
    using push_layer [OF S1(2,4,5) sp(1) refl s(2)] nn np next_ne [OF heap s(1)] S1(6) sp(2)
    unfolding no_idle_next_def no_idle_prev_def by (metis empty_iff)
  let ?S = "S2\<lparr>free_succ_count := free_succ_count S2 + 1\<rparr>"
  have same: "same_spans S S2" using S1(3) S2(3) by (simp add: same_spans_def)
  then have "alloc_inv c r S2" using S2(2) heap by (simp add: alloc_inv_def same_spans_def)
  then show ?thesis
    using that [of ?S] S1(1) S2(1) s(1) geo same same_spans_live [OF same, of c]
    by (simp add: FreeSpan_def span_at_def same_spans_def)
qed

text \<open>A client gives its last use of \<open>p\<close> back.\<close>

lemma release:
  assumes inv: "alloc_inv c r S" and E: "env_ok E" and c: "cfg_ok c" and p: "p \<in> set (occupied_spans S)" "spans S p = Some s"
    and s': "same_geo s s'" "sp_count s' = 0"
  obtains S' where "release_span E c p (S\<lparr>spans := (spans S)(p \<mapsto> s')\<rparr>) = Inr S'" and "alloc_inv c r S'"
    and "live c S' = (live c S)(p := None)"
proof -
  have core: "core c {} S" and heap: "heap_ok c (blocks S) r (spans S)" using inv by (simp_all add: alloc_inv_def)
  let ?S1 = "S\<lparr>spans := (spans S)(p \<mapsto> s'), occupied_spans := remove1 p (occupied_spans S)\<rparr>"
  have l1: "lists_ok c (insert p {}) (spans S) (remove1 p (occupied_spans S)) (span_layers S)"
    by (rule lists_vacate [OF core_lists [OF core] p(1)])
  have "lists_ok c {p} ((spans S)(p \<mapsto> s')) (remove1 p (occupied_spans S)) (span_layers S)"
    by (rule lists_store [OF l1]) auto
  then have "core c {p} ?S1"
    by - (rule coreI, use core_lut [OF core] core_span [OF core] core_block [OF core] core_plain [OF core] p(2)
        in \<open>auto split: if_splits\<close>)
  then have rel: "releasing c r p s' ?S1"
    using heap_ok_same_geo [OF heap p(2) s'(1)] s'(2) by (simp add: releasing_def)
  have live1: "live c ?S1 = (live c S)(p := None)"
    using lo_dist [OF core_lists [OF core]] by (auto simp: live_def fun_eq_iff)
  obtain S2 s2 where S2: "TryMergeNext c p ?S1 = Inr (p, S2)" "releasing c r p s2 S2" "no_idle_next s2 S2" "live c S2 = live c ?S1"
    using merge_next [OF rel c] by blast
  obtain q S3 s3 where S3: "TryMergePrev c p S2 = Inr (q, S3)" "releasing c r q s3 S3" "no_idle_next s3 S3" "no_idle_prev q S3"
    "live c S3 = live c S2"
    using merge_prev [OF S2(2,3) c] by blast
  obtain S4 where S4: "FreeSpan E c q S3 = Inr S4" "alloc_inv c r S4" "live c S4 = live c S3"
    using free_span [OF S3(2-4) c E] by blast
  have eq: "S\<lparr>spans := (spans S)(p \<mapsto> s')\<rparr>\<lparr>occupied_spans := remove1 p (occupied_spans S)\<rparr> = ?S1" by simp
  have "RemoveOccupied p (S\<lparr>spans := (spans S)(p \<mapsto> s')\<rparr>) = Inr ?S1"
    using p(1) by (simp add: RemoveOccupied_def)
  then show ?thesis
    using that [of S4] S2 S3 S4 live1 by (simp add: release_span_def)
qed

end
