(* ===== verification/ScalableRecycle.thy ===== *)
theory ScalableRecycle
  imports ScalableFree
begin

text \<open>
  Returning memory to the device: \<^verbatim>\<open>Recycle\<close> gives every unsplit idle span back, \<^verbatim>\<open>Finalize\<close> all of
  them.  Both take spans out of the layers without telling the lookup table, which they repair
  afterwards, so that the invariant in between is \<open>basic\<close>.
\<close>

section \<open>Dropping idle spans\<close>

definition basic :: "allocator_cfg \<Rightarrow> (nat \<Rightarrow> nat) \<Rightarrow> ScalableAllocator \<Rightarrow> bool" where
  "basic c r S \<longleftrightarrow> lists_ok c {} (spans S) (occupied_spans S) (span_layers S) \<and> heap_ok c (blocks S) r (spans S) \<and>
     (\<forall>p. spans S p \<noteq> None \<longrightarrow> p < host_calls S) \<and> (\<forall>b. blocks S b \<noteq> None \<longrightarrow> b \<le> alloc_count S) \<and>
     virtual_memory_addr_base S = 0 \<and> new_va_size S = 0"

lemma inv_basic: "alloc_inv c r S \<longleftrightarrow> basic c r S \<and> lut_ok c (span_layer_ids S) (span_layers S)"
  by (auto simp: alloc_inv_def basic_def core_def)

lemma basicD:
  assumes "basic c r S"
  shows "lists_ok c {} (spans S) (occupied_spans S) (span_layers S)" and "heap_ok c (blocks S) r (spans S)"
  using assms by (simp_all add: basic_def)

text \<open>\<open>dropped X S S'\<close>: the idle spans \<open>X\<close> are gone, nothing else has changed.\<close>

definition dropped :: "nat set \<Rightarrow> ScalableAllocator \<Rightarrow> ScalableAllocator \<Rightarrow> bool" where
  "dropped X S S' \<longleftrightarrow> X \<subseteq> idle (span_layers S) \<and> spans S' = (\<lambda>p. if p \<in> X then None else spans S p) \<and>
     occupied_spans S' = occupied_spans S \<and> idle (span_layers S') = idle (span_layers S) - X \<and>
     length (span_layers S') = length (span_layers S) \<and>
     (\<forall>k<length (span_layers S). span_layers S' ! k = map_option (filter (\<lambda>p. p \<notin> X)) (span_layers S ! k))"

lemma dropped_refl: "dropped {} S S"
proof -
  have "filter (\<lambda>p :: nat. p \<notin> {}) = (\<lambda>xs. xs)" by (simp add: fun_eq_iff)
  then show ?thesis by (simp add: dropped_def option.map_ident)
qed

lemma filter_map_option: "map_option (filter P) (map_option (filter Q) x) = map_option (filter (\<lambda>a. Q a \<and> P a)) x"
  by (cases x) (simp_all add: conj_commute)

lemma dropped_trans:
  assumes "dropped X S S1" and "dropped Y S1 S2"
  shows "dropped (X \<union> Y) S S2"
  using assms unfolding dropped_def by (auto simp: fun_eq_iff filter_map_option conj_commute)

lemma dropped_live: "dropped X S S' \<Longrightarrow> basic c r S \<Longrightarrow> live c S' = live c S"
  by (rule live_same) (auto simp: dropped_def dest: idle_occ [OF basicD(1)])

lemma dev_free:
  assumes "blocks S b = Some m"
  obtains S' where "DeviceAllocator_Free E (Some b) S = Inr S'" and "spans S' = spans S" and "occupied_spans S' = occupied_spans S"
    and "span_layers S' = span_layers S" and "span_layer_ids S' = span_layer_ids S" and "host_calls S' = host_calls S"
    and "alloc_count S' = alloc_count S" and "virtual_memory_addr_base S' = virtual_memory_addr_base S"
    and "new_va_size S' = new_va_size S" and "blocks S' = blocks S \<or> blocks S' = (blocks S)(b := None)"
proof (cases "rtFree E (free_count S + 1) (blk_addr m)")
  case True
  let ?S = "S\<lparr>free_count := free_count S + 1, blocks := (blocks S)(b := None)\<rparr>"
  show ?thesis
    using that [of "if blk_size m \<le> occupied_size S then ?S\<lparr>occupied_size := occupied_size S - blk_size m\<rparr> else ?S"] True assms
    by (simp add: DeviceAllocator_Free_def RtMemAllocator_Free_def Let_def)
next
  case False
  then show ?thesis
    using that [of "S\<lparr>free_count := free_count S + 1\<rparr>"] assms
    by (simp add: DeviceAllocator_Free_def RtMemAllocator_Free_def Let_def)
qed

lemma drop_idle:
  assumes ok: "basic c r S" and k: "k < length (span_layers S)" "span_layers S ! k = Some xs" "p \<in> set xs"
    and s: "spans S p = Some s" "\<not> HasSplited s"
  obtains S1 S2 where
    "DeviceAllocator_Free E (block_addr s) (S\<lparr>span_layers := (span_layers S)[k := Some (remove1 p xs)]\<rparr>) = Inr S1"
    and "SpanFree p S1 = Inr S2" and "basic c r S2" and "dropped {p} S S2" and "span_layer_ids S2 = span_layer_ids S"
    and "span_layers S2 = (span_layers S)[k := Some (remove1 p xs)]"
proof -
  note lists = basicD(1) [OF ok] and heap = basicD(2) [OF ok]
  note drop = drop_span_heap [OF heap s]
  obtain m where m: "blocks S (r p) = Some m" using heap_okD [OF heap s(1)] by (auto elim: span_okE)
  let ?S0 = "S\<lparr>span_layers := (span_layers S)[k := Some (remove1 p xs)]\<rparr>"
  obtain S1 where S1: "DeviceAllocator_Free E (Some (r p)) ?S0 = Inr S1" "spans S1 = spans S" "occupied_spans S1 = occupied_spans S"
    "span_layers S1 = span_layers ?S0" "span_layer_ids S1 = span_layer_ids S" "host_calls S1 = host_calls S"
    "alloc_count S1 = alloc_count S" "virtual_memory_addr_base S1 = virtual_memory_addr_base S" "new_va_size S1 = new_va_size S"
    "blocks S1 = blocks S \<or> blocks S1 = (blocks S)(r p := None)"
    using dev_free [of ?S0 "r p" m E] m by auto
  let ?h = "(spans S)(p := None)" and ?S2 = "S1\<lparr>spans := (spans S)(p := None)\<rparr>"
  have "lists_ok c {} ?h (occupied_spans S) ((span_layers S)[k := Some (remove1 p xs)])"
    by (rule lists_store [OF lists_remove [OF lists k]]) auto
  moreover have "heap_ok c (blocks S1) r ?h"
  proof -
    have "r q \<noteq> r p" if "?h q = Some u" for q u using drop(2) [of q u] that by (auto split: if_splits)
    then have "heap_ok c ((blocks S)(r p := None)) r ?h" by (rule drop_block_heap [OF drop(1)])
    then show ?thesis using S1(10) drop(1) by auto
  qed
  ultimately have "basic c r ?S2"
    using ok S1 by (auto simp: basic_def split: if_splits)
  moreover have "dropped {p} S ?S2"
  proof -
    have rem: "remove1 p xs = filter (\<lambda>q. q \<noteq> p) xs"
      using lo_layer [OF lists k(1,2)] by (simp add: distinct_remove1_removeAll removeAll_filter_not_eq eq_commute)
    have other: "ys = filter (\<lambda>q. q \<noteq> p) ys" if "j < length (span_layers S)" "j \<noteq> k" "span_layers S ! j = Some ys" for j ys
      using layer_unique [OF lists k that(1,3)] that(2) by (metis (mono_tags, lifting) filter_True)
    have "(span_layers S)[k := Some (remove1 p xs)] ! j = map_option (filter (\<lambda>q. q \<notin> {p})) (span_layers S ! j)"
      if "j < length (span_layers S)" for j
      using that k(2) rem other [OF that] by (cases "j = k"; cases "span_layers S ! j") auto
    then show ?thesis
      unfolding dropped_def using S1 idle_remove [OF lists k] idleI [OF k] by (auto simp: fun_eq_iff)
  qed
  ultimately show ?thesis
    using that [of S1 ?S2] S1 drop(3) s(1) by (simp add: SpanFree_def span_at_def)
qed

section \<open>Recycling\<close>

definition splits :: "ScalableAllocator \<Rightarrow> nat set" where
  "splits S = {p. \<exists>s. spans S p = Some s \<and> HasSplited s}"

definition recycle_body :: "host_env \<Rightarrow> nat \<Rightarrow> nat \<Rightarrow> ScalableAllocator \<Rightarrow> ScalableAllocator res" where
  "recycle_body E k p S =
     rbind (span_at (spans S) p) (\<lambda>s.
     if new_va_span s \<or> IsValidVirtualAddr (sp_addr s) S then expandable_mode
     else if HasSplited s then Inr S
     else rbind (layer_at k S) (\<lambda>ys.
          rbind (DeviceAllocator_Free E (block_addr s) (S\<lparr>span_layers := (span_layers S)[k := Some (remove1 p ys)]\<rparr>))
            (SpanFree p)))"

lemma SpanLayer_Recycle_body: "SpanLayer_Recycle E k S = rbind (layer_at k S) (\<lambda>xs. for_list xs (recycle_body E k) S)"
  by (simp add: SpanLayer_Recycle_def recycle_body_def [abs_def])

lemma basic_novirt: "basic c r S \<Longrightarrow> \<not> IsValidVirtualAddr a S"
  by (simp add: IsValidVirtualAddr_def basic_def)

lemma recycle_loop:
  assumes "basic c r S" and "k < length (span_layers S)" and "span_layers S ! k = Some ys" and "set xs \<subseteq> set ys" and "distinct xs"
  obtains S' where "for_list xs (recycle_body E k) S = Inr S'" and "basic c r S'" and "dropped (set xs - splits S) S S'"
    and "span_layer_ids S' = span_layer_ids S"
  using assms
proof (induction xs arbitrary: S ys thesis)
  case Nil
  then show ?case using dropped_refl by (simp add: splits_def)
next
  case (Cons p xs)
  note ok = Cons.prems(2) and k = Cons.prems(3,4)
  have p: "p \<in> set ys" using Cons.prems(5) by simp
  obtain s where s: "spans S p = Some s" using lo_idle [OF basicD(1) [OF ok] k p] by blast
  have nv: "\<not> new_va_span s" using heap_okD [OF basicD(2) [OF ok] s] by (auto elim: span_okE)
  show ?case
  proof (cases "HasSplited s")
    case True
    obtain S' where S': "for_list xs (recycle_body E k) S = Inr S'" "basic c r S'" "dropped (set xs - splits S) S S'"
      "span_layer_ids S' = span_layer_ids S"
      using Cons.IH [OF _ ok k] Cons.prems(5,6) by auto
    have "recycle_body E k p S = Inr S" using s nv True basic_novirt [OF ok] by (simp add: recycle_body_def span_at_def)
    moreover have "set (p # xs) - splits S = set xs - splits S" using s True by (auto simp: splits_def)
    ultimately show ?thesis using Cons.prems(1) [of S'] S' by simp
  next
    case False
    obtain S1 S2 where S2: "DeviceAllocator_Free E (block_addr s) (S\<lparr>span_layers := (span_layers S)[k := Some (remove1 p ys)]\<rparr>) = Inr S1"
      "SpanFree p S1 = Inr S2" "basic c r S2" "dropped {p} S S2" "span_layer_ids S2 = span_layer_ids S"
      "span_layers S2 = (span_layers S)[k := Some (remove1 p ys)]"
      using drop_idle [OF ok k p s False] by blast
    have body: "recycle_body E k p S = Inr S2"
      using s nv False basic_novirt [OF ok] k S2 by (simp add: recycle_body_def span_at_def layer_at_def vec_ix_def)
    have sub: "set xs \<subseteq> set (remove1 p ys)"
      using Cons.prems(5,6) lo_layer [OF basicD(1) [OF ok] k] by auto
    have k2: "k < length (span_layers S2)" "span_layers S2 ! k = Some (remove1 p ys)" using S2(6) k(1) by simp_all
    have "distinct xs" using Cons.prems(6) by simp
    then obtain S3 where S3: "for_list xs (recycle_body E k) S2 = Inr S3" "basic c r S3" "dropped (set xs - splits S2) S2 S3"
      "span_layer_ids S3 = span_layer_ids S2"
      using Cons.IH [OF _ S2(3) k2 sub] by blast
    have "set xs - splits S2 = set xs - splits S"
      using S2(4) Cons.prems(6) by (auto simp: splits_def dropped_def split: if_splits)
    then have "dropped ({p} \<union> (set xs - splits S)) S S3" using dropped_trans [OF S2(4)] S3(3) by simp
    moreover have "{p} \<union> (set xs - splits S) = set (p # xs) - splits S" using s False by (auto simp: splits_def)
    ultimately show ?thesis using Cons.prems(1) [of S3] body S2(5) S3 by simp
  qed
qed

lemma recycle_layer:
  assumes ok: "basic c r S" and k: "k < length (span_layers S)" "span_layers S ! k = Some xs"
  obtains S' where "SpanLayer_Recycle E k S = Inr S'" and "basic c r S'" and "dropped (set xs - splits S) S S'"
    and "span_layer_ids S' = span_layer_ids S"
  using recycle_loop [OF ok k subset_refl lo_layer [OF basicD(1) [OF ok] k], of E] that k
  by (metis SpanLayer_Recycle_body layer_at_def rbind_Inr vec_ix_in option.simps(5))

section \<open>Loops over layers\<close>

definition in_layer :: "ScalableAllocator \<Rightarrow> nat \<Rightarrow> nat set" where
  "in_layer S k = (case span_layers S ! k of None \<Rightarrow> {} | Some xs \<Rightarrow> set xs)"

lemma in_layer_disjoint:
  assumes "basic c r S" and "j < length (span_layers S)" and "k < length (span_layers S)" and "j \<noteq> k"
  shows "in_layer S j \<inter> in_layer S k = {}"
  using layer_unique [OF basicD(1) [OF assms(1)]] assms(2-4) by (fastforce simp: in_layer_def split: option.splits)

lemma idle_layers: "idle (span_layers S) = (\<Union>k<length (span_layers S). in_layer S k)"
  by (auto simp: idle_def in_layer_def split: option.splits)

lemma dropped_other:
  assumes "basic c r S" and "dropped X S S'" and "X \<subseteq> in_layer S k"
    and "k < length (span_layers S)" and "j < length (span_layers S)" and "j \<noteq> k"
  shows "span_layers S' ! j = span_layers S ! j"
proof (cases "span_layers S ! j")
  case (Some ys)
  then have "in_layer S j = set ys" by (simp add: in_layer_def)
  then have "\<forall>p\<in>set ys. p \<notin> X" using in_layer_disjoint [OF assms(1,5,4,6)] assms(3) by blast
  then have "filter (\<lambda>p. p \<notin> X) ys = ys" by (simp add: filter_id_conv)
  then show ?thesis using assms(2,5) Some by (simp add: dropped_def)
qed (use assms in \<open>simp add: dropped_def\<close>)

text \<open>
  A loop that works on one layer after the other: an operation that drops the unsplit spans of its
  layer drops, in a loop, the unsplit spans of all layers visited.
\<close>

lemma layers_loop:
  assumes step: "\<And>S k. I S \<Longrightarrow> k < length (span_layers S) \<Longrightarrow> R (span_layers S ! k) \<Longrightarrow>
      \<exists>S'. f k S = Inr S' \<and> I S' \<and> dropped (in_layer S k - splits S) S S'"
    and I: "\<And>S. I S \<Longrightarrow> basic c r S"
  shows "I S \<Longrightarrow> distinct ks \<Longrightarrow> \<forall>k\<in>set ks. k < length (span_layers S) \<and> R (span_layers S ! k) \<Longrightarrow>
    \<exists>S'. for_list ks f S = Inr S' \<and> I S' \<and> dropped ((\<Union>k\<in>set ks. in_layer S k) - splits S) S S'"
proof (induction ks arbitrary: S)
  case Nil
  then show ?case using dropped_refl [of S] by simp
next
  case (Cons k ks)
  have k: "k < length (span_layers S)" "R (span_layers S ! k)" using Cons.prems(3) by simp_all
  obtain S1 where S1: "f k S = Inr S1" "I S1" "dropped (in_layer S k - splits S) S S1"
    using step [OF Cons.prems(1) k] by blast
  have len: "length (span_layers S1) = length (span_layers S)" using S1(3) by (simp add: dropped_def)
  have same: "span_layers S1 ! j = span_layers S ! j" if "j \<in> set ks" for j
    using dropped_other [OF I [OF Cons.prems(1)] S1(3) _ k(1), of j] that Cons.prems(2,3) by auto
  then have lay: "in_layer S1 j = in_layer S j" if "j \<in> set ks" for j using that by (simp add: in_layer_def)
  have "\<forall>j\<in>set ks. j < length (span_layers S1) \<and> R (span_layers S1 ! j)" using Cons.prems(3) same len by simp
  moreover have "distinct ks" using Cons.prems(2) by simp
  ultimately obtain S2 where S2: "for_list ks f S1 = Inr S2" "I S2" "dropped ((\<Union>k\<in>set ks. in_layer S1 k) - splits S1) S1 S2"
    using Cons.IH [OF S1(2)] by blast
  have "(\<Union>j\<in>set ks. in_layer S1 j) - splits S1 = (\<Union>j\<in>set ks. in_layer S j) - splits S"
  proof -
    have "p \<in> splits S1 \<longleftrightarrow> p \<in> splits S" if "p \<in> in_layer S j" "j \<in> set ks" for p j
    proof -
      have "p \<notin> in_layer S k"
        using in_layer_disjoint [OF I [OF Cons.prems(1)], of j k] that Cons.prems(2,3) k(1) by auto
      then show ?thesis using S1(3) by (simp add: splits_def dropped_def)
    qed
    then show ?thesis using lay by auto
  qed
  then have "dropped ((in_layer S k - splits S) \<union> ((\<Union>j\<in>set ks. in_layer S j) - splits S)) S S2"
    using dropped_trans [OF S1(3)] S2(3) by simp
  moreover have "(in_layer S k - splits S) \<union> ((\<Union>j\<in>set ks. in_layer S j) - splits S) =
      (\<Union>j\<in>set (k # ks). in_layer S j) - splits S" by auto
  ultimately show ?case using S1(1) S2(1,2) by simp
qed

section \<open>Recycle\<close>

lemma Seq_step:
  assumes inv: "alloc_inv c r S" and seq: "\<not> enable_quick_layer_mode c" and k: "k < length (span_layers S)"
  shows "\<exists>S'. (if k < length (span_layers S) \<and> span_layers S ! k \<noteq> None then SpanLayer_Recycle E k S else Inr S) = Inr S' \<and>
    alloc_inv c r S' \<and> dropped (in_layer S k - splits S) S S'"
proof (cases "span_layers S ! k")
  case None
  then show ?thesis using inv dropped_refl [of S] by (simp add: in_layer_def)
next
  case (Some xs)
  have ok: "basic c r S" and lut: "seq_ok (span_layer_ids S) (span_layers S)"
    using inv seq by (simp_all add: inv_basic lut_ok_def)
  obtain S' where S': "SpanLayer_Recycle E k S = Inr S'" "basic c r S'" "dropped (set xs - splits S) S S'"
    "span_layer_ids S' = span_layer_ids S"
    using recycle_layer [OF ok k Some] by blast
  have "seq_ok (span_layer_ids S') (span_layers S')"
    using lut S'(3,4) by (auto simp: seq_ok_def dropped_def)
  then show ?thesis using S' Some k seq by (auto simp: inv_basic lut_ok_def in_layer_def)
qed

lemma Quick_step:
  assumes inv: "alloc_inv c r S" and quick: "enable_quick_layer_mode c" and k: "k < length (span_layers S)"
    and full: "\<exists>x xs. span_layers S ! k = Some (x # xs)"
  shows "\<exists>S'. (if length (span_layers S) \<le> k \<or> span_layers S ! k = None then Inl Undefined
     else rbind (SpanLayer_Recycle E k S) (\<lambda>S.
          rbind (layer_at k S) (\<lambda>xs.
          Inr (if xs = [] then S\<lparr>span_layer_ids := remove1 k (span_layer_ids S)\<rparr> else S)))) = Inr S' \<and>
    alloc_inv c r S' \<and> dropped (in_layer S k - splits S) S S'"
proof -
  obtain xs where xs: "span_layers S ! k = Some xs" "xs \<noteq> []" using full by auto
  have ok: "basic c r S" and lut: "sorted_wrt (<) (span_layer_ids S)" "set (span_layer_ids S) = {j. layer_filled (span_layers S) j}"
    using inv quick by (simp_all add: inv_basic lut_ok_def quick_ok_def)
  obtain S1 where S1: "SpanLayer_Recycle E k S = Inr S1" "basic c r S1" "dropped (set xs - splits S) S S1"
    "span_layer_ids S1 = span_layer_ids S"
    using recycle_layer [OF ok k xs(1)] by blast
  let ?zs = "filter (\<lambda>p. p \<notin> set xs - splits S) xs"
  have k1: "k < length (span_layers S1)" "span_layers S1 ! k = Some ?zs" using S1(3) k xs(1) by (simp_all add: dropped_def)
  have lay: "in_layer S k = set xs" using xs(1) by (simp add: in_layer_def)
  have "layer_filled (span_layers S1) j \<longleftrightarrow> (if j = k then ?zs \<noteq> [] else layer_filled (span_layers S) j)" for j
  proof (cases "j = k")
    case True then show ?thesis using k1 by (simp add: layer_filled_def)
  next
    case False
    have len: "length (span_layers S1) = length (span_layers S)" using S1(3) by (simp add: dropped_def)
    show ?thesis
      using dropped_other [OF ok S1(3) _ k _ False] False len lay by (auto simp: layer_filled_def)
  qed
  moreover have "layer_filled (span_layers S) k" using k xs by (simp add: layer_filled_def)
  ultimately have fill: "{j. layer_filled (span_layers S1) j} =
      (if ?zs = [] then {j. layer_filled (span_layers S) j} - {k} else {j. layer_filled (span_layers S) j})"
    by auto
  let ?S2 = "if ?zs = [] then S1\<lparr>span_layer_ids := remove1 k (span_layer_ids S1)\<rparr> else S1"
  have "quick_ok (span_layer_ids ?S2) (span_layers ?S2)"
    using lut fill S1(4) by (auto simp: quick_ok_def remove1_sorted strict_sorted_iff sorted_remove1)
  moreover have "basic c r ?S2" using S1(2) by (simp add: basic_def)
  moreover have "dropped (in_layer S k - splits S) S ?S2" using S1(3) lay by (simp add: dropped_def)
  ultimately show ?thesis
    using k xs(1) S1(1) k1 quick by (auto simp: layer_at_def vec_ix_def inv_basic lut_ok_def)
qed

lemma lut_covers:
  assumes "lut_ok c (span_layer_ids S) (span_layers S)"
  shows "(\<Union>k\<in>set (span_layer_ids S). in_layer S k) = idle (span_layers S)"
proof -
  have "k < length (span_layers S)" if "k \<in> set (span_layer_ids S)" for k
    using assms that by (auto simp: lut_ok_def quick_ok_def seq_ok_def layer_filled_def split: if_splits)
  moreover have "in_layer S k = {}" if "k < length (span_layers S)" "k \<notin> set (span_layer_ids S)" for k
    using assms that by (auto simp: lut_ok_def quick_ok_def seq_ok_def layer_filled_def in_layer_def split: if_splits option.splits)
  ultimately show ?thesis unfolding idle_layers by blast
qed

lemma Recycle_drops:
  assumes inv: "alloc_inv c r S"
  obtains S' where "Recycle E c S = Inr S'" and "alloc_inv c r S'" and "dropped (idle (span_layers S) - splits S) S S'"
proof -
  have ok: "basic c r S" and lut: "lut_ok c (span_layer_ids S) (span_layers S)" using inv by (simp_all add: inv_basic)
  let ?ids = "span_layer_ids S"
  have "\<exists>S'. (if enable_quick_layer_mode c then Quick_Recycle E S else Seq_Recycle E S) = Inr S' \<and> alloc_inv c r S' \<and>
      dropped ((\<Union>k\<in>set ?ids. in_layer S k) - splits S) S S'"
  proof (cases "enable_quick_layer_mode c")
    case True
    have "\<forall>k\<in>set ?ids. k < length (span_layers S) \<and> (\<exists>x xs. span_layers S ! k = Some (x # xs))" "distinct ?ids"
      using lut True by (auto simp: lut_ok_def quick_ok_def layer_filled_def strict_sorted_iff neq_Nil_conv split: option.splits)
    note loop = layers_loop [of "alloc_inv c r" "\<lambda>l. \<exists>x xs. l = Some (x # xs)" _ c r, OF Quick_step [OF _ True, where E = E] _ inv this(2,1)]
    show ?thesis unfolding Quick_Recycle_def if_P [OF True] by (rule loop) (simp_all add: inv_basic)
  next
    case False
    have "\<forall>k\<in>set ?ids. k < length (span_layers S) \<and> True" "distinct ?ids"
      using lut False by (auto simp: lut_ok_def seq_ok_def strict_sorted_iff)
    note loop = layers_loop [of "alloc_inv c r" "\<lambda>_. True" _ c r, OF Seq_step [OF _ False, where E = E] _ inv this(2,1)]
    show ?thesis unfolding Seq_Recycle_def if_not_P [OF False] by (rule loop) (simp_all add: inv_basic)
  qed
  moreover have "(\<Union>k\<in>set ?ids. in_layer S k) = idle (span_layers S)"
    by (rule lut_covers [OF lut])
  ultimately obtain S1 where S1: "(if enable_quick_layer_mode c then Quick_Recycle E S else Seq_Recycle E S) = Inr S1"
    "alloc_inv c r S1" "dropped (idle (span_layers S) - splits S) S S1" by auto
  have "new_va_size S = 0" using ok by (simp add: basic_def)
  then show ?thesis
    using that [of "S1\<lparr>recycle_count := recycle_count S1 + 1\<rparr>"] S1 by (simp add: Recycle_def dropped_def)
qed

section \<open>Finalize\<close>

lemma release_loop:
  assumes "basic c r S" and "splits S = {}" and "k < length (span_layers S)" and "span_layers S ! k = Some xs"
  obtains S' where "release_loop E k xs S = Inr S'" and "basic c r S'" and "dropped (set xs) S S'"
    and "span_layer_ids S' = span_layer_ids S"
  using assms
proof (induction xs arbitrary: S thesis)
  case Nil
  then show ?case using dropped_refl by simp
next
  case (Cons p ps)
  note ok = Cons.prems(2) and k = Cons.prems(4,5)
  have p: "p \<in> set (p # ps)" by simp
  obtain s where s: "spans S p = Some s" using lo_idle [OF basicD(1) [OF ok] k p] by blast
  have un: "\<not> HasSplited s" using Cons.prems(3) s by (auto simp: splits_def)
  have nv: "\<not> new_va_span s" using heap_okD [OF basicD(2) [OF ok] s] by (auto elim: span_okE)
  obtain S1 S2 where S2: "DeviceAllocator_Free E (block_addr s) (S\<lparr>span_layers := (span_layers S)[k := Some (remove1 p (p # ps))]\<rparr>) = Inr S1"
    "SpanFree p S1 = Inr S2" "basic c r S2" "dropped {p} S S2" "span_layers S2 = (span_layers S)[k := Some (remove1 p (p # ps))]"
    "span_layer_ids S2 = span_layer_ids S"
    using drop_idle [OF ok k p s un] by blast
  have "splits S2 = {}" using Cons.prems(3) S2(4) by (auto simp: splits_def dropped_def split: if_splits)
  moreover have "k < length (span_layers S2)" "span_layers S2 ! k = Some ps" using S2(5) k(1) by simp_all
  ultimately obtain S3 where S3: "release_loop E k ps S2 = Inr S3" "basic c r S3" "dropped (set ps) S2 S3"
      "span_layer_ids S3 = span_layer_ids S2"
    using Cons.IH [OF _ S2(3)] by blast
  have "IsBuddyHeader s" "\<not> IsValidVirtualAddr (sp_addr s) (S\<lparr>span_layers := (span_layers S)[k := Some ps]\<rparr>)"
    using un basic_novirt [OF ok] by (auto simp: IsBuddyHeader_def HasSplited_def IsValidVirtualAddr_def)
  then have "release_loop E k (p # ps) S = Inr S3"
    using s nv S2(1,2) S3(1) by (simp add: span_at_def Let_def)
  moreover have "dropped (set (p # ps)) S S3" using dropped_trans [OF S2(4) S3(3)] by simp
  ultimately show ?case using Cons.prems(1) S3(2,4) S2(6) by simp
qed

lemma Release_step:
  assumes "basic c r S \<and> splits S = {} \<and> span_layer_ids S = ids" and "k < length (span_layers S)"
  shows "\<exists>S'. (if k < length (span_layers S) \<and> span_layers S ! k \<noteq> None then SpanLayer_Release E k S else Inr S) = Inr S' \<and>
    (basic c r S' \<and> splits S' = {} \<and> span_layer_ids S' = ids) \<and> dropped (in_layer S k - splits S) S S'"
proof (cases "span_layers S ! k")
  case None
  then show ?thesis using assms dropped_refl [of S] by (simp add: in_layer_def)
next
  case (Some xs)
  obtain S' where S': "release_loop E k xs S = Inr S'" "basic c r S'" "dropped (set xs) S S'" "span_layer_ids S' = span_layer_ids S"
    using release_loop [OF _ _ assms(2) Some] assms(1) by blast
  moreover have "splits S' = {}" using S'(3) assms(1) by (auto simp: splits_def dropped_def split: if_splits)
  ultimately show ?thesis
    using assms Some by (simp add: SpanLayer_Release_def layer_at_def vec_ix_def in_layer_def)
qed

text \<open>Without occupied spans every block is one span: buddies would both be idle.\<close>

lemma unsplit:
  assumes ok: "basic c r S" and "occupied_spans S = []"
  shows "splits S = {}"
proof -
  note lists = basicD(1) [OF ok] and heap = basicD(2) [OF ok]
  have idle: "p \<in> idle (span_layers S)" if "spans S p = Some s" for p s
    using lo_all [OF lists that] assms(2) by simp
  have no: "buddy_next s = None" if s: "spans S p = Some s" for p s
  proof (cases "buddy_next s")
    case (Some q)
    then obtain t where "spans S q = Some t" using heap_okD [OF heap s] by (auto elim!: span_okE)
    then show ?thesis using lo_coal [OF lists s Some idle [OF s]] idle by blast
  qed
  have "\<not> HasSplited s" if s: "spans S p = Some s" for p s
  proof (cases "buddy_prev s")
    case None then show ?thesis using no [OF s] by (simp add: HasSplited_def)
  next
    case (Some q)
    then obtain t where "spans S q = Some t" "buddy_next t = Some p" using heap_okD [OF heap s] by (auto elim!: span_okE)
    then show ?thesis using no by fastforce
  qed
  then show ?thesis by (auto simp: splits_def)
qed

lemma all_idle: "basic c r S \<Longrightarrow> occupied_spans S = [] \<Longrightarrow> dropped (idle (span_layers S)) S S' \<Longrightarrow> spans S' = Map.empty"
  using lo_all [OF basicD(1)] by (fastforce simp: dropped_def fun_eq_iff)

lemma Release_drops:
  assumes inv: "alloc_inv c r S" and occ: "occupied_spans S = []"
  obtains S' where "(if enable_quick_layer_mode c then Quick_Release E S else Seq_Release E S) = Inr S'"
    and "basic c r S'" and "dropped (idle (span_layers S)) S S'"
    and "lut_ok c (span_layer_ids S') (map (\<lambda>_. None) (span_layers S'))"
proof -
  have ok: "basic c r S" and lut: "lut_ok c (span_layer_ids S) (span_layers S)" using inv by (simp_all add: inv_basic)
  have un: "splits S = {}" by (rule unsplit [OF ok occ])
  let ?I = "\<lambda>S'. basic c r S' \<and> splits S' = {} \<and> span_layer_ids S' = span_layer_ids S"
  let ?f = "\<lambda>k S. if k < length (span_layers S) \<and> span_layers S ! k \<noteq> None then SpanLayer_Release E k S else Inr S"
  let ?g = "\<lambda>k S. if span_layers S ! k \<noteq> None then SpanLayer_Release E k S else Inr S"
  have I: "?I S" using ok un by simp
  have step: "\<exists>S''. ?g k S' = Inr S'' \<and> ?I S'' \<and> dropped (in_layer S' k - splits S') S' S''"
    if "?I S'" "k < length (span_layers S')" for S' k
    using Release_step [OF that, of E] that(2) by simp
  show thesis
  proof (cases "enable_quick_layer_mode c")
    case True
    have range: "\<forall>k\<in>set [0..<length (span_layers S)]. k < length (span_layers S) \<and> True" by simp
    have "\<exists>S'. for_list [0..<length (span_layers S)] ?g S = Inr S' \<and> ?I S' \<and>
        dropped ((\<Union>k\<in>set [0..<length (span_layers S)]. in_layer S k) - splits S) S S'"
      by (rule layers_loop [of ?I "\<lambda>_. True" ?g c r, OF step _ I distinct_upt range]) simp_all
    then obtain S1 where S1: "for_list [0..<length (span_layers S)] ?g S = Inr S1" "?I S1"
      "dropped (idle (span_layers S)) S S1"
      by (auto simp: idle_layers un atLeast0LessThan)
    let ?S = "S1\<lparr>span_layer_ids := []\<rparr>"
    have "lut_ok c (span_layer_ids ?S) (map (\<lambda>_. None) (span_layers ?S))"
      using True by (auto simp: lut_ok_def quick_ok_def layer_filled_def)
    moreover have "Quick_Release E S = Inr ?S" using S1(1) by (simp add: Quick_Release_def)
    ultimately show ?thesis
      using that [of ?S] True S1(2,3) by (simp add: basic_def dropped_def)
  next
    case False
    have ids: "sorted_wrt (<) (span_layer_ids S)" "set (span_layer_ids S) \<subseteq> {..<length (span_layers S)}"
      using lut False by (simp_all add: lut_ok_def seq_ok_def)
    then have range: "\<forall>k\<in>set (span_layer_ids S). k < length (span_layers S) \<and> True" and dist: "distinct (span_layer_ids S)"
      by (auto simp: strict_sorted_iff)
    have "\<exists>S'. for_list (span_layer_ids S) ?f S = Inr S' \<and> ?I S' \<and>
        dropped ((\<Union>k\<in>set (span_layer_ids S). in_layer S k) - splits S) S S'"
      by (rule layers_loop [of ?I "\<lambda>_. True" ?f c r, OF Release_step _ I dist range]) simp_all
    then obtain S1 where S1: "for_list (span_layer_ids S) ?f S = Inr S1" "?I S1" "dropped (idle (span_layers S)) S S1"
      using lut_covers [OF lut] un by auto
    have "lut_ok c (span_layer_ids S1) (map (\<lambda>_. None) (span_layers S1))"
      using False ids S1(2,3) by (simp add: lut_ok_def seq_ok_def dropped_def)
    then show ?thesis
      using that [of S1] False S1 by (simp add: Seq_Release_def)
  qed
qed

text \<open>\<open>Finalize\<close> refuses while a client holds memory, and otherwise leaves an allocator without spans.\<close>

lemma Finalize_occupied: "occupied_spans S \<noteq> [] \<Longrightarrow> Scalable_Finalize E c S = Inr (False, S)"
  by (simp add: Scalable_Finalize_def)

lemma Finalize_empty:
  assumes inv: "alloc_inv c r S" and c: "cfg_ok c" and occ: "occupied_spans S = []"
  obtains S' where "Scalable_Finalize E c S = Inr (True, S')" and "alloc_inv c r S'" and "spans S' = Map.empty"
    and "live c S' = live c S"
proof -
  have ok: "basic c r S" using inv by (simp add: inv_basic)
  obtain S1 where S1: "(if enable_quick_layer_mode c then Quick_Release E S else Seq_Release E S) = Inr S1"
    "basic c r S1" "dropped (idle (span_layers S)) S S1" "lut_ok c (span_layer_ids S1) (map (\<lambda>_. None) (span_layers S1))"
    using Release_drops [OF inv occ] by blast
  let ?S = "S1\<lparr>span_layers := map (\<lambda>_. None) (span_layers S1)\<rparr>"
  have empty: "spans S1 = Map.empty" by (rule all_idle [OF ok occ S1(3)])
  have occ1: "occupied_spans S1 = []" using S1(3) occ by (simp add: dropped_def)
  have "lists_ok c {} (spans ?S) (occupied_spans ?S) (span_layers ?S)"
    using lo_len [OF basicD(1) [OF S1(2)]] empty occ1 by (simp add: lists_ok_def)
  then have "alloc_inv c r ?S" using S1(2,4) by (simp add: inv_basic basic_def)
  moreover have "live c ?S = live c S" using empty occ occ1 by (simp add: live_def fun_eq_iff)
  moreover have "span_layers S \<noteq> []" "virtual_memory_addr_base S1 = 0" "new_va_size S = 0"
    using core_layers [of c "{}" S] inv c S1(2) ok by (simp_all add: alloc_inv_def basic_def)
  ultimately show ?thesis
    using that [of ?S] S1(1) occ empty by (simp add: Scalable_Finalize_def)
qed

end
