(* ===== verification/PageAllocator.thy ===== *)
theory PageAllocator
  imports ScalableRecycle
begin

text \<open>
  The page allocator as its clients see it: sequences of calls from construction on, what each call
  does to the memory in the clients' hands, and what holds in every state that can be reached.
\<close>

section \<open>Calls\<close>

datatype alloc_call = Malloc nat | MallocRetry nat | FreeBlock nat | RecycleAll | Shutdown | TakeRoot nat

datatype alloc_answer = Span "nat option" | Done | Flag bool | Block "nat option"

text \<open>\<^verbatim>\<open>ge::MemBlock::Free\<close> reaches the allocator when the last use of the block ends.\<close>

definition unused :: "nat \<Rightarrow> ScalableAllocator \<Rightarrow> ScalableAllocator" where
  "unused p S = S\<lparr>spans := (spans S)(p := map_option (\<lambda>s. s\<lparr>sp_count := 0\<rparr>) (spans S p))\<rparr>"

fun perform :: "host_env \<Rightarrow> allocator_cfg \<Rightarrow> alloc_call \<Rightarrow> ScalableAllocator \<Rightarrow> (alloc_answer \<times> ScalableAllocator) res" where
  "perform E c (Malloc sz) S = rbind (Alloc E c sz S) (\<lambda>(x, S). Inr (Span x, S))"
| "perform E c (MallocRetry sz) S = rbind (AllocateWithTryRecycle E c sz S) (\<lambda>(x, S). Inr (Span x, S))"
| "perform E c (FreeBlock p) S = rbind (Free E c (Some p) (unused p S)) (\<lambda>S. Inr (Done, S))"
| "perform E c RecycleAll S = rbind (Recycle E c S) (\<lambda>S. Inr (Done, S))"
| "perform E c Shutdown S = rbind (Scalable_Finalize E c S) (\<lambda>(ok, S). Inr (Flag ok, S))"
| "perform E c (TakeRoot p) S = rbind (ConvertToRootBlock p S) (\<lambda>(b, S). Inr (Block b, S))"

fun legal :: "alloc_call \<Rightarrow> ScalableAllocator \<Rightarrow> bool" where
  "legal (FreeBlock p) S \<longleftrightarrow> p \<in> set (occupied_spans S)"
| "legal (TakeRoot p) S \<longleftrightarrow> p \<in> set (occupied_spans S)"
| "legal _ S \<longleftrightarrow> True"

inductive alloc_reach :: "host_env \<Rightarrow> allocator_cfg \<Rightarrow> ScalableAllocator \<Rightarrow> bool" for E c where
  start: "alloc_reach E c (ScalableAllocator_new c)"
| call: "alloc_reach E c S \<Longrightarrow> legal a S \<Longrightarrow> perform E c a S = Inr (y, S') \<Longrightarrow> alloc_reach E c S'"

text \<open>The specification: clients hold disjoint ranges, each named by its span.\<close>

definition grants :: "allocator_cfg \<Rightarrow> nat \<Rightarrow> (nat \<Rightarrow> (nat \<times> nat) option) \<Rightarrow> nat option \<Rightarrow> (nat \<Rightarrow> (nat \<times> nat) option) \<Rightarrow> bool" where
  "grants c sz m x m' \<longleftrightarrow> (case x of None \<Rightarrow> m' = m
     | Some p \<Rightarrow> m p = None \<and> (\<exists>a. m' = m(p \<mapsto> (a, GetAllocSize c sz)) \<and>
         (\<forall>q b n. m q = Some (b, n) \<longrightarrow> a + GetAllocSize c sz \<le> b \<or> b + n \<le> a)))"

fun range_step :: "allocator_cfg \<Rightarrow> alloc_call \<Rightarrow> (nat \<Rightarrow> (nat \<times> nat) option) \<Rightarrow> alloc_answer \<Rightarrow> (nat \<Rightarrow> (nat \<times> nat) option) \<Rightarrow> bool" where
  "range_step c (Malloc sz) m y m' \<longleftrightarrow> (\<exists>x. y = Span x \<and> grants c sz m x m')"
| "range_step c (MallocRetry sz) m y m' \<longleftrightarrow> (\<exists>x. y = Span x \<and> grants c sz m x m')"
| "range_step c (FreeBlock p) m y m' \<longleftrightarrow> y = Done \<and> m' = m(p := None)"
| "range_step c RecycleAll m y m' \<longleftrightarrow> y = Done \<and> m' = m"
| "range_step c Shutdown m y m' \<longleftrightarrow> y = Flag (m = Map.empty) \<and> m' = m"
| "range_step c (TakeRoot p) m y m' \<longleftrightarrow> y = Block None \<and> m' = m \<or> (\<exists>b. y = Block (Some b) \<and> m' = m(p := None))"

section \<open>Effect of the calls\<close>

lemma new_inv: "cfg_ok c \<Longrightarrow> alloc_inv c r (ScalableAllocator_new c)"
proof -
  assume c: "cfg_ok c"
  have "lists_ok c {} Map.empty [] (replicate (span_layer_capacity c) None)"
    by (auto simp: lists_ok_def idle_def)
  moreover have "lut_ok c [] (replicate (span_layer_capacity c) None)"
    using quick_lut.empty_ok seq_lut.empty_ok by (simp add: lut_ok_def)
  ultimately show ?thesis
    by (simp add: alloc_inv_def core_def ScalableAllocator_new_def heap_ok_def)
qed

lemma live_dom: "alloc_inv c r S \<Longrightarrow> live c S p = None \<longleftrightarrow> p \<notin> set (occupied_spans S)"
  using lo_occ [OF core_lists, of c "{}" S p] by (auto simp: alloc_inv_def live_def)

lemma live_span:
  assumes "live c S p = Some (a, n)"
  obtains s where "p \<in> set (occupied_spans S)" and "spans S p = Some s" and "a = sp_addr s" and "a + n = fin c s"
  using assms by (auto simp: live_def extent_def fin_def split: if_splits)

lemma live_disjoint:
  assumes "alloc_inv c r S" and "live c S p = Some (a, n)" and "live c S q = Some (b, m)" and "p \<noteq> q"
  shows "a + n \<le> b \<or> b + m \<le> a"
proof -
  obtain s t where "spans S p = Some s" "a = sp_addr s" "a + n = fin c s" "spans S q = Some t" "b = sp_addr t" "b + m = fin c t"
    using live_span [OF assms(2)] live_span [OF assms(3)] by metis
  then show ?thesis
    using heap_ok_disjoint [of c "blocks S" r "spans S" p s q t] assms(1,4) by (simp add: alloc_inv_def)
qed

lemma attempt_grants:
  assumes at: "attempt c (pages c sz) S x S'" and c: "cfg_ok c" and sz: "sz \<le> page_mem_size_total_threshold c"
    and inv: "alloc_inv c r S"
  shows "grants c sz (live c S) x (live c S')"
proof (cases x)
  case None
  then show ?thesis using at by (simp add: attempt_def grants_def)
next
  case (Some p)
  then obtain a r' where a: "p \<notin> set (occupied_spans S)" "live c S' = (live c S)(p \<mapsto> (a, GetAllocSize c sz))" "alloc_inv c r' S'"
    using at pages_size(1) [OF c sz] by (auto simp: attempt_def)
  have p: "live c S p = None" using live_dom [OF inv] a(1) by simp
  have "a + GetAllocSize c sz \<le> b \<or> b + n \<le> a" if "live c S q = Some (b, n)" for q b n
  proof -
    have "q \<noteq> p" using that p by auto
    then show ?thesis using live_disjoint [OF a(3), of p a "GetAllocSize c sz" q b n] that a(2) by simp
  qed
  then show ?thesis using Some p a(2) by (auto simp: grants_def)
qed

lemma grants_none: "grants c sz m None m"
  by (simp add: grants_def)

lemma Alloc_grants:
  assumes inv: "alloc_inv c r S" and E: "env_ok E" and c: "cfg_ok c"
  obtains x S' r' where "Alloc E c sz S = Inr (x, S')" and "alloc_inv c r' S'" and "grants c sz (live c S) x (live c S')"
proof (cases "sz \<le> page_mem_size_total_threshold c")
  case True
  obtain x S' where at: "Alloc E c sz S = Inr (x, S')" "attempt c (pages c sz) S x S'"
    using Alloc_attempt [OF inv E c True] by blast
  obtain r' where "alloc_inv c r' S'" using at(2) by (auto simp: attempt_def)
  then show ?thesis using that at(1) attempt_grants [OF at(2) c True inv] by blast
next
  case False
  then show ?thesis using that [of None S r] inv grants_none by (simp add: Alloc_def)
qed

lemma Retry_grants:
  assumes inv: "alloc_inv c r S" and E: "env_ok E" and c: "cfg_ok c"
  obtains x S' r' where "AllocateWithTryRecycle E c sz S = Inr (x, S')" and "alloc_inv c r' S'"
    and "grants c sz (live c S) x (live c S')"
proof -
  obtain x S1 r1 where S1: "Alloc E c sz S = Inr (x, S1)" "alloc_inv c r1 S1" "grants c sz (live c S) x (live c S1)"
    using Alloc_grants [OF inv E c] by blast
  show thesis
  proof (cases x)
    case (Some p)
    then show ?thesis using that [of x S1 r1] S1 by (simp add: AllocateWithTryRecycle_def)
  next
    case None
    obtain S2 where S2: "Recycle E c S1 = Inr S2" "alloc_inv c r1 S2" "dropped (idle (span_layers S1) - splits S1) S1 S2"
      using Recycle_drops [OF S1(2)] by blast
    obtain y S3 r3 where S3: "Alloc E c sz S2 = Inr (y, S3)" "alloc_inv c r3 S3" "grants c sz (live c S2) y (live c S3)"
      using Alloc_grants [OF S2(2) E c] by blast
    have "live c S2 = live c S"
      using dropped_live [OF S2(3), of c r1] S1(2,3) None by (simp add: inv_basic grants_def)
    then show ?thesis using that [of y S3 r3] S1(1) S2(1) S3 None by (simp add: AllocateWithTryRecycle_def)
  qed
qed

lemma Free_releases:
  assumes inv: "alloc_inv c r S" and E: "env_ok E" and c: "cfg_ok c" and p: "p \<in> set (occupied_spans S)"
  obtains S' where "Free E c (Some p) (unused p S) = Inr S'" and "alloc_inv c r S'" and "live c S' = (live c S)(p := None)"
proof -
  have core: "core c {} S" and heap: "heap_ok c (blocks S) r (spans S)" using inv by (simp_all add: alloc_inv_def)
  obtain s where s: "spans S p = Some s" using lo_occ [OF core_lists [OF core] p] by blast
  have geo: "\<not> new_va_span s" "ref_span s = None" using heap_okD [OF heap s] by (auto elim: span_okE)
  let ?s = "s\<lparr>sp_count := 0\<rparr>"
  let ?S = "if real_size s \<le> theory_size S
            then S\<lparr>real_theory_size := sub64 (real_theory_size S) (real_size s),
                   theory_size := sub64 (theory_size S) (PageSpan_GetSize (page_idem_num c) s)\<rparr> else S"
  have inv1: "alloc_inv c r ?S" "live c ?S = live c S" "p \<in> set (occupied_spans ?S)" "spans ?S p = Some s"
    using inv p s by simp_all
  have geo': "same_geo s ?s" "sp_count ?s = 0" by (simp_all add: same_geo_def)
  obtain S' where S': "release_span E c p (?S\<lparr>spans := (spans ?S)(p \<mapsto> ?s)\<rparr>) = Inr S'" "alloc_inv c r S'"
    "live c S' = (live c ?S)(p := None)"
    using release [OF inv1(1) E c inv1(3,4) geo'] by blast
  have "Free E c (Some p) (unused p S) = release_span E c p (?S\<lparr>spans := (spans ?S)(p \<mapsto> ?s)\<rparr>)"
    using s geo core_plain [OF core]
    by (cases S) (simp add: Free_def unused_def span_at_def PageSpan_GetSize_def IsValidVirtualAddr_def Let_def)
  then show ?thesis using that [of S'] S' inv1(2) by simp
qed

text \<open>The release inside the allocator first takes all uses of the span away.\<close>

lemma FreeSpanEx_releases:
  assumes inv: "alloc_inv c r S" and E: "env_ok E" and c: "cfg_ok c" and p: "p \<in> set (occupied_spans S)"
  obtains S' where "FreeSpanEx E c p S = Inr S'" and "alloc_inv c r S'" and "live c S' = (live c S)(p := None)"
proof -
  obtain s where s: "spans S p = Some s" using lo_occ [OF core_lists [of c "{}" S] p] inv by (auto simp: alloc_inv_def)
  have geo: "same_geo s (s\<lparr>sp_count := 0\<rparr>)" "sp_count (s\<lparr>sp_count := 0\<rparr>) = 0" by (simp_all add: same_geo_def)
  have "drain E p (spans S) = Inr ((spans S)(p \<mapsto> s\<lparr>sp_count := 0\<rparr>))" by (rule drain_span [of E "spans S" p s, OF E s])
  then show thesis
    using release [OF inv E c p s geo] that by (auto simp: FreeSpanEx_def)
qed

lemma Convert_takes:
  assumes inv: "alloc_inv c r S" and p: "p \<in> set (occupied_spans S)"
  obtains b S' where "ConvertToRootBlock p S = Inr (b, S')" and "alloc_inv c r S'"
    and "b = None \<and> live c S' = live c S \<or> b \<noteq> None \<and> live c S' = (live c S)(p := None)"
proof -
  have core: "core c {} S" and heap: "heap_ok c (blocks S) r (spans S)" using inv by (simp_all add: alloc_inv_def)
  obtain s where s: "spans S p = Some s" using lo_occ [OF core_lists [OF core] p] by blast
  show thesis
  proof (cases "HasSplited s")
    case True
    then show ?thesis using that [of None S] s inv by (simp add: ConvertToRootBlock_def span_at_def)
  next
    case False
    note drop = drop_span_heap [OF heap s False]
    let ?S = "S\<lparr>occupied_spans := remove1 p (occupied_spans S), spans := (spans S)(p := None)\<rparr>"
    have "lists_ok c {} ((spans S)(p := None)) (remove1 p (occupied_spans S)) (span_layers S)"
      by (rule lists_store [OF lists_vacate [OF core_lists [OF core] p]]) auto
    then have "core c {} ?S"
      by - (rule coreI, use core_lut [OF core] core_span [OF core] core_block [OF core] core_plain [OF core]
          in \<open>auto split: if_splits\<close>)
    then have "alloc_inv c r ?S" using drop(1) by (simp add: alloc_inv_def)
    moreover have "live c ?S = (live c S)(p := None)"
      using lo_dist [OF core_lists [OF core]] by (auto simp: live_def fun_eq_iff)
    ultimately show ?thesis
      using that [of "block_addr s" ?S] s p False drop(3)
      by (simp add: ConvertToRootBlock_def span_at_def RemoveOccupied_def SpanFree_def)
  qed
qed

lemma perform_refines:
  assumes inv: "alloc_inv c r S" and E: "env_ok E" and c: "cfg_ok c" and "legal a S"
  shows "\<exists>y S' r'. perform E c a S = Inr (y, S') \<and> alloc_inv c r' S' \<and> range_step c a (live c S) y (live c S')"
proof (cases a)
  case (Malloc sz)
  obtain x S' r' where "Alloc E c sz S = Inr (x, S')" "alloc_inv c r' S'" "grants c sz (live c S) x (live c S')"
    using Alloc_grants [OF inv E c] by blast
  then show ?thesis using Malloc by auto
next
  case (MallocRetry sz)
  obtain x S' r' where "AllocateWithTryRecycle E c sz S = Inr (x, S')" "alloc_inv c r' S'" "grants c sz (live c S) x (live c S')"
    using Retry_grants [OF inv E c] by blast
  then show ?thesis using MallocRetry by auto
next
  case (FreeBlock p)
  obtain S' where "Free E c (Some p) (unused p S) = Inr S'" "alloc_inv c r S'" "live c S' = (live c S)(p := None)"
    using Free_releases [OF inv E c] assms(4) FreeBlock by auto
  then show ?thesis using FreeBlock by auto
next
  case RecycleAll
  obtain S' where S': "Recycle E c S = Inr S'" "alloc_inv c r S'" "dropped (idle (span_layers S) - splits S) S S'"
    using Recycle_drops [OF inv] by blast
  have "live c S' = live c S" using dropped_live [OF S'(3), of c r] inv by (simp add: inv_basic)
  then show ?thesis using RecycleAll S'(1,2) by auto
next
  case Shutdown
  show ?thesis
  proof (cases "occupied_spans S = []")
    case True
    then have "live c S = Map.empty" by (simp add: live_def fun_eq_iff)
    moreover obtain S' where "Scalable_Finalize E c S = Inr (True, S')" "alloc_inv c r S'" "live c S' = live c S"
      using Finalize_empty [OF inv c True] by blast
    ultimately show ?thesis using Shutdown by auto
  next
    case False
    then obtain p where "p \<in> set (occupied_spans S)" by (meson list.set_sel(1))
    then have "live c S p \<noteq> None" using live_dom [OF inv] by simp
    then have "live c S \<noteq> Map.empty" by auto
    then show ?thesis using Finalize_occupied [OF False] inv Shutdown by auto
  qed
next
  case (TakeRoot p)
  obtain b S' where "ConvertToRootBlock p S = Inr (b, S')" "alloc_inv c r S'"
    "b = None \<and> live c S' = live c S \<or> b \<noteq> None \<and> live c S' = (live c S)(p := None)"
    using Convert_takes [OF inv] assms(4) TakeRoot by auto
  then show ?thesis using TakeRoot by auto
qed

lemma reach_inv:
  assumes "alloc_reach E c S" and "env_ok E" and "cfg_ok c"
  shows "\<exists>r. alloc_inv c r S"
  using assms
proof (induction rule: alloc_reach.induct)
  case start
  then show ?case using new_inv by blast
next
  case (call S a y S')
  then obtain r where "alloc_inv c r S" by blast
  from perform_refines [OF this call.prems(1,2) call.hyps(2)] call.hyps(3) show ?case by auto
qed

end
