(* ===== verification/AllocatorCorrect.thy ===== *)
theory AllocatorCorrect
  imports PageAllocator
begin

text \<open>
  The properties of the page allocator over the states its clients can reach, with a small device
  and configuration on which each of them is evaluated.
\<close>

section \<open>A sample allocator\<close>

text \<open>A device that places every block behind the blocks in use, and pages of 16 bytes.\<close>

definition bump :: "nat \<Rightarrow> (nat \<Rightarrow> dev_block option) \<Rightarrow> nat" where
  "bump n B = foldr (\<lambda>b a. case B b of None \<Rightarrow> a | Some m \<Rightarrow> max a (blk_fin m)) [0..<n] 4096"

definition sample_env :: host_env where
  "sample_env = \<lparr>new_ok = \<lambda>_. True, count0 = 1, add_count = \<lambda>n. n + 1, sub_count = \<lambda>n. n - 1,
     rtMalloc = \<lambda>n B sz. Some (bump n B), rtFree = \<lambda>n a. True\<rparr>"

definition sample_cfg :: allocator_cfg where
  "sample_cfg = \<lparr>page_idem_num = 4, huge_page_mem_size = 64, page_mem_size_total_threshold = 64,
     span_layer_lift_max = 2 ^ 32 - 1, enable_quick_layer_mode = True, rts_caching = True\<rparr>"

lemma bump_above: "b < n \<Longrightarrow> B b = Some m \<Longrightarrow> blk_fin m \<le> bump n B"
proof -
  have "b \<in> set bs \<Longrightarrow> B b = Some m \<Longrightarrow> blk_fin m \<le> foldr (\<lambda>b a. case B b of None \<Rightarrow> a | Some m \<Rightarrow> max a (blk_fin m)) bs k" for bs k
    by (induction bs) (auto split: option.splits simp: le_max_iff_disj)
  then show "b < n \<Longrightarrow> B b = Some m \<Longrightarrow> blk_fin m \<le> bump n B" by (simp add: bump_def)
qed

lemma sample_env_ok: "env_ok sample_env"
  by (simp add: env_ok_def sample_env_def bump_above)

lemma sample_cfg_ok: "cfg_ok sample_cfg"
  by (simp add: cfg_ok_def sample_cfg_def)

text \<open>The definitions that a call unfolds to.\<close>

lemmas run_defs = Alloc_def AllocImp_def FetchLayerSpan_def FetchSplitedSpan_def FetchNewSpan_def Rts_FetchNewSpan_def
  Scalable_FetchNewSpan_def SplitSpan_def FindFitLayerId_def Quick_FindFitLayerId_def lower_bound_def PopSpanFromLayer_def
  PushSpanToLayer_def FetchSpanLayer_def OccupySpan_def on_span_def span_upd_def span_at_def BlockAlloc_def SetBuddy_def
  PageSpan_new_def PageSpan_Alloc_def SetPageLen_def layer_at_def vec_ix_def linked_def OnLayerAddSpan_def OnLayerRemoveSpan_def
  OnLayerCreated_def Quick_OnLayerAddSpan_def Quick_OnLayerRemoveSpan_def emplace_def DeviceAllocator_Alloc_def
  RtMemAllocator_Alloc_def GetIdleMemSize_def IsThresholdExceeded_def GetOccupiedSize_def drain_def drain_loop.simps
  GetAllocSize_def page_mem_size_def PageLen_GetMemSize_def PageLen_GetLenFromSize_def SpanLayerId_GetIdFromSize_def
  PageLen_ForwardAddr_def span_layer_capacity_def kSafeTryCount_def set_try_count_def alloc_rounds.simps
  IsValidVirtualAddr_def IsSplitable_def HasSplited_def PageSpan_GetSize_def SPAN_LAYER_ID_INVALID_def add64_def sub64_def
  GetIdleMemSizeOfLayer_def GetIdlePageCountOfLayer_def

lemma sample_layers: "replicate 5 (None :: 'a option) = [None, None, None, None, None]"
  by (simp add: eval_nat_numeral)

lemmas sample_simps = run_defs sample_env_def sample_cfg_def ScalableAllocator_new_def bump_def blk_fin_def Let_def sample_layers

definition sample1 :: ScalableAllocator where
  "sample1 = snd (projr (perform sample_env sample_cfg (Malloc 10) (ScalableAllocator_new sample_cfg)))"

definition sample2 :: ScalableAllocator where
  "sample2 = snd (projr (perform sample_env sample_cfg (Malloc 10) sample1))"

lemma sample1: "perform sample_env sample_cfg (Malloc 10) (ScalableAllocator_new sample_cfg) = Inr (Span (Some 2), sample1)"
  by (simp add: sample1_def sample_simps)

lemma sample2: "perform sample_env sample_cfg (Malloc 10) sample1 = Inr (Span (Some 4), sample2)"
  by (simp add: sample2_def sample1_def sample_simps)

lemma sample_reach: "alloc_reach sample_env sample_cfg sample1" "alloc_reach sample_env sample_cfg sample2"
proof -
  show 1: "alloc_reach sample_env sample_cfg sample1" by (rule alloc_reach.call [OF alloc_reach.start _ sample1]) simp
  show "alloc_reach sample_env sample_cfg sample2" by (rule alloc_reach.call [OF 1 _ sample2]) simp
qed

lemma sample_occupied: "occupied_spans sample1 = [2]" "occupied_spans sample2 = [4, 2]"
  by (simp_all add: sample2_def sample1_def sample_simps)

lemma sample_live: "live sample_cfg sample2 2 = Some (4144, 16)" "live sample_cfg sample2 4 = Some (4128, 16)"
  by (simp_all add: sample2_def sample1_def sample_simps live_def extent_def)

section \<open>Correctness\<close>

text \<open>
  C2: In every state that calls from construction on can reach, a legal call returns, and what it
  does to the memory in the clients' hands is what the specification says: \<^verbatim>\<open>Alloc\<close> and
  \<^verbatim>\<open>Malloc\<close> either refuse and change nothing or hand out a range of the rounded size that is
  disjoint from all others, \<^verbatim>\<open>Free\<close> takes exactly the freed range back, \<^verbatim>\<open>Recycle\<close> touches no
  client memory, \<^verbatim>\<open>Finalize\<close> answers whether all memory has been returned, and
  \<^verbatim>\<open>ConvertToRootBlock\<close> hands over at most the span asked for.
\<close>

theorem page_allocator_refines:
  assumes "env_ok E" and "cfg_ok c" and "alloc_reach E c S" and "legal a S"
  shows "\<exists>y S'. perform E c a S = Inr (y, S') \<and> alloc_reach E c S' \<and> range_step c a (live c S) y (live c S')"
proof -
  obtain r where "alloc_inv c r S" using reach_inv [OF assms(3,1,2)] by blast
  from perform_refines [OF this assms(1,2,4)] alloc_reach.call [OF assms(3,4)] show ?thesis by blast
qed

theorem page_allocator_refines_witness:
  "env_ok sample_env \<and> cfg_ok sample_cfg \<and> alloc_reach sample_env sample_cfg sample2 \<and> legal (FreeBlock 2) sample2 \<and>
   (\<exists>y S'. perform sample_env sample_cfg (FreeBlock 2) sample2 = Inr (y, S') \<and> alloc_reach sample_env sample_cfg S' \<and>
      range_step sample_cfg (FreeBlock 2) (live sample_cfg sample2) y (live sample_cfg S'))"
proof -
  have "legal (FreeBlock 2) sample2" by (simp add: sample_occupied)
  from page_allocator_refines [OF sample_env_ok sample_cfg_ok sample_reach(2) this] this show ?thesis
    using sample_env_ok sample_cfg_ok sample_reach(2) by blast
qed

text \<open>
  C4: Two ranges in the hands of clients never overlap, each has a positive length, and each lies
  inside one block that the device has handed out and not taken back.
\<close>

theorem client_ranges_safe:
  assumes "env_ok E" and "cfg_ok c" and "alloc_reach E c S" and "live c S p = Some (a, n)" and "live c S q = Some (b, m)"
    and "p \<noteq> q"
  shows "0 < n \<and> (a + n \<le> b \<or> b + m \<le> a) \<and>
    (\<exists>k blk. blocks S k = Some blk \<and> blk_addr blk \<le> a \<and> a + n \<le> blk_addr blk + blk_size blk)"
proof -
  obtain r where inv: "alloc_inv c r S" using reach_inv [OF assms(3,1,2)] by blast
  obtain s where s: "spans S p = Some s" "a = sp_addr s" "a + n = fin c s" using live_span [OF assms(4)] by blast
  have ok: "span_ok c (blocks S) r (spans S) p s" using inv s(1) by (simp add: alloc_inv_def heap_okD)
  obtain blk where "blocks S (r p) = Some blk" "blk_addr blk \<le> sp_addr s" "fin c s \<le> blk_fin blk"
    using ok by (auto elim: span_okE)
  then show ?thesis
    using live_disjoint [OF inv assms(4,5,6)] fin_grows [OF ok] s by (auto simp: blk_fin_def)
qed

theorem client_ranges_safe_witness:
  "alloc_reach sample_env sample_cfg sample2 \<and> live sample_cfg sample2 2 = Some (4144, 16) \<and>
   live sample_cfg sample2 4 = Some (4128, 16) \<and>
   (\<exists>k blk. blocks sample2 k = Some blk \<and> blk_addr blk \<le> 4144 \<and> 4144 + 16 \<le> blk_addr blk + blk_size blk)"
  using client_ranges_safe [OF sample_env_ok sample_cfg_ok sample_reach(2) sample_live] sample_reach(2) sample_live by simp

text \<open>
  C11: Every span is either occupied, and then in use, or idle in the layer of its page count, and
  then unused; an idle span never has an idle buddy, so freed neighbours are always merged; and the
  spans of a block tile it, for a span's next buddy begins where the span ends.
\<close>

theorem spans_filed_and_merged:
  assumes "env_ok E" and "cfg_ok c" and "alloc_reach E c S" and "spans S p = Some s"
  shows "(p \<in> set (occupied_spans S) \<and> 0 < sp_count s \<and> p \<notin> idle (span_layers S) \<or>
          p \<notin> set (occupied_spans S) \<and> sp_count s = 0 \<and> (\<exists>xs. span_layers S ! page_len s = Some xs \<and> p \<in> set xs)) \<and>
         (buddy_next s = None \<or> (\<exists>q t. buddy_next s = Some q \<and> spans S q = Some t \<and> sp_addr t = fin c s \<and>
            (p \<in> set (occupied_spans S) \<or> q \<in> set (occupied_spans S))))"
proof -
  obtain r where inv: "alloc_inv c r S" using reach_inv [OF assms(3,1,2)] by blast
  then have lists: "lists_ok c {} (spans S) (occupied_spans S) (span_layers S)" and heap: "heap_ok c (blocks S) r (spans S)"
    by (simp_all add: alloc_inv_def core_lists)
  have one: "x \<in> set (occupied_spans S) \<or> x \<in> idle (span_layers S)" if "spans S x = Some u" for x u
    using lo_all [OF lists that] by simp
  have "\<exists>q t. buddy_next s = Some q \<and> spans S q = Some t \<and> sp_addr t = fin c s \<and>
      (p \<in> set (occupied_spans S) \<or> q \<in> set (occupied_spans S))" if "buddy_next s \<noteq> None"
  proof -
    from that obtain q where q: "buddy_next s = Some q" by auto
    obtain t where t: "spans S q = Some t" "sp_addr t = fin c s" using heap_okD [OF heap assms(4)] q by (auto elim!: span_okE)
    then show ?thesis using q one [OF assms(4)] one [OF t(1)] lo_coal [OF lists assms(4) q] by blast
  qed
  moreover have "p \<in> set (occupied_spans S) \<Longrightarrow> 0 < sp_count s \<and> p \<notin> idle (span_layers S)"
    using lo_occ [OF lists] idle_occ [OF lists] assms(4) by fastforce
  moreover have "p \<in> idle (span_layers S) \<Longrightarrow>
      p \<notin> set (occupied_spans S) \<and> sp_count s = 0 \<and> (\<exists>xs. span_layers S ! page_len s = Some xs \<and> p \<in> set xs)"
    using idle_span [OF lists] idle_occ [OF lists] assms(4) by (metis option.inject)
  ultimately show ?thesis using one [OF assms(4)] by blast
qed

theorem spans_filed_and_merged_witness:
  "alloc_reach sample_env sample_cfg sample2 \<and>
   (\<exists>s q t. spans sample2 4 = Some s \<and> buddy_next s = Some q \<and> spans sample2 q = Some t \<and> sp_addr t = fin sample_cfg s)"
proof -
  obtain s where s: "spans sample2 4 = Some s" "buddy_next s = Some 2"
    by (simp add: sample2_def sample1_def sample_simps)
  with spans_filed_and_merged [OF sample_env_ok sample_cfg_ok sample_reach(2) s(1)] sample_reach(2) show ?thesis by auto
qed


text \<open>The blocks \<open>ps\<close> are freed one after the other.\<close>

fun free_all :: "host_env \<Rightarrow> allocator_cfg \<Rightarrow> nat list \<Rightarrow> ScalableAllocator \<Rightarrow> ScalableAllocator res" where
  "free_all E c [] S = Inr S"
| "free_all E c (p # ps) S = rbind (perform E c (FreeBlock p) S) (\<lambda>(_, S). free_all E c ps S)"

lemma free_all_frees:
  assumes "alloc_inv c r S" and "env_ok E" and "cfg_ok c" and "distinct ps" and "set ps = set (occupied_spans S)"
  shows "\<exists>S'. free_all E c ps S = Inr S' \<and> alloc_inv c r S' \<and> occupied_spans S' = []"
  using assms
proof (induction ps arbitrary: S)
  case (Cons p ps)
  obtain S1 where S1: "Free E c (Some p) (unused p S) = Inr S1" "alloc_inv c r S1" "live c S1 = (live c S)(p := None)"
    using Free_releases [OF Cons.prems(1-3), of p] Cons.prems(5) by auto
  have "q \<in> set (occupied_spans S1) \<longleftrightarrow> q \<in> set (occupied_spans S) \<and> q \<noteq> p" for q
    using live_dom [OF S1(2), of q] live_dom [OF Cons.prems(1), of q] S1(3) by (auto split: if_splits)
  then have "set ps = set (occupied_spans S1)" using Cons.prems(4,5) by auto
  then show ?case using Cons.IH [OF S1(2) Cons.prems(2,3)] Cons.prems(4) S1(1) by auto
qed simp



text \<open>
  C37: \<^verbatim>\<open>FreeSpanEx\<close> returns for every occupied span, whatever its use count: the loop that takes
  the uses away ends, and the span's range, and no other, leaves the clients' hands.
\<close>

theorem FreeSpanEx_ends:
  assumes "env_ok E" and "cfg_ok c" and "alloc_reach E c S" and "p \<in> set (occupied_spans S)"
  shows "\<exists>S'. FreeSpanEx E c p S = Inr S' \<and> live c S' = (live c S)(p := None)"
proof -
  obtain r where "alloc_inv c r S" using reach_inv [OF assms(3,1,2)] by blast
  from FreeSpanEx_releases [OF this assms(1,2,4)] show ?thesis by metis
qed

theorem FreeSpanEx_ends_witness:
  "alloc_reach sample_env sample_cfg sample2 \<and> 2 \<in> set (occupied_spans sample2) \<and>
   (\<exists>S'. FreeSpanEx sample_env sample_cfg 2 sample2 = Inr S' \<and> live sample_cfg S' = (live sample_cfg sample2)(2 := None))"
proof -
  have "2 \<in> set (occupied_spans sample2)" by (simp add: sample_occupied)
  then show ?thesis using FreeSpanEx_ends [OF sample_env_ok sample_cfg_ok sample_reach(2)] sample_reach(2) by blast
qed

text \<open>
  C38: The size that \<^verbatim>\<open>Alloc\<close> rounds a request to is the least positive multiple of the page size
  that is not below the request, and the layer number computed from it is exactly its page count:
  neither the 64-bit rounding nor the 32-bit page count loses a bit.
\<close>

theorem GetAllocSize_least:
  assumes "cfg_ok c" and "sz \<le> page_mem_size_total_threshold c" and "0 < n" and "sz \<le> n * 2 ^ page_idem_num c"
  shows "sz \<le> GetAllocSize c sz \<and> 0 < GetAllocSize c sz \<and> GetAllocSize c sz \<le> n * 2 ^ page_idem_num c \<and>
    GetAllocSize c sz = SpanLayerId_GetIdFromSize (GetAllocSize c sz) (page_idem_num c) * 2 ^ page_idem_num c"
proof -
  note pg = pages_size [OF assms(1,2)]
  have "pages c sz \<le> n"
  proof (cases "sz = 0")
    case True
    then show ?thesis using assms(3) by (simp add: pages_def)
  next
    case False
    then have "pages c sz * 2 ^ page_idem_num c < (n + 1) * 2 ^ page_idem_num c"
      using pages_least(2) [of c sz] assms(4) by simp
    then have "pages c sz < n + 1" by (simp only: mult_less_cancel2)
    then show ?thesis by simp
  qed
  then show ?thesis using pg pages_least(1) [of sz c] by simp
qed

theorem GetAllocSize_least_witness:
  "cfg_ok sample_cfg \<and> GetAllocSize sample_cfg 17 = 32 \<and> GetAllocSize sample_cfg 17 \<le> 2 * 2 ^ page_idem_num sample_cfg"
  using GetAllocSize_least [OF sample_cfg_ok, of 17 2] sample_cfg_ok
  by (simp add: sample_cfg_def GetAllocSize_def page_mem_size_def PageLen_GetMemSize_def MemSize_GetAlignedOf_def)

lemma reuse_layer_span:
  assumes inv: "alloc_inv c r S" and E: "env_ok E" and c: "cfg_ok c" and k: "layer_filled (span_layers S) k"
  obtains p S' where "FetchLayerSpan E c k S = Inr (Some p, S')" and "alloc_count S' = alloc_count S" and "blocks S' = blocks S"
proof -
  have len: "length (span_layers S) = span_layer_capacity c" "span_layers S \<noteq> []"
    using core_layers [of c "{}" S] inv c by (simp_all add: alloc_inv_def)
  obtain p xs where p: "k < length (span_layers S)" "span_layers S ! k = Some (p # xs)"
    using k by (auto simp: layer_filled_def neq_Nil_conv split: option.splits)
  then obtain x S' where "FetchLayerSpan E c k S = Inr (x, S')"
    using fetch_layer_span [OF inv E c, of k] len by metis
  then show thesis
    using that p len
    by (auto simp: FetchLayerSpan_def PopSpanFromLayer_def OccupySpan_def on_span_def layer_at_def vec_ix_def rbind_eq_Inr
        split: if_splits)
qed


definition sample3 :: ScalableAllocator where
  "sample3 = snd (projr (perform sample_env sample_cfg (FreeBlock 2) sample2))"

lemmas free_defs = Free_def unused_def release_span_def RemoveOccupied_def TryMergeNext_def TryMergePrev_def PickOutBuddy_def
  FreeSpan_def

lemma sample3: "perform sample_env sample_cfg (FreeBlock 2) sample2 = Inr (Done, sample3)"
  and sample3_layer: "span_layers sample3 = [None, Some [2], Some [1], Some [], None]"
  by (simp_all add: sample3_def sample2_def sample1_def sample_simps free_defs)


lemma fixed_init:
  assumes "env_ok E" and "cfg_ok c" and k: "k = SpanLayerId_GetIdFromSize sz (page_idem_num c)" "k < span_layer_capacity c"
  shows "\<exists>S s. InitFixSizedAllocator E c addr sz (ScalableAllocator_new c) = Inr (True, S) \<and> spans S = [0 \<mapsto> s] \<and>
    block_addr s = None \<and> \<not> new_va_span s \<and> \<not> HasSplited s \<and> virtual_memory_addr_base S = 0 \<and> new_va_size S = 0 \<and>
    span_layers S = (replicate (span_layer_capacity c) None)[k := Some [0]] \<and> span_layer_ids S = [k]"
proof -
  let ?s = "PageSpan_new E None addr sz\<lparr>splitable := True\<rparr>"
  have drain: "drain E 0 [0 \<mapsto> ?s] = Inr [0 \<mapsto> ?s\<lparr>sp_count := 0\<rparr>]"
    using drain_span [OF assms(1), of "[0 \<mapsto> ?s]" 0 ?s] by simp
  have free: "\<not> (case x of None \<Rightarrow> False | Some xs \<Rightarrow> (0 :: nat) \<in> set xs)"
    if "x \<in> set ((replicate (span_layer_capacity c) None)[k := Some []])" for x
    using set_update_subset_insert [of "replicate (span_layer_capacity c) (None :: nat list option)" k "Some []"] that by auto
  have "\<exists>S. InitFixSizedAllocator E c addr sz (ScalableAllocator_new c) = Inr (True, S) \<and> spans S = [0 \<mapsto> ?s\<lparr>sp_count := 0\<rparr>] \<and>
      virtual_memory_addr_base S = 0 \<and> new_va_size S = 0 \<and>
      span_layers S = (replicate (span_layer_capacity c) None)[k := Some [0]] \<and> span_layer_ids S = [k]"
    using k(2) drain env_new [OF assms(1)] free unfolding k(1)
    by (simp add: InitFixSizedAllocator_def BlockAlloc_def on_span_def span_upd_def span_at_def ScalableAllocator_new_def
        FetchSpanLayer_def vec_ix_def PushSpanToLayer_def layer_at_def linked_def Let_def list_ex_iff
        OnLayerCreated_def OnLayerAddSpan_def Seq_OnLayerCreated_def Quick_OnLayerAddSpan_def emplace_def)
  moreover have "block_addr ?s = None" "\<not> new_va_span ?s" "\<not> HasSplited (?s\<lparr>sp_count := 0\<rparr>)"
    by (simp_all add: PageSpan_new_def HasSplited_def)
  ultimately show ?thesis by fastforce
qed

text \<open>
  C40: An allocator over a fixed range of client memory loses the range to \<^verbatim>\<open>Recycle\<close>.  After
  \<^verbatim>\<open>InitFixSizedAllocator\<close> the range is one idle span; \<^verbatim>\<open>Recycle\<close> takes the unsplit span for a
  device block, although it has none, and destroys it, so that no layer has a span any more.
\<close>

theorem Recycle_loses_fixed_range:
  assumes "env_ok E" and "cfg_ok c" and "sz \<le> page_mem_size_total_threshold c"
  shows "\<exists>S S'. InitFixSizedAllocator E c addr sz (ScalableAllocator_new c) = Inr (True, S) \<and>
    layer_filled (span_layers S) (SpanLayerId_GetIdFromSize sz (page_idem_num c)) \<and>
    Recycle E c S = Inr S' \<and> spans S' = Map.empty \<and> (\<forall>k. \<not> layer_filled (span_layers S') k)"
proof -
  let ?k = "SpanLayerId_GetIdFromSize sz (page_idem_num c)"
  have k: "?k < span_layer_capacity c"
    using capacity [OF assms(2)] div_le_mono [OF assms(3), of "2 ^ page_idem_num c"]
    by (simp add: SpanLayerId_GetIdFromSize_def PageLen_GetLenFromSize_def)
  let ?ls = "replicate (span_layer_capacity c) (None :: nat list option)"
  obtain S s where S: "InitFixSizedAllocator E c addr sz (ScalableAllocator_new c) = Inr (True, S)" "spans S = [0 \<mapsto> s]"
      "block_addr s = None" "\<not> new_va_span s" "\<not> HasSplited s" "virtual_memory_addr_base S = 0" "new_va_size S = 0"
      "span_layers S = ?ls[?k := Some [0]]" "span_layer_ids S = [?k]"
    using fixed_init [OF assms(1,2) refl k] by blast
  have "\<exists>S'. Recycle E c S = Inr S' \<and> spans S' = Map.empty \<and> span_layers S' = ?ls[?k := Some []]"
    using S(2-9) k
    by (simp add: Recycle_def Quick_Recycle_def Seq_Recycle_def SpanLayer_Recycle_def layer_at_def vec_ix_def span_at_def
        IsValidVirtualAddr_def DeviceAllocator_Free_def SpanFree_def Let_def)
  moreover have "layer_filled (span_layers S) ?k" "\<not> layer_filled (?ls[?k := Some []]) j" for j
    using k S(8) by (auto simp: layer_filled_def nth_list_update split: if_splits)
  ultimately show ?thesis using S(1) by auto
qed

theorem Recycle_loses_fixed_range_witness:
  "env_ok sample_env \<and> cfg_ok sample_cfg \<and> 64 \<le> page_mem_size_total_threshold sample_cfg \<and>
   (\<exists>S S'. InitFixSizedAllocator sample_env sample_cfg 4096 64 (ScalableAllocator_new sample_cfg) = Inr (True, S) \<and>
      layer_filled (span_layers S) 4 \<and> Recycle sample_env sample_cfg S = Inr S' \<and> spans S' = Map.empty)"
proof -
  have t: "64 \<le> page_mem_size_total_threshold sample_cfg" and k: "SpanLayerId_GetIdFromSize 64 (page_idem_num sample_cfg) = 4"
    by (simp_all add: sample_cfg_def SpanLayerId_GetIdFromSize_def PageLen_GetLenFromSize_def)
  show ?thesis
    using Recycle_loses_fixed_range [OF sample_env_ok sample_cfg_ok t, of 4096] sample_env_ok sample_cfg_ok t unfolding k by blast
qed

end
