(* ===== verification/Spec2Isabelle.thy ===== *)
theory Spec2Isabelle
  imports Formats MemLink PhysicalMemory AllocatorCorrect
begin

text \<open>
  A verification library for the Graph Engine (\<^verbatim>\<open>src/ge-develop\<close>).

  \<^bold>\<open>What the program is.\<close>  The Graph Engine compiles neural-network graphs and runs them on an
  accelerator.  Two of its libraries are self-contained algorithms on data the host owns, and are
  modelled here: the tensor format library (\<^verbatim>\<open>base/formats\<close>), which rearranges the bytes of a
  tensor between the layouts of the frameworks (NCHW, NHWC, HWCN, CHWN, DHWCN, ND) and the blocked
  layouts of the hardware (NC1HWC0, C1HWNCoC0, FRACTAL_Z, FRACTAL_NZ, FRACTAL_ZZ, FRACTAL_Z_3D), and
  the memory management of the runtime (\<^verbatim>\<open>runtime/v2/kernel/memory\<close>).

  \<^bold>\<open>Shared vocabulary.\<close>
  \<^item> \<open>GePrelude\<close>: a function that returns \<^verbatim>\<open>Status\<close> is a function into \<open>fault + 'a\<close>; exceptions
    and undefined behaviour are values of \<open>fault\<close>.  \<^verbatim>\<open>int64_t\<close> products wrap (\<open>mul64\<close>); counted
    loops with early return are \<open>for_upto\<close>; a buffer is a list of bytes read and written in elements.
  \<^item> \<open>Layout\<close>: row-major index tuples and the reference semantics \<open>relayout\<close> of a layout change: each
    element of the result is the source element a coordinate map picks, or zero.  The locale
    \<open>layout_map\<close> is the contract of such a map, \<open>layout_inverse\<close> that of a pair of maps that undo
    each other; each transfer interprets them.

  \<^bold>\<open>The format library.\<close>  One definition per C++ function, under its name; the method
  \<^verbatim>\<open>TransFormat\<close> of class \<^verbatim>\<open>FormatTransferX\<close> is \<open>X_TransFormat\<close>.
  \<^item> \<open>FormatsUtils\<close>: \<^verbatim>\<open>formats_trans_utils\<close> (shape checks, element counts, ceiling division).
  \<^item> \<open>TransferBase\<close>: \<^verbatim>\<open>TransArgs\<close>, \<^verbatim>\<open>TransResult\<close>, the environment \<open>ge_env\<close> of what the library
    calls outside the repository (allocation, the bounds-checked copy functions, the accessors of a
    packed format number), and the locales \<open>elem_copier\<close> and \<open>run_copier\<close>: a loop nest whose body
    copies one element, or one run of elements, computes the \<open>relayout\<close> of its index map.
  \<^item> \<open>TransferNc1hwc0\<close>, \<open>TransferC1hwncoc0\<close>, \<open>TransferFracZ\<close>, \<open>TransferFracZGroup\<close>,
    \<open>TransferFracZBack\<close>, \<open>TransferRows\<close>, \<open>TransferFracNz\<close>, \<open>TransferFracZz\<close>, \<open>TransferFracZ3D\<close>,
    \<open>TransferTranspose\<close>: the transfer classes, file by file.  For each: every element of the result
    is the one the layout says (\<open>_elements\<close>), and a transfer followed by its way back is the identity
    on the bytes (\<open>_roundtrip\<close>).  The theorems say that the transfer succeeds on every tensor of
    positive dimensions whose padded size fits into 63 bits.
  \<^item> \<open>TransferFrame\<close>: for every transfer and every input, a success reports the length of the buffer it
    hands out.
  \<^item> \<open>Formats\<close>: the registry and the entry points.  The locale \<open>format_transfer\<close> is the contract of a
    transfer class, interpreted by each of them; \<open>pair_registry\<close> that of the registry.

  \<^bold>\<open>Memory management.\<close>
  \<^item> \<open>MemLink\<close>: the intrusive doubly linked list.  The pointers of all lists are one store; every
    operation refines the one on plain lists (locale \<open>link_interface\<close>).
  \<^item> \<open>PhysicalMemory\<close>: \<^verbatim>\<open>PhysicalMemoryAllocator\<close>, the pool of physical pages over the driver.  The
    driver is an argument whose answers depend on the calls made so far.  \<open>pool_reach\<close> are the states
    a client can reach; the invariant, the exclusive ownership of pages (locale \<open>page_pool\<close>) and the
    agreement with the driver's page table hold in all of them.

  \<^item> \<open>Spans\<close>, \<open>Scalable\<close>: the page allocator \<^verbatim>\<open>ScalableAllocator\<close> with its subclass
    \<^verbatim>\<open>RtsCachingMemAllocator\<close>.  It cuts device blocks into spans of whole pages; the idle spans of
    each length are a layer, the spans of one block are linked as buddies, and a freed span is merged
    with its idle buddies.  Spans are records in a store whose identities are used once, so that a
    dangling pointer is \<open>Inl Undefined\<close>; the lists of the source are lists of identities.  Device, host
    allocation and the use count of \<^verbatim>\<open>ge::MemBlock\<close> are the arguments of the record \<open>host_env\<close>.
  \<^item> \<open>SpanHeap\<close> (geometry of spans in blocks), \<open>SpanLists\<close> (idle and occupied spans), \<open>SpanLut\<close> (the
    contract \<open>span_layer_lut\<close> of a lookup table, interpreted by both tables), \<open>ScalableInv\<close>
    (allocation), \<open>ScalableFree\<close> (release), \<open>ScalableRecycle\<close> (return of memory to the device): the
    invariant \<open>alloc_inv\<close> and that each operation keeps it.
  \<^item> \<open>PageAllocator\<close>, \<open>AllocatorCorrect\<close>: sequences of calls, the specification \<open>range_step\<close> on the
    ranges in the clients' hands, and the properties of every reachable state.  \<open>sample_env\<close> and
    \<open>sample_cfg\<close> are a device and a configuration on which they are evaluated.
  \<^bold>\<open>Bounds and loops.\<close>  Loops with a counter are structural; loops that
  C++ bounds by a data structure are recursive functions with a termination proof; the two loops of
  \<open>MemLink\<close> that a corrupted list could keep running are \<^theory_text>\<open>partial_function (option)\<close> and are shown to
  end on every list a program can build.  The only fuel is that of \<open>drain_loop\<close>: as many rounds as
  the use count it starts from, which is enough since every round lowers the count.

  \<^bold>\<open>Assumptions on code outside the repository.\<close>  They are named predicates on the environment
  (\<open>alloc_ok\<close>, \<open>securec_ok\<close>, \<open>securec_frame\<close>, \<open>trans_ready\<close>): the allocator returns a buffer of the
  requested size, the bounds-checked functions copy within the bounds they are given, the packed
  format number yields its parts; for the page allocator \<open>env_ok\<close>: host allocation succeeds, the
  use count goes up and down, and the device never hands out memory that overlaps a block in use.
  \<open>cfg_ok\<close> says that page counts up to the threshold of the configuration fit into 32 bits.  \<open>ref_env\<close> is a concrete environment in which they hold; the
  witnesses use it.

  \<^bold>\<open>Not modelled.\<close>  The FZ_C04 transfers (their methods are arguments of the entry points: they
  call graph helpers that are not in the repository); log and error-message text;
  the page allocator over a reserved virtual address range (\<^verbatim>\<open>InitExpandableAllocator\<close> and the
  branches it enables, which end in \<open>expandable_mode\<close>), and the stream-ordered allocators above it;
  the compiler, the parsers, the model runtime, the API and the data-flow services, which work on
  an object graph whose classes are declared outside the repository, on generated protobuf classes,
  or through device and transport services.
\<close>

end
